theory Spec2Isabelle
  imports Main
begin

section \<open>JavaScript values, file text and the file system\<close>

text \<open>
  The tool keeps its state in JSON files under \<^verbatim>\<open>~/.openskill\<close>. A value read back by
  \<^verbatim>\<open>JSON.parse\<close> is a \<open>json\<close>; numbers are the integers (pids, timestamps in
  milliseconds, schema versions), and \<open>None\<close> stands for JavaScript's \<^verbatim>\<open>undefined\<close>.
\<close>

datatype json =
    JNull
  | JBool bool
  | JNum int
  | JStr string
  | JArr "json list"
  | JObj "(string \<times> json) list"

text \<open>
  The text of a file is either what \<^verbatim>\<open>JSON.stringify\<close> writes for a value
  (\<open>Json j\<close>, which \<^verbatim>\<open>JSON.parse\<close> reads back as \<open>j\<close>), or raw characters
  (\<open>Raw s\<close>). Of raw text, \<^verbatim>\<open>JSON.parse\<close> accepts the scalar literals (an integer,
  \<^verbatim>\<open>null\<close>, \<^verbatim>\<open>true\<close>, \<^verbatim>\<open>false\<close>, with white space around them) and throws on
  everything else; the text of an array, an object or a string is always a \<open>Json\<close>.
\<close>

datatype content = Json json | Raw string

datatype error =
    EEXIST
  | ENOENT
  | EISDIR
  | ENOTDIR
  | LockError        \<comment> \<open>Could not acquire manifest lock - another operation may be in progress\<close>
  | TypeError        \<comment> \<open>a property read on \<^verbatim>\<open>null\<close>\<close>
  | InvalidRepoName  \<comment> \<open>Invalid repository name\<close>
  | InvalidCachePath \<comment> \<open>Invalid cache path for repository\<close>
  | InstallError string

definition is_space :: "char \<Rightarrow> bool" where
  "is_space c = (c \<in> set [CHR '' '', CHR 0x09, CHR 0x0A, CHR 0x0D])"

definition is_digit :: "char \<Rightarrow> bool" where
  "is_digit c = (c \<in> set ''0123456789'')"

definition digit_val :: "char \<Rightarrow> nat" where
  "digit_val c = of_char c - 48"

definition decimal :: "string \<Rightarrow> nat" where
  "decimal ds = foldl (\<lambda>a c. 10 * a + digit_val c) 0 ds"

definition trim :: "string \<Rightarrow> string" where
  "trim s = rev (dropWhile is_space (rev (dropWhile is_space s)))"

text \<open>The integer literals of JSON: an optional minus, then \<^verbatim>\<open>0\<close> or digits without a leading zero.\<close>

definition int_literal :: "string \<Rightarrow> int option" where
  "int_literal s =
     (let (neg, ds) = (case s of c # r \<Rightarrow> if c = CHR ''-'' then (True, r) else (False, s)
                               | [] \<Rightarrow> (False, s))
      in if ds = [] \<or> \<not> list_all is_digit ds \<or> (hd ds = CHR ''0'' \<and> length ds > 1) then None
         else Some (if neg then - int (decimal ds) else int (decimal ds)))"

definition parse_scalar :: "string \<Rightarrow> json option" where
  "parse_scalar s =
     (let t = trim s
      in if t = ''null'' then Some JNull
         else if t = ''true'' then Some (JBool True)
         else if t = ''false'' then Some (JBool False)
         else map_option JNum (int_literal t))"

text \<open>
  \<^verbatim>\<open>JSON.parse\<close>: \<open>None\<close> is the thrown SyntaxError. The text \<open>Json j\<close> is the
  serialisation of the value \<open>j\<close>. A text \<open>Raw s\<close> is any other text, given by its
  characters: a truncated file, a legacy lock marker. Of these the parser reads the
  scalars that the values of the model cover, \<^verbatim>\<open>null\<close>, \<^verbatim>\<open>true\<close>, \<^verbatim>\<open>false\<close> and the
  integer literals, between white space. The numbers of the model are the integers: a
  text whose number has a fraction or an exponent is outside the model, and so is an
  integer too large for a JavaScript number to hold exactly. Strings, arrays and objects
  are written \<open>Json\<close>, not \<open>Raw\<close>.
\<close>

definition JSON_parse :: "content \<Rightarrow> json option" where
  "JSON_parse t = (case t of Json j \<Rightarrow> Some j | Raw s \<Rightarrow> parse_scalar s)"

definition JSON_stringify :: "json \<Rightarrow> content" where
  "JSON_stringify j = Json j"

text \<open>
  \<^verbatim>\<open>parseInt(s, 10)\<close>: leading white space, an optional sign, then the longest run of
  digits; \<open>None\<close> is \<^verbatim>\<open>NaN\<close>. The white space of \<^verbatim>\<open>parseInt\<close> is wider than that of
  JSON: among the characters of the model (those of one byte) it also has the vertical
  tab, the form feed and the no-break space.
\<close>

definition is_js_space :: "char \<Rightarrow> bool" where
  "is_js_space c =
     (c \<in> set [CHR '' '', CHR 0x09, CHR 0x0A, CHR 0x0B, CHR 0x0C, CHR 0x0D, CHR 0xA0])"

definition parseInt :: "string \<Rightarrow> int option" where
  "parseInt s =
     (let t = dropWhile is_js_space s;
          (neg, u) = (case t of c # r \<Rightarrow> if c = CHR ''-'' then (True, r)
                                        else if c = CHR ''+'' then (False, r) else (False, t)
                              | [] \<Rightarrow> (False, t));
          ds = takeWhile is_digit u
      in if ds = [] then None
         else Some (if neg then - int (decimal ds) else int (decimal ds)))"

text \<open>A property read \<^verbatim>\<open>v.k\<close> on a value that is not \<^verbatim>\<open>null\<close>.\<close>

fun field :: "json \<Rightarrow> string \<Rightarrow> json option" where
  "field (JObj kvs) k = map_of kvs k"
| "field _ k = None"

text \<open>
  The world a command runs in: the directories and files on disk (a path is its list of
  segments, and holds a directory, a file, or nothing), the clock behind
  \<^verbatim>\<open>Date.now()\<close>, and what the process sees of the operating system. No other process
  touches the files during a call. Time passes while the process sleeps and while it
  spins in the retry loop of the lock. A call on the file system fails only for what is
  or is not at a path; permissions, links and a full disk are not modelled.
\<close>

type_synonym path = "string list"

datatype node = Dir | File content

record world =
  homedir :: path
  nodes :: "path \<rightharpoonup> node"
  now :: int
  process_pid :: int
  win32 :: bool
  running :: "int set"  \<comment> \<open>the pids of the running processes that may be signalled: \<^verbatim>\<open>process.kill(pid, 0)\<close> throws for any other\<close>

definition files :: "world \<Rightarrow> path \<rightharpoonup> content" where
  "files w p = (case nodes w p of Some (File t) \<Rightarrow> Some t | _ \<Rightarrow> None)"

definition dirs :: "world \<Rightarrow> path set" where
  "dirs w = {p. nodes w p = Some Dir}"

definition put_file :: "path \<Rightarrow> content \<Rightarrow> world \<Rightarrow> world" where
  "put_file p t w = w\<lparr>nodes := (nodes w)(p \<mapsto> File t)\<rparr>"

definition remove_node :: "path \<Rightarrow> world \<Rightarrow> world" where
  "remove_node p w = w\<lparr>nodes := (nodes w)(p := None)\<rparr>"

definition existsSync :: "path \<Rightarrow> world \<Rightarrow> bool" where
  "existsSync p w = (nodes w p \<noteq> None)"

definition readFileSync :: "path \<Rightarrow> world \<Rightarrow> error + content" where
  "readFileSync p w =
     (case nodes w p of
        None \<Rightarrow> Inl ENOENT
      | Some Dir \<Rightarrow> Inl EISDIR
      | Some (File t) \<Rightarrow> Inr t)"

text \<open>
  A file can be created only in a directory: \<open>parent_error\<close> is the error of a path
  whose parent is missing or is a file.
\<close>

definition parent_error :: "path \<Rightarrow> world \<Rightarrow> error option" where
  "parent_error p w =
     (case nodes w (butlast p) of
        Some Dir \<Rightarrow> None
      | Some (File t) \<Rightarrow> Some ENOTDIR
      | None \<Rightarrow> Some ENOENT)"

definition writeFileSync :: "path \<Rightarrow> content \<Rightarrow> world \<Rightarrow> error + world" where
  "writeFileSync p t w =
     (if nodes w p = Some Dir then Inl EISDIR
      else case parent_error p w of
             Some e \<Rightarrow> Inl e
           | None \<Rightarrow> Inr (put_file p t w))"

text \<open>
  With the flag \<^verbatim>\<open>wx\<close> the file is created only if nothing is at the path yet, neither
  a file nor a directory.
\<close>

definition writeFileSync_wx :: "path \<Rightarrow> content \<Rightarrow> world \<Rightarrow> error + world" where
  "writeFileSync_wx p t w =
     (if nodes w p \<noteq> None then Inl EEXIST
      else case parent_error p w of
             Some e \<Rightarrow> Inl e
           | None \<Rightarrow> Inr (put_file p t w))"

definition unlinkSync :: "path \<Rightarrow> world \<Rightarrow> error + world" where
  "unlinkSync p w =
     (case nodes w p of
        None \<Rightarrow> Inl ENOENT
      | Some Dir \<Rightarrow> Inl EISDIR
      | Some (File t) \<Rightarrow> Inr (remove_node p w))"

text \<open>A file is not renamed onto a directory, nor a directory onto a file.\<close>

definition renameSync :: "path \<Rightarrow> path \<Rightarrow> world \<Rightarrow> error + world" where
  "renameSync a b w =
     (case nodes w a of
        None \<Rightarrow> Inl ENOENT
      | Some n \<Rightarrow>
          (case parent_error b w of
             Some e \<Rightarrow> Inl e
           | None \<Rightarrow>
               if n \<noteq> Dir \<and> nodes w b = Some Dir then Inl EISDIR
               else if n = Dir \<and> nodes w b \<noteq> None \<and> nodes w b \<noteq> Some Dir then Inl ENOTDIR
               else Inr (w\<lparr>nodes := ((nodes w)(a := None))(b \<mapsto> n)\<rparr>)))"

text \<open>
  \<^verbatim>\<open>mkdirSync(p, { recursive: true })\<close> creates the directory and every directory above
  it that is missing. It fails where a file is at the path, or where the nearest path
  above it that holds anything holds a file. \<open>ancestors\<close> lists the paths above a path,
  the nearest first.
\<close>

definition ancestors :: "path \<Rightarrow> path list" where
  "ancestors p = map (\<lambda>n. take n p) (rev [0..<length p])"

definition make_dirs :: "path \<Rightarrow> world \<Rightarrow> world" where
  "make_dirs p w =
     w\<lparr>nodes := (\<lambda>q. if (q = p \<or> q \<in> set (ancestors p)) \<and> nodes w q = None then Some Dir
                      else nodes w q)\<rparr>"

definition mkdirSync :: "path \<Rightarrow> world \<Rightarrow> error + world" where
  "mkdirSync p w =
     (if nodes w p \<noteq> None \<and> nodes w p \<noteq> Some Dir then Inl EEXIST
      else case filter (\<lambda>q. nodes w q \<noteq> None) (ancestors p) of
             [] \<Rightarrow> Inr (make_dirs p w)
           | q # qs \<Rightarrow> if nodes w q \<noteq> Some Dir then Inl ENOTDIR else Inr (make_dirs p w))"

definition sleepSync :: "int \<Rightarrow> world \<Rightarrow> world" where
  "sleepSync ms w = w\<lparr>now := now w + ms\<rparr>"

text \<open>
  A pass through a retry loop that neither returns nor sleeps still takes time; it is
  charged one millisecond, so that a loop that spins runs into its timeout as it does
  on a real clock.
\<close>

definition spin :: "world \<Rightarrow> world" where
  "spin w = w\<lparr>now := now w + 1\<rparr>"

section \<open>Configuration directory (core/config.ts)\<close>

definition getConfigDir :: "world \<Rightarrow> path" where
  "getConfigDir w = homedir w @ [''.openskill'']"

definition getSkillsCacheDir :: "world \<Rightarrow> path" where
  "getSkillsCacheDir w = getConfigDir w @ [''skills'']"

definition getReposCacheDir :: "world \<Rightarrow> path" where
  "getReposCacheDir w = getConfigDir w @ [''repos'']"

definition ensureDir :: "path \<Rightarrow> world \<Rightarrow> error + world" where
  "ensureDir p w = (if \<not> existsSync p w then mkdirSync p w else Inr w)"

text \<open>
  The three directories in turn; a \<^verbatim>\<open>mkdirSync\<close> that throws ends the call and leaves
  the directories made so far.
\<close>

definition ensureConfigDir :: "world \<Rightarrow> (error + unit) \<times> world" where
  "ensureConfigDir w =
     (case ensureDir (getConfigDir w) w of
        Inl e \<Rightarrow> (Inl e, w)
      | Inr w1 \<Rightarrow>
          (case ensureDir (getSkillsCacheDir w1) w1 of
             Inl e \<Rightarrow> (Inl e, w1)
           | Inr w2 \<Rightarrow>
               (case ensureDir (getReposCacheDir w2) w2 of
                  Inl e \<Rightarrow> (Inl e, w2)
                | Inr w3 \<Rightarrow> (Inr (), w3))))"

section \<open>The lock primitive (core/manifest.ts)\<close>

definition MANIFEST_VERSION :: int where "MANIFEST_VERSION = 1"
definition LOCK_TIMEOUT_MS :: int where "LOCK_TIMEOUT_MS = 5000"
definition LOCK_RETRY_MS :: int where "LOCK_RETRY_MS = 50"
definition LOCK_STALE_MS :: int where "LOCK_STALE_MS = 30000"

record LockInfo =
  pid :: int
  timestamp :: int

definition getManifestPath :: "world \<Rightarrow> path" where
  "getManifestPath w = getConfigDir w @ [''manifest.json'']"

definition getLockPath :: "world \<Rightarrow> path" where
  "getLockPath w = getConfigDir w @ [''manifest.lock'']"

definition LockInfo_json :: "LockInfo \<Rightarrow> json" where
  "LockInfo_json l = JObj [(''pid'', JNum (pid l)), (''timestamp'', JNum (timestamp l))]"

text \<open>\<^verbatim>\<open>typeof v === "object"\<close> holds of objects, arrays and \<^verbatim>\<open>null\<close>.\<close>

fun typeof_object :: "json \<Rightarrow> bool" where
  "typeof_object (JObj kvs) = True"
| "typeof_object (JArr xs) = True"
| "typeof_object JNull = True"
| "typeof_object _ = False"

fun typeof_number :: "json option \<Rightarrow> bool" where
  "typeof_number (Some (JNum n)) = True"
| "typeof_number _ = False"

fun the_number :: "json option \<Rightarrow> int" where
  "the_number (Some (JNum n)) = n"
| "the_number _ = 0"

text \<open>
  The \<^verbatim>\<open>try\<close> block returns the parsed object when it has a numeric pid and timestamp;
  the \<^verbatim>\<open>catch\<close> block, for text that \<^verbatim>\<open>JSON.parse\<close> rejects, tries the legacy format.
\<close>

definition parseLockInfo :: "content \<Rightarrow> LockInfo option" where
  "parseLockInfo content =
     (case JSON_parse content of
        Some parsed \<Rightarrow>
          if typeof_object parsed \<and> parsed \<noteq> JNull
             \<and> typeof_number (field parsed ''pid'') \<and> typeof_number (field parsed ''timestamp'')
          then Some \<lparr>pid = the_number (field parsed ''pid''),
                     timestamp = the_number (field parsed ''timestamp'')\<rparr>
          else None
      | None \<Rightarrow>
          (case content of
             Raw s \<Rightarrow>
               (case parseInt s of
                  Some p \<Rightarrow> if p > 0 then Some \<lparr>pid = p, timestamp = 0\<rparr> else None
                | None \<Rightarrow> None)
           | Json j \<Rightarrow> None))"

definition isLockStale :: "LockInfo \<Rightarrow> world \<Rightarrow> bool" where
  "isLockStale lockInfo w =
     (if timestamp lockInfo = 0 then True
      else now w - timestamp lockInfo > LOCK_STALE_MS)"

definition isProcessRunning :: "int \<Rightarrow> world \<Rightarrow> bool" where
  "isProcessRunning p w =
     (if p \<le> 0 then False
      else if win32 w then p > 0 \<and> p < 4194304
      else p \<in> running w)"

definition own_lock :: "world \<Rightarrow> content" where
  "own_lock w = JSON_stringify (LockInfo_json \<lparr>pid = process_pid w, timestamp = now w\<rparr>)"

text \<open>
  One pass through the body of the \<^verbatim>\<open>while\<close> loop of \<^verbatim>\<open>acquireLock\<close>.
  \<open>Inl\<close> leaves the loop: \<open>Inr b\<close> in it is \<^verbatim>\<open>return b\<close>, and \<open>Inl e\<close> in it
  is the error that \<^verbatim>\<open>ensureConfigDir()\<close> throws, which nothing in \<^verbatim>\<open>acquireLock\<close>
  catches. \<open>Inr\<close> goes round the loop again, after \<^verbatim>\<open>continue\<close> (\<open>spin\<close>), after the
  sleep, or after \<^verbatim>\<open>ensureConfigDir()\<close>.
\<close>

definition acquire_attempt :: "world \<Rightarrow> ((error + bool) \<times> world) + world" where
  "acquire_attempt w =
     (case writeFileSync_wx (getLockPath w) (own_lock w) w of
        Inr w1 \<Rightarrow> Inl (Inr True, w1)
      | Inl err \<Rightarrow>
          if err = EEXIST then
            (case readFileSync (getLockPath w) w of
               Inr content \<Rightarrow>
                 (case parseLockInfo content of
                    Some lockInfo \<Rightarrow>
                      if pid lockInfo = process_pid w then Inl (Inr True, w)
                      else if \<not> isProcessRunning (pid lockInfo) w \<or> isLockStale lockInfo w then
                        (case unlinkSync (getLockPath w) w of
                           Inr w1 \<Rightarrow>
                             (case writeFileSync_wx (getLockPath w1) (own_lock w1) w1 of
                                Inr w2 \<Rightarrow> Inl (Inr True, w2)
                              | Inl e \<Rightarrow> Inr (spin w1))
                         | Inl e \<Rightarrow> Inr (spin w))
                      else Inr (sleepSync LOCK_RETRY_MS w)
                  | None \<Rightarrow>
                      (case unlinkSync (getLockPath w) w of
                         Inr w1 \<Rightarrow> Inr (spin w1)
                       | Inl e \<Rightarrow> Inr (spin w)))
             | Inl e \<Rightarrow>
                 (case unlinkSync (getLockPath w) w of
                    Inr w1 \<Rightarrow> Inr (spin w1)
                  | Inl e' \<Rightarrow> Inr (spin w)))
          else
            (case ensureConfigDir w of
               (Inl e, w1) \<Rightarrow> Inl (Inl e, w1)
             | (Inr u, w1) \<Rightarrow> Inr (spin w1)))"

lemma paths_simps [simp]:
  "getConfigDir (w\<lparr>nodes := f\<rparr>) = getConfigDir w"
  "getConfigDir (w\<lparr>now := n\<rparr>) = getConfigDir w"
  "getConfigDir (put_file p t w) = getConfigDir w"
  "getConfigDir (remove_node p w) = getConfigDir w"
  "getLockPath (w\<lparr>nodes := f\<rparr>) = getLockPath w"
  "getLockPath (w\<lparr>now := n\<rparr>) = getLockPath w"
  "getLockPath (put_file p t w) = getLockPath w"
  "getLockPath (remove_node p w) = getLockPath w"
  "getManifestPath (w\<lparr>nodes := f\<rparr>) = getManifestPath w"
  "getManifestPath (w\<lparr>now := n\<rparr>) = getManifestPath w"
  "getManifestPath (put_file p t w) = getManifestPath w"
  "getManifestPath (remove_node p w) = getManifestPath w"
  "butlast (getLockPath w) = getConfigDir w"
  "butlast (getManifestPath w) = getConfigDir w"
  by (simp_all add: getConfigDir_def getLockPath_def getManifestPath_def butlast_append
      put_file_def remove_node_def)

text \<open>What making directories leaves alone: whatever is at a path stays there.\<close>

lemma mkdirSync_fields:
  assumes "mkdirSync p w = Inr w'"
  shows "homedir w' = homedir w" "now w' = now w" "process_pid w' = process_pid w"
    "win32 w' = win32 w" "running w' = running w"
    "nodes w q \<noteq> None \<Longrightarrow> nodes w' q = nodes w q"
    "nodes w' q = None \<or> nodes w' q = Some Dir \<or> nodes w' q = nodes w q"
    "nodes w' p = Some Dir"
proof -
  have w': "w' = make_dirs p w" and p: "nodes w p = None \<or> nodes w p = Some Dir"
    using assms by (auto simp add: mkdirSync_def split: if_splits list.splits)
  show "homedir w' = homedir w" "now w' = now w" "process_pid w' = process_pid w"
    "win32 w' = win32 w" "running w' = running w"
    by (simp_all add: w' make_dirs_def)
  show "nodes w q \<noteq> None \<Longrightarrow> nodes w' q = nodes w q"
    by (simp add: w' make_dirs_def)
  show "nodes w' q = None \<or> nodes w' q = Some Dir \<or> nodes w' q = nodes w q"
    by (simp add: w' make_dirs_def)
  show "nodes w' p = Some Dir"
    using p by (auto simp add: w' make_dirs_def)
qed

lemma ensureDir_fields:
  assumes "ensureDir p w = Inr w'"
  shows "homedir w' = homedir w" "now w' = now w" "process_pid w' = process_pid w"
    "win32 w' = win32 w" "running w' = running w"
    "nodes w q \<noteq> None \<Longrightarrow> nodes w' q = nodes w q"
    "nodes w' q = None \<or> nodes w' q = Some Dir \<or> nodes w' q = nodes w q"
  using assms mkdirSync_fields [of p w w']
  by (auto simp add: ensureDir_def split: if_splits)

lemma ensureConfigDir_fields:
  "homedir (snd (ensureConfigDir w)) = homedir w"
  "now (snd (ensureConfigDir w)) = now w"
  "process_pid (snd (ensureConfigDir w)) = process_pid w"
  "win32 (snd (ensureConfigDir w)) = win32 w"
  "running (snd (ensureConfigDir w)) = running w"
  by (auto simp add: ensureConfigDir_def ensureDir_fields(1-5) split: sum.splits)

lemma ensureConfigDir_nodes:
  "nodes w q \<noteq> None \<Longrightarrow> nodes (snd (ensureConfigDir w)) q = nodes w q"
  by (auto simp add: ensureConfigDir_def ensureDir_fields(6) split: sum.splits)

lemma ensureConfigDir_new_nodes:
  "nodes (snd (ensureConfigDir w)) q = None \<or> nodes (snd (ensureConfigDir w)) q = Some Dir
   \<or> nodes (snd (ensureConfigDir w)) q = nodes w q"
proof -
  have step: "nodes b q = None \<or> nodes b q = Some Dir \<or> nodes b q = nodes w q"
    if "ensureDir p a = Inr b" "nodes a q = None \<or> nodes a q = Some Dir \<or> nodes a q = nodes w q"
    for p a b
    using ensureDir_fields(7) [OF that(1), of q] that(2) by auto
  show ?thesis
    by (auto simp add: ensureConfigDir_def split: sum.splits dest!: step)
qed

lemma ensureConfigDir_files [simp]: "files (snd (ensureConfigDir w)) = files w"
proof
  fix q
  show "files (snd (ensureConfigDir w)) q = files w q"
  proof (cases "nodes w q")
    case None
    then have "nodes (snd (ensureConfigDir w)) q = None \<or> nodes (snd (ensureConfigDir w)) q = Some Dir"
      using ensureConfigDir_new_nodes [of w q] by auto
    then show ?thesis using None by (auto simp add: files_def)
  next
    case (Some n)
    then have "nodes (snd (ensureConfigDir w)) q = nodes w q"
      by (simp add: ensureConfigDir_nodes)
    then show ?thesis by (simp add: files_def)
  qed
qed

lemma ensureConfigDir_dirs: "dirs w \<subseteq> dirs (snd (ensureConfigDir w))"
  using ensureConfigDir_nodes by (auto simp add: dirs_def)

lemma ensureConfigDir_paths [simp]:
  "getConfigDir (snd (ensureConfigDir w)) = getConfigDir w"
  "getLockPath (snd (ensureConfigDir w)) = getLockPath w"
  "getManifestPath (snd (ensureConfigDir w)) = getManifestPath w"
  by (simp_all add: getConfigDir_def getLockPath_def getManifestPath_def ensureConfigDir_fields)

lemma primitives_now:
  "writeFileSync_wx p t w = Inr w' \<Longrightarrow> now w' = now w"
  "writeFileSync p t w = Inr w' \<Longrightarrow> now w' = now w"
  "unlinkSync p w = Inr w' \<Longrightarrow> now w' = now w"
  "renameSync p q w = Inr w' \<Longrightarrow> now w' = now w"
  by (auto simp add: writeFileSync_wx_def writeFileSync_def unlinkSync_def renameSync_def
      put_file_def remove_node_def split: if_splits option.splits node.splits)

lemma acquire_attempt_retry:
  assumes "acquire_attempt w = Inr w'"
  shows "now w < now w'"
proof -
  have "now w1 = now w" if "ensureConfigDir w = (r, w1)" for r w1
    using ensureConfigDir_fields(2) [of w] that by simp
  then show ?thesis
    using assms
    by (auto simp add: acquire_attempt_def sleepSync_def spin_def LOCK_RETRY_MS_def
        split: sum.splits option.splits if_splits prod.splits dest: primitives_now)
qed

function acquire_loop :: "int \<Rightarrow> world \<Rightarrow> (error + bool) \<times> world" where
  "acquire_loop startTime w =
     (if now w - startTime < LOCK_TIMEOUT_MS then
        (case acquire_attempt w of
           Inl r \<Rightarrow> r
         | Inr w' \<Rightarrow> acquire_loop startTime w')
      else (Inr False, w))"
  by pat_completeness auto
termination
proof (relation "measure (\<lambda>(s, w). nat (s + LOCK_TIMEOUT_MS - now w))")
  show "wf (measure (\<lambda>(s, w). nat (s + LOCK_TIMEOUT_MS - now w)))"
    by simp
next
  fix startTime :: int and w w' :: world
  assume "now w - startTime < LOCK_TIMEOUT_MS" and "acquire_attempt w = Inr w'"
  then show "((startTime, w'), (startTime, w))
      \<in> measure (\<lambda>(s, w). nat (s + LOCK_TIMEOUT_MS - now w))"
    using acquire_attempt_retry [of w w'] by simp
qed

text \<open>\<^verbatim>\<open>acquireLock\<close> returns a boolean (\<open>Inr\<close>) or lets the error of \<^verbatim>\<open>ensureConfigDir()\<close> through (\<open>Inl\<close>).\<close>

definition acquireLock :: "world \<Rightarrow> (error + bool) \<times> world" where
  "acquireLock w = acquire_loop (now w) w"

definition releaseLock :: "world \<Rightarrow> world" where
  "releaseLock w = (case unlinkSync (getLockPath w) w of Inr w' \<Rightarrow> w' | Inl e \<Rightarrow> w)"

text \<open>
  A stateful computation that may throw returns its result, or the error, together with
  the world it leaves behind. \<^verbatim>\<open>withLock\<close> releases the lock in a \<^verbatim>\<open>finally\<close> block.
\<close>

definition withLock :: "(world \<Rightarrow> (error + 'a) \<times> world) \<Rightarrow> world \<Rightarrow> (error + 'a) \<times> world" where
  "withLock fn w =
     (case acquireLock w of
        (Inl e, w1) \<Rightarrow> (Inl e, w1)
      | (Inr b, w1) \<Rightarrow>
          if \<not> b then (Inl LockError, w1)
          else (case fn w1 of (r, w2) \<Rightarrow> (r, releaseLock w2)))"

section \<open>The manifest (core/manifest.ts)\<close>

datatype InstallScope = Project | Global

fun scope_str :: "InstallScope \<Rightarrow> string" where
  "scope_str Project = ''project''"
| "scope_str Global = ''global''"

record InstalledSkillRecord =
  name :: string
  agent :: string
  repoOwner :: string
  repoName :: string
  repoPath :: "string option"
  commitHash :: string
  installedAt :: string
  scope :: "InstallScope option"

text \<open>
  In memory a manifest is what \<^verbatim>\<open>JSON.parse\<close> gave: the elements of \<^verbatim>\<open>skills\<close> are
  not checked against the interface when the file is loaded, so they are \<open>json\<close> values.
  Properties of the document other than \<^verbatim>\<open>version\<close> and \<^verbatim>\<open>skills\<close> are not modelled.
\<close>

record Manifest =
  version :: int
  skills :: "json list"

text \<open>\<^verbatim>\<open>JSON.stringify\<close> leaves out the properties that are \<^verbatim>\<open>undefined\<close>.\<close>

definition InstalledSkillRecord_json :: "InstalledSkillRecord \<Rightarrow> json" where
  "InstalledSkillRecord_json r =
     JObj ([(''name'', JStr (name r)), (''agent'', JStr (agent r)),
            (''repoOwner'', JStr (repoOwner r)), (''repoName'', JStr (repoName r))]
           @ (case repoPath r of None \<Rightarrow> [] | Some p \<Rightarrow> [(''repoPath'', JStr p)])
           @ [(''commitHash'', JStr (commitHash r)), (''installedAt'', JStr (installedAt r))]
           @ (case scope r of None \<Rightarrow> [] | Some sc \<Rightarrow> [(''scope'', JStr (scope_str sc))]))"

definition Manifest_json :: "Manifest \<Rightarrow> json" where
  "Manifest_json m = JObj [(''version'', JNum (version m)), (''skills'', JArr (skills m))]"

fun isArray :: "json option \<Rightarrow> bool" where
  "isArray (Some (JArr xs)) = True"
| "isArray _ = False"

fun the_array :: "json option \<Rightarrow> json list" where
  "the_array (Some (JArr xs)) = xs"
| "the_array _ = []"

definition empty_manifest :: Manifest where
  "empty_manifest = \<lparr>version = MANIFEST_VERSION, skills = []\<rparr>"

definition migrateManifest :: "Manifest \<Rightarrow> Manifest" where
  "migrateManifest manifest = manifest\<lparr>version := MANIFEST_VERSION\<rparr>"

definition tempPath :: "path \<Rightarrow> path" where
  "tempPath p = butlast p @ [last p @ ''.tmp'']"

definition saveManifest :: "Manifest \<Rightarrow> world \<Rightarrow> (error + unit) \<times> world" where
  "saveManifest manifest w =
     (case ensureConfigDir w of
        (Inl e, w1) \<Rightarrow> (Inl e, w1)
      | (Inr u, w1) \<Rightarrow>
          (let path = getManifestPath w1
           in case writeFileSync (tempPath path) (JSON_stringify (Manifest_json manifest)) w1 of
                Inl e \<Rightarrow> (Inl e, w1)
              | Inr w2 \<Rightarrow>
                  (case renameSync (tempPath path) path w2 of
                     Inl e \<Rightarrow> (Inl e, w2)
                   | Inr w3 \<Rightarrow> (Inr (), w3))))"

text \<open>
  Every failure inside the \<^verbatim>\<open>try\<close> block of \<^verbatim>\<open>loadManifest\<close> (the read, the parse, a
  property read on \<^verbatim>\<open>null\<close>, the save of the migrated manifest) ends in the
  \<^verbatim>\<open>catch\<close> block, which returns the empty manifest.
\<close>

definition loadManifest :: "world \<Rightarrow> Manifest \<times> world" where
  "loadManifest w =
     (let path = getManifestPath w
      in if \<not> existsSync path w then (empty_manifest, w)
         else
           (case readFileSync path w of
              Inl e \<Rightarrow> (empty_manifest, w)
            | Inr content \<Rightarrow>
                (case JSON_parse content of
                   None \<Rightarrow> (empty_manifest, w)
                 | Some parsed \<Rightarrow>
                     if parsed = JNull then (empty_manifest, w)
                     else if \<not> typeof_number (field parsed ''version'')
                             \<or> \<not> isArray (field parsed ''skills'')
                     then (empty_manifest, w)
                     else
                       (let m = \<lparr>version = the_number (field parsed ''version''),
                                  skills = the_array (field parsed ''skills'')\<rparr>
                        in if version m < MANIFEST_VERSION then
                             (let migrated = migrateManifest m
                              in case saveManifest migrated w of
                                   (Inr u, w') \<Rightarrow> (migrated, w')
                                 | (Inl e, w') \<Rightarrow> (empty_manifest, w'))
                           else (m, w)))))"

text \<open>\<^verbatim>\<open>s.scope ?? "project"\<close> on an element of the manifest.\<close>

definition scope_or_project :: "json \<Rightarrow> json" where
  "scope_or_project s =
     (case field s ''scope'' of None \<Rightarrow> JStr ''project'' | Some JNull \<Rightarrow> JStr ''project''
      | Some v \<Rightarrow> v)"

definition sameKey :: "string \<Rightarrow> string \<Rightarrow> string \<Rightarrow> json \<Rightarrow> bool" where
  "sameKey n a sc s =
     (field s ''name'' = Some (JStr n) \<and> field s ''agent'' = Some (JStr a)
      \<and> scope_or_project s = JStr sc)"

text \<open>
  \<^verbatim>\<open>Array.prototype.filter\<close> and \<^verbatim>\<open>find\<close> with a callback that starts by reading
  \<^verbatim>\<open>s.name\<close>: the read throws on an element that is \<^verbatim>\<open>null\<close>.
\<close>

definition filter_skills :: "(json \<Rightarrow> bool) \<Rightarrow> json list \<Rightarrow> error + json list" where
  "filter_skills P xs = (if JNull \<in> set xs then Inl TypeError else Inr (filter P xs))"

fun find_skill :: "(json \<Rightarrow> bool) \<Rightarrow> json list \<Rightarrow> error + json option" where
  "find_skill P [] = Inr None"
| "find_skill P (s # xs) =
     (if s = JNull then Inl TypeError else if P s then Inr (Some s) else find_skill P xs)"

definition addSkillRecord :: "InstalledSkillRecord \<Rightarrow> world \<Rightarrow> (error + unit) \<times> world" where
  "addSkillRecord record w =
     withLock (\<lambda>w.
       case loadManifest w of
         (manifest, w1) \<Rightarrow>
           (let sc = (case scope record of None \<Rightarrow> ''project'' | Some x \<Rightarrow> scope_str x)
            in case filter_skills (\<lambda>s. \<not> sameKey (name record) (agent record) sc s)
                      (skills manifest) of
                 Inl e \<Rightarrow> (Inl e, w1)
               | Inr kept \<Rightarrow>
                   saveManifest
                     (manifest\<lparr>skills := kept @ [InstalledSkillRecord_json record]\<rparr>) w1)) w"

text \<open>The scope parameter of \<^verbatim>\<open>removeSkillRecord\<close> defaults to \<^verbatim>\<open>"project"\<close>.\<close>

definition removeSkillRecord ::
  "string \<Rightarrow> string \<Rightarrow> InstallScope option \<Rightarrow> world \<Rightarrow> (error + unit) \<times> world" where
  "removeSkillRecord n a scope_arg w =
     withLock (\<lambda>w.
       case loadManifest w of
         (manifest, w1) \<Rightarrow>
           (let sc = (case scope_arg of None \<Rightarrow> ''project'' | Some x \<Rightarrow> scope_str x)
            in case filter_skills (\<lambda>s. \<not> sameKey n a sc s) (skills manifest) of
                 Inl e \<Rightarrow> (Inl e, w1)
               | Inr kept \<Rightarrow> saveManifest (manifest\<lparr>skills := kept\<rparr>) w1)) w"

definition getSkillRecord ::
  "string \<Rightarrow> string \<Rightarrow> InstallScope option \<Rightarrow> world \<Rightarrow> (error + json option) \<times> world" where
  "getSkillRecord n a scope_arg w =
     (case loadManifest w of
        (manifest, w1) \<Rightarrow>
          (case scope_arg of
             Some sc \<Rightarrow> (find_skill (sameKey n a (scope_str sc)) (skills manifest), w1)
           | None \<Rightarrow>
               (find_skill (\<lambda>s. field s ''name'' = Some (JStr n) \<and> field s ''agent'' = Some (JStr a))
                  (skills manifest), w1)))"

definition getAllInstalledSkills :: "world \<Rightarrow> json list \<times> world" where
  "getAllInstalledSkills w = (case loadManifest w of (manifest, w1) \<Rightarrow> (skills manifest, w1))"

text \<open>
  \<^verbatim>\<open>writeFileSync\<close> opens and truncates the file and then writes the text; only
  \<^verbatim>\<open>renameSync\<close> is atomic. \<open>save_states\<close> lists the worlds that \<^verbatim>\<open>saveManifest\<close>
  goes through, in order: where a crash or a failing step stops the save, one of them
  is what stays on disk. A truncated or half-written file is a \<open>Raw\<close> text. The
  directories that \<^verbatim>\<open>ensureConfigDir\<close> makes one by one change no file.
\<close>

definition save_states :: "Manifest \<Rightarrow> world \<Rightarrow> world list" where
  "save_states manifest w =
     (case ensureConfigDir w of
        (Inl e, w1) \<Rightarrow> [w, w1]
      | (Inr u, w1) \<Rightarrow>
          (let path = getManifestPath w1
           in [w, w1] @
              (case writeFileSync (tempPath path) (Raw []) w1 of
                 Inl e \<Rightarrow> []
               | Inr wt \<Rightarrow>
                   [wt] @
                   (case writeFileSync (tempPath path) (JSON_stringify (Manifest_json manifest)) w1 of
                      Inl e \<Rightarrow> []
                    | Inr w2 \<Rightarrow>
                        [w2] @
                        (case renameSync (tempPath path) path w2 of
                           Inl e \<Rightarrow> []
                         | Inr w3 \<Rightarrow> [w3])))))"

text \<open>A run of manifest commands, one after the other; a command that throws ends, and the next one starts.\<close>

datatype store_op =
    Upsert InstalledSkillRecord
  | Remove string string "InstallScope option"

fun apply_op :: "store_op \<Rightarrow> world \<Rightarrow> world" where
  "apply_op (Upsert r) w = snd (addSkillRecord r w)"
| "apply_op (Remove n a sc) w = snd (removeSkillRecord n a sc w)"

definition run_ops :: "store_op list \<Rightarrow> world \<Rightarrow> world" where
  "run_ops ops w = fold apply_op ops w"

text \<open>At most one element of the list matches each key.\<close>

definition unique_keys :: "json list \<Rightarrow> bool" where
  "unique_keys xs = (\<forall>n a sc. length (filter (sameKey n a sc) xs) \<le> 1)"

section \<open>The repository cache (core/registry.ts, utils/fs.ts)\<close>

definition is_name_char :: "char \<Rightarrow> bool" where
  "is_name_char c =
     (c \<in> set ''abcdefghijklmnopqrstuvwxyzABCDEFGHIJKLMNOPQRSTUVWXYZ0123456789_-'')"

text \<open>The regular expression \<^verbatim>\<open>/^[a-zA-Z0-9_-]+$/\<close> and the length bounds.\<close>

definition isValidConfigRepoName :: "string \<Rightarrow> bool" where
  "isValidConfigRepoName n =
     ((n \<noteq> [] \<and> list_all is_name_char n) \<and> length n > 0 \<and> length n \<le> 100)"

text \<open>Both paths are resolved already: a path is within a base when the base is a prefix of it.\<close>

definition isPathWithin :: "path \<Rightarrow> path \<Rightarrow> bool" where
  "isPathWithin basePath targetPath = (take (length basePath) targetPath = basePath)"

definition getCachePath :: "string \<Rightarrow> world \<Rightarrow> error + path" where
  "getCachePath n w =
     (if \<not> isValidConfigRepoName n then Inl InvalidRepoName
      else
        (let cachePath = getReposCacheDir w @ [n @ ''.json'']
         in if \<not> isPathWithin (getReposCacheDir w) cachePath then Inl InvalidCachePath
            else Inr cachePath))"

text \<open>The values that count as false in a condition.\<close>

fun falsy :: "json option \<Rightarrow> bool" where
  "falsy None = True"
| "falsy (Some JNull) = True"
| "falsy (Some (JBool b)) = (\<not> b)"
| "falsy (Some (JNum n)) = (n = 0)"
| "falsy (Some (JStr s)) = (s = [])"
| "falsy (Some v) = False"

text \<open>
  \<^verbatim>\<open>getCachePath\<close> is called before the \<^verbatim>\<open>try\<close> block; whatever fails inside the
  block (the read, the parse, \<^verbatim>\<open>cache.skills\<close> on \<^verbatim>\<open>null\<close>) gives the empty list.
\<close>

definition loadRepoCache :: "string \<Rightarrow> world \<Rightarrow> error + json list" where
  "loadRepoCache n w =
     (case getCachePath n w of
        Inl e \<Rightarrow> Inl e
      | Inr cachePath \<Rightarrow>
          if \<not> existsSync cachePath w then Inr []
          else
            (case readFileSync cachePath w of
               Inl e \<Rightarrow> Inr []
             | Inr content \<Rightarrow>
                 (case JSON_parse content of
                    None \<Rightarrow> Inr []
                  | Some cache \<Rightarrow>
                      if cache = JNull then Inr []
                      else if falsy (field cache ''skills'') \<or> \<not> isArray (field cache ''skills'')
                      then Inr []
                      else Inr (the_array (field cache ''skills'')))))"

section \<open>Installing a request (cli/install.ts, agents/base.ts, agents/index.ts)\<close>

definition toLowerCase :: "string \<Rightarrow> string" where
  "toLowerCase s =
     map (\<lambda>c. if c \<in> set ''ABCDEFGHIJKLMNOPQRSTUVWXYZ'' then char_of (of_char c + (32::nat)) else c) s"

text \<open>
  \<^verbatim>\<open>getAgent\<close> reads the property with the lower-cased name from the object that holds
  the four agents. For one of the four the result is the agent, given here by its own
  name. The object also inherits \<^verbatim>\<open>constructor\<close> and \<^verbatim>\<open>__proto__\<close> (the other
  properties it inherits have an upper-case letter in their names): for these the result
  is a value that is no agent, \<open>Prototype\<close>, which counts as true in a condition and has
  none of the methods of an agent. For every other name the result is \<^verbatim>\<open>undefined\<close>.
\<close>

datatype agent_value = Agent string | Prototype

definition getAgent :: "string \<Rightarrow> agent_value option" where
  "getAgent n =
     (if toLowerCase n \<in> set [''claude'', ''antigravity'', ''codex'', ''cursor'']
      then Some (Agent (toLowerCase n))
      else if toLowerCase n \<in> set [''constructor'', ''__proto__''] then Some Prototype
      else None)"

text \<open>
  A skill as \<^verbatim>\<open>loadSkillFromDir\<close> returns it: its name, and whether the agents'
  \<^verbatim>\<open>validateSkill\<close> accepts it (all agents share one implementation).
\<close>

record ParsedSkill =
  frontmatter_name :: string
  valid :: bool

text \<open>
  The machine the request runs on: the world of the manifest, and the skill directories
  that exist under the agents' skill paths of the request's scope, as pairs of agent and
  skill name.
\<close>

record machine =
  world :: world
  content :: "(string \<times> string) set"

text \<open>
  What the request fixes: the repository context, the scope, the rendering of the clock
  by \<^verbatim>\<open>toISOString\<close>, and for which agent and skill the copy of \<^verbatim>\<open>installSkill\<close> fails.
\<close>

record request =
  owner :: string
  repo :: string
  commit :: string
  skillPath :: "string option"
  req_scope :: InstallScope
  toISOString :: "int \<Rightarrow> string"
  copy_fails :: "string \<Rightarrow> string \<Rightarrow> bool"

definition installSkill :: "request \<Rightarrow> string \<Rightarrow> ParsedSkill \<Rightarrow> machine \<Rightarrow> error + machine" where
  "installSkill rq ag skill m =
     (if copy_fails rq ag (frontmatter_name skill) then Inl (InstallError (frontmatter_name skill))
      else Inr (m\<lparr>content := insert (ag, frontmatter_name skill) (content m)\<rparr>))"

definition uninstallSkill :: "string \<Rightarrow> string \<Rightarrow> machine \<Rightarrow> bool \<times> machine" where
  "uninstallSkill ag n m =
     (if (ag, n) \<notin> content m then (False, m)
      else (True, m\<lparr>content := content m - {(ag, n)}\<rparr>))"

text \<open>
  The inner loop over the selected agents, for one skill. The state is the machine and
  the list \<^verbatim>\<open>installedSkills\<close>; \<open>Some e\<close> is the error thrown out of the loop. Calling
  \<^verbatim>\<open>validateSkill\<close> on a value that is no agent throws a \<^verbatim>\<open>TypeError\<close>.
\<close>

fun install_agents ::
  "request \<Rightarrow> ParsedSkill \<Rightarrow> string list \<Rightarrow> machine \<times> (string \<times> string) list
   \<Rightarrow> error option \<times> machine \<times> (string \<times> string) list" where
  "install_agents rq skill [] st = (None, st)"
| "install_agents rq skill (agentName # rest) (m, installedSkills) =
     (case getAgent agentName of
        None \<Rightarrow> install_agents rq skill rest (m, installedSkills)
      | Some Prototype \<Rightarrow> (Some TypeError, m, installedSkills)
      | Some (Agent ag) \<Rightarrow>
          if \<not> valid skill then install_agents rq skill rest (m, installedSkills)
          else
            (case installSkill rq ag skill m of
               Inl e \<Rightarrow> (Some e, m, installedSkills)
             | Inr m1 \<Rightarrow>
                 (let installedSkills1 = installedSkills @ [(frontmatter_name skill, agentName)]
                  in case addSkillRecord
                            \<lparr>name = frontmatter_name skill, agent = agentName,
                             repoOwner = owner rq, repoName = repo rq, repoPath = skillPath rq,
                             commitHash = commit rq,
                             installedAt = toISOString rq (now (world m1)),
                             scope = Some (req_scope rq)\<rparr> (world m1) of
                       (Inl e, w') \<Rightarrow> (Some e, m1\<lparr>world := w'\<rparr>, installedSkills1)
                     | (Inr u, w') \<Rightarrow>
                         install_agents rq skill rest (m1\<lparr>world := w'\<rparr>, installedSkills1))))"

text \<open>The outer loop over the selected skills; \<open>None\<close> is a directory that \<^verbatim>\<open>loadSkillFromDir\<close> could not load.\<close>

fun install_skills ::
  "request \<Rightarrow> ParsedSkill option list \<Rightarrow> string list \<Rightarrow> machine \<times> (string \<times> string) list
   \<Rightarrow> error option \<times> machine \<times> (string \<times> string) list" where
  "install_skills rq [] selectedAgents st = (None, st)"
| "install_skills rq (None # rest) selectedAgents st = install_skills rq rest selectedAgents st"
| "install_skills rq (Some skill # rest) selectedAgents st =
     (case install_agents rq skill selectedAgents st of
        (Some e, st') \<Rightarrow> (Some e, st')
      | (None, st') \<Rightarrow> install_skills rq rest selectedAgents st')"

text \<open>
  The \<^verbatim>\<open>catch\<close> block: every tracked pair is uninstalled through its agent. What
  \<^verbatim>\<open>uninstallSkill\<close> throws on a value that is no agent is caught and logged.
\<close>

fun rollback :: "(string \<times> string) list \<Rightarrow> machine \<Rightarrow> machine" where
  "rollback [] m = m"
| "rollback ((n, agentName) # rest) m =
     (case getAgent agentName of
        None \<Rightarrow> rollback rest m
      | Some Prototype \<Rightarrow> rollback rest m
      | Some (Agent ag) \<Rightarrow> rollback rest (snd (uninstallSkill ag n m)))"

definition install_request ::
  "request \<Rightarrow> ParsedSkill option list \<Rightarrow> string list \<Rightarrow> machine \<Rightarrow> (error + unit) \<times> machine" where
  "install_request rq selectedSkills selectedAgents m =
     (case install_skills rq selectedSkills selectedAgents (m, []) of
        (None, m', installedSkills) \<Rightarrow> (Inr (), m')
      | (Some err, m', installedSkills) \<Rightarrow> (Inl err, rollback installedSkills m'))"

section \<open>Notions for the statements and their proofs\<close>

text \<open>What no command changes about the machine: directories are only added, the clock only advances.\<close>

definition same_machine :: "world \<Rightarrow> world \<Rightarrow> bool" where
  "same_machine w w' =
     (homedir w' = homedir w \<and> process_pid w' = process_pid w \<and> win32 w' = win32 w
      \<and> running w' = running w \<and> dirs w \<subseteq> dirs w' \<and> now w \<le> now w')"

text \<open>What a pass of the retry loop of the lock may change: no file but the marker.\<close>

definition lock_frame :: "world \<Rightarrow> world \<Rightarrow> bool" where
  "lock_frame w w' =
     (same_machine w w' \<and> (\<forall>p. p \<noteq> getLockPath w \<longrightarrow> files w' p = files w p))"

text \<open>
  A directory is in the way of a save: at the path of the manifest, or at the path of
  its temporary file.
\<close>

definition blocked :: "world \<Rightarrow> bool" where
  "blocked w = (tempPath (getManifestPath w) \<in> dirs w \<or> getManifestPath w \<in> dirs w)"

text \<open>
  The manifest document that a file text holds, if it holds one: what the parse and the
  structure check of \<^verbatim>\<open>loadManifest\<close> let through.
\<close>

definition parse_manifest :: "content \<Rightarrow> Manifest option" where
  "parse_manifest c =
     (case JSON_parse c of
        None \<Rightarrow> None
      | Some parsed \<Rightarrow>
          if parsed \<noteq> JNull \<and> typeof_number (field parsed ''version'')
             \<and> isArray (field parsed ''skills'')
          then Some \<lparr>version = the_number (field parsed ''version''),
                     skills = the_array (field parsed ''skills'')\<rparr>
          else None)"

definition manifest_doc :: "world \<Rightarrow> Manifest option" where
  "manifest_doc w =
     (case files w (getManifestPath w) of None \<Rightarrow> None | Some c \<Rightarrow> parse_manifest c)"

text \<open>What \<^verbatim>\<open>loadManifest\<close> returns when the migrated manifest can be saved.\<close>

definition current_doc :: "world \<Rightarrow> Manifest" where
  "current_doc w =
     (case manifest_doc w of
        None \<Rightarrow> empty_manifest
      | Some m \<Rightarrow> if version m < MANIFEST_VERSION then migrateManifest m else m)"

text \<open>
  The body that \<^verbatim>\<open>addSkillRecord\<close> and \<^verbatim>\<open>removeSkillRecord\<close> run under the lock:
  load, change the list of skills with \<open>g\<close>, save.
\<close>

definition update_manifest ::
  "(json list \<Rightarrow> error + json list) \<Rightarrow> world \<Rightarrow> (error + unit) \<times> world" where
  "update_manifest g w =
     (case loadManifest w of
        (manifest, w1) \<Rightarrow>
          (case g (skills manifest) of
             Inl e \<Rightarrow> (Inl e, w1)
           | Inr xs \<Rightarrow> saveManifest (manifest\<lparr>skills := xs\<rparr>) w1))"

definition upsert_skills :: "InstalledSkillRecord \<Rightarrow> json list \<Rightarrow> error + json list" where
  "upsert_skills r xs =
     (case filter_skills
             (\<lambda>s. \<not> sameKey (name r) (agent r)
                        (case scope r of None \<Rightarrow> ''project'' | Some x \<Rightarrow> scope_str x) s) xs of
        Inl e \<Rightarrow> Inl e
      | Inr kept \<Rightarrow> Inr (kept @ [InstalledSkillRecord_json r]))"

definition remove_skills ::
  "string \<Rightarrow> string \<Rightarrow> InstallScope option \<Rightarrow> json list \<Rightarrow> error + json list" where
  "remove_skills n a scope_arg xs =
     filter_skills
       (\<lambda>s. \<not> sameKey n a (case scope_arg of None \<Rightarrow> ''project'' | Some x \<Rightarrow> scope_str x) s) xs"

text \<open>
  The document a command may find in the file after an earlier step: the same, or the
  same migrated to the current version.
\<close>

definition kept_doc :: "world \<Rightarrow> world \<Rightarrow> bool" where
  "kept_doc w w' =
     (manifest_doc w' = manifest_doc w
      \<or> (\<exists>m0. manifest_doc w = Some m0 \<and> version m0 < MANIFEST_VERSION
               \<and> manifest_doc w' = Some (migrateManifest m0)))"

text \<open>The manifest that \<^verbatim>\<open>loadManifest\<close> may return in a world.\<close>

definition loaded :: "world \<Rightarrow> Manifest \<Rightarrow> bool" where
  "loaded w m =
     (MANIFEST_VERSION \<le> version m
      \<and> (m = empty_manifest \<or> manifest_doc w = Some m
          \<or> (\<exists>m0. manifest_doc w = Some m0 \<and> version m0 < MANIFEST_VERSION
                   \<and> m = migrateManifest m0)))"

text \<open>The document in the file, if there is one, has at most one element for each key.\<close>

definition store_unique :: "world \<Rightarrow> bool" where
  "store_unique w = (case manifest_doc w of None \<Rightarrow> True | Some m \<Rightarrow> unique_keys (skills m))"

text \<open>The key that a command works on, and the elements that the next load finds under a key.\<close>

fun op_key :: "store_op \<Rightarrow> string \<times> string \<times> string" where
  "op_key (Upsert r) =
     (name r, agent r, case scope r of None \<Rightarrow> ''project'' | Some x \<Rightarrow> scope_str x)"
| "op_key (Remove n a sc) = (n, a, case sc of None \<Rightarrow> ''project'' | Some x \<Rightarrow> scope_str x)"

definition under_key :: "string \<times> string \<times> string \<Rightarrow> world \<Rightarrow> json list" where
  "under_key k w = (case k of (n, a, sc) \<Rightarrow> filter (sameKey n a sc) (skills (current_doc w)))"

section \<open>Sample worlds\<close>

text \<open>
  A machine on which the configuration directory exists and is empty; the running
  process has pid 4242. The closed examples below start from it.
\<close>

definition sample_world :: world where
  "sample_world =
     \<lparr>homedir = [''home'', ''user''],
      nodes = [[] \<mapsto> Dir, [''home''] \<mapsto> Dir, [''home'', ''user''] \<mapsto> Dir,
               [''home'', ''user'', ''.openskill''] \<mapsto> Dir],
      now = 1700000000000,
      process_pid = 4242,
      win32 = False,
      running = {4242}\<rparr>"

definition sample_lock :: path where
  "sample_lock = [''home'', ''user'', ''.openskill'', ''manifest.lock'']"

definition sample_manifest :: path where
  "sample_manifest = [''home'', ''user'', ''.openskill'', ''manifest.json'']"

text \<open>A record as the tests of the manifest use it: no \<^verbatim>\<open>repoPath\<close>, no \<^verbatim>\<open>scope\<close>.\<close>

definition sample_record :: InstalledSkillRecord where
  "sample_record =
     \<lparr>name = ''pdf'', agent = ''claude'', repoOwner = ''anthropics'', repoName = ''skills'',
      repoPath = None, commitHash = ''abc123'', installedAt = ''2024-01-01T00:00:00Z'',
      scope = None\<rparr>"

text \<open>
  The sample machine running Windows, with a marker written just now by process 999,
  which is no longer running.
\<close>

definition windows_world :: world where
  "windows_world =
     put_file sample_lock (Json (LockInfo_json \<lparr>pid = 999, timestamp = 1700000000000\<rparr>))
       (sample_world\<lparr>win32 := True\<rparr>)"

text \<open>The same marker on a machine that is not running Windows; and a marker of a live process, 77.\<close>

definition posix_world :: world where
  "posix_world =
     put_file sample_lock (Json (LockInfo_json \<lparr>pid = 999, timestamp = 1700000000000\<rparr>))
       sample_world"

definition busy_world :: world where
  "busy_world =
     put_file sample_lock (Json (LockInfo_json \<lparr>pid = 77, timestamp = 1700000000000\<rparr>))
       (sample_world\<lparr>running := {77, 4242}\<rparr>)"

text \<open>A manifest file that holds the sample record twice.\<close>

definition dup_world :: world where
  "dup_world =
     put_file sample_manifest
       (Json (Manifest_json \<lparr>version = 1,
          skills = [InstalledSkillRecord_json sample_record,
                    InstalledSkillRecord_json sample_record]\<rparr>))
       sample_world"

text \<open>
  A manifest file of an older schema version, as in the migration test of the
  repository: version 0, holding the sample record.
\<close>

definition old_world :: world where
  "old_world =
     put_file sample_manifest
       (Json (Manifest_json \<lparr>version = 0, skills = [InstalledSkillRecord_json sample_record]\<rparr>))
       sample_world"

text \<open>The same file, with a directory at the path of the temporary file of the manifest.\<close>

definition stuck_world :: world where
  "stuck_world =
     old_world\<lparr>nodes := (nodes old_world)
       ([''home'', ''user'', ''.openskill'', ''manifest.json.tmp''] \<mapsto> Dir)\<rparr>"

text \<open>A manifest file of the current version that holds the sample record.\<close>

definition current_world :: world where
  "current_world =
     put_file sample_manifest
       (Json (Manifest_json \<lparr>version = 1, skills = [InstalledSkillRecord_json sample_record]\<rparr>))
       sample_world"

text \<open>The sample machine with a cache file for the source \<^verbatim>\<open>anthropic-official\<close> that lists one skill.\<close>

definition cached_world :: world where
  "cached_world =
     put_file [''home'', ''user'', ''.openskill'', ''repos'', ''anthropic-official.json'']
       (Json (JObj [(''lastUpdated'', JStr ''2024-01-01T00:00:00Z''),
                    (''skills'', JArr [JObj [(''name'', JStr ''pdf'')]])]))
       (sample_world\<lparr>nodes := (nodes sample_world)
          ([''home'', ''user'', ''.openskill'', ''repos''] \<mapsto> Dir)\<rparr>)"

text \<open>
  The request of the rollback scenario: one skill, \<^verbatim>\<open>pdf\<close>, for the agents claude,
  cursor and codex in that order, where the copy into cursor's directory fails.
\<close>

definition sample_request :: request where
  "sample_request =
     \<lparr>owner = ''anthropics'', repo = ''skills'', commit = ''abc123'', skillPath = None,
      req_scope = Project, toISOString = (\<lambda>t. ''2024-01-01T00:00:00Z''),
      copy_fails = (\<lambda>ag n. ag = ''cursor'')\<rparr>"

definition pdf_skill :: ParsedSkill where
  "pdf_skill = \<lparr>frontmatter_name = ''pdf'', valid = True\<rparr>"

definition pdf_claude_record :: InstalledSkillRecord where
  "pdf_claude_record =
     \<lparr>name = ''pdf'', agent = ''claude'', repoOwner = ''anthropics'', repoName = ''skills'',
      repoPath = None, commitHash = ''abc123'', installedAt = ''2024-01-01T00:00:00Z'',
      scope = Some Project\<rparr>"

section \<open>Reading integers and lock markers\<close>

lemma digit_not_space: "is_digit c \<Longrightarrow> \<not> is_space c"
  by (auto simp add: is_digit_def is_space_def)

lemma dropWhile_hd: "xs \<noteq> [] \<Longrightarrow> \<not> P (hd xs) \<Longrightarrow> dropWhile P xs = xs"
  by (cases xs) simp_all

lemma trim_id:
  assumes "s \<noteq> []" "\<not> is_space (hd s)" "\<not> is_space (last s)"
  shows "trim s = s"
proof -
  have "dropWhile is_space s = s" using assms by (simp add: dropWhile_hd)
  moreover have "dropWhile is_space (rev s) = rev s"
    using assms by (simp add: dropWhile_hd hd_rev)
  ultimately show ?thesis by (simp add: trim_def)
qed

lemma int_literal_chars:
  assumes "int_literal s = Some n"
  shows "s \<noteq> [] \<and> \<not> is_space (hd s) \<and> \<not> is_space (last s)"
proof (cases s)
  case Nil
  with assms show ?thesis by (simp add: int_literal_def)
next
  case (Cons c r)
  show ?thesis
  proof (cases "c = CHR ''-''")
    case True
    with Cons assms have r: "r \<noteq> []" "list_all is_digit r"
      by (auto simp add: int_literal_def split: if_splits)
    then have "\<not> is_space (last r)" by (simp add: list_all_iff digit_not_space)
    moreover have "\<not> is_space CHR ''-''" by (simp add: is_space_def)
    ultimately show ?thesis using r Cons True by simp
  next
    case False
    with Cons assms have r: "list_all is_digit (c # r)"
      by (auto simp add: int_literal_def split: if_splits)
    then have "is_digit (last (c # r))" "is_digit c"
      unfolding list_all_iff using last_in_set [of "c # r"] by auto
    with Cons show ?thesis by (simp add: digit_not_space del: last.simps)
  qed
qed

lemma int_literal_not_word:
  assumes "int_literal s = Some n"
  shows "s \<noteq> ''null'' \<and> s \<noteq> ''true'' \<and> s \<noteq> ''false''"
  using assms by (auto simp add: int_literal_def is_digit_def)

lemma JSON_parse_int_literal:
  assumes "int_literal s = Some n"
  shows "JSON_parse (Raw s) = Some (JNum n)"
  using assms int_literal_chars [OF assms] int_literal_not_word [OF assms]
  by (simp add: JSON_parse_def parse_scalar_def trim_id)

lemma int_literal_1234: "int_literal ''1234'' = Some 1234"
  by (simp add: int_literal_def is_digit_def decimal_def digit_val_def)

text \<open>Text that is not JSON and starts with digits does reach the legacy format.\<close>

lemma legacy_format_of_other_text:
  "parseLockInfo (Raw ''1234x'') = Some \<lparr>pid = 1234, timestamp = 0\<rparr>"
  by (simp add: parseLockInfo_def JSON_parse_def parse_scalar_def trim_def is_space_def
      is_js_space_def int_literal_def parseInt_def is_digit_def decimal_def digit_val_def)

section \<open>The file system\<close>

lemma files_iff: "files w p = Some t \<longleftrightarrow> nodes w p = Some (File t)"
  by (simp add: files_def split: option.splits node.splits)

lemma files_None_iff: "files w p = None \<longleftrightarrow> nodes w p = None \<or> nodes w p = Some Dir"
  by (simp add: files_def split: option.splits node.splits)

lemma dirs_iff: "p \<in> dirs w \<longleftrightarrow> nodes w p = Some Dir"
  by (simp add: dirs_def)

lemma files_not_dir: "files w p = Some t \<Longrightarrow> p \<notin> dirs w"
  by (simp add: files_iff dirs_iff)

lemma put_file_fields [simp]:
  "homedir (put_file p t w) = homedir w" "now (put_file p t w) = now w"
  "process_pid (put_file p t w) = process_pid w" "win32 (put_file p t w) = win32 w"
  "running (put_file p t w) = running w" "nodes (put_file p t w) = (nodes w)(p \<mapsto> File t)"
  by (simp_all add: put_file_def)

lemma remove_node_fields [simp]:
  "homedir (remove_node p w) = homedir w" "now (remove_node p w) = now w"
  "process_pid (remove_node p w) = process_pid w" "win32 (remove_node p w) = win32 w"
  "running (remove_node p w) = running w" "nodes (remove_node p w) = (nodes w)(p := None)"
  by (simp_all add: remove_node_def)

lemma files_put_file [simp]: "files (put_file p t w) = (files w)(p \<mapsto> t)"
  by (rule ext) (simp add: files_def)

lemma files_remove_node [simp]: "files (remove_node p w) = (files w)(p := None)"
  by (rule ext) (simp add: files_def)

lemma dirs_put_file [simp]: "dirs (put_file p t w) = dirs w - {p}"
  by (auto simp add: dirs_def)

lemma dirs_remove_node [simp]: "dirs (remove_node p w) = dirs w - {p}"
  by (auto simp add: dirs_def)

lemma files_dirs_now [simp]:
  "files (w\<lparr>now := t\<rparr>) = files w" "dirs (w\<lparr>now := t\<rparr>) = dirs w"
  by (simp_all add: files_def dirs_def fun_eq_iff)

lemma put_file_twice [simp]: "put_file p t (put_file p t' w) = put_file p t w"
  by (simp add: put_file_def)

lemma put_file_remove [simp]: "put_file p t (remove_node p w) = put_file p t w"
  by (simp add: put_file_def remove_node_def)

lemma remove_put_file: "nodes w p = None \<Longrightarrow> remove_node p (put_file p t w) = w"
  by (simp add: put_file_def remove_node_def fun_upd_idem)

lemma wx_result:
  "writeFileSync_wx p t w = Inr w' \<Longrightarrow> w' = put_file p t w \<and> nodes w p = None \<and> butlast p \<in> dirs w"
  by (auto simp add: writeFileSync_wx_def parent_error_def dirs_iff
      split: if_splits option.splits node.splits)

lemma wx_exists: "nodes w p \<noteq> None \<Longrightarrow> writeFileSync_wx p t w = Inl EEXIST"
  by (simp add: writeFileSync_wx_def)

lemma wx_free:
  "nodes w p = None \<Longrightarrow> butlast p \<in> dirs w \<Longrightarrow> writeFileSync_wx p t w = Inr (put_file p t w)"
  by (simp add: writeFileSync_wx_def parent_error_def dirs_iff)

lemma read_file: "files w p = Some t \<Longrightarrow> readFileSync p w = Inr t"
  by (simp add: readFileSync_def files_iff)

lemma unlink_file: "files w p = Some t \<Longrightarrow> unlinkSync p w = Inr (remove_node p w)"
  by (simp add: unlinkSync_def files_iff)

lemma unlink_result:
  "unlinkSync p w = Inr w' \<Longrightarrow> w' = remove_node p w \<and> p \<notin> dirs w"
  by (auto simp add: unlinkSync_def dirs_iff split: option.splits node.splits)

lemma own_lock_simps [simp]:
  "own_lock (put_file p t w) = own_lock w" "own_lock (remove_node p w) = own_lock w"
  by (simp_all add: own_lock_def)

lemma sample_paths [simp]:
  "getLockPath (sample_world\<lparr>nodes := f\<rparr>) = sample_lock"
  "getManifestPath (sample_world\<lparr>nodes := f\<rparr>) = sample_manifest"
  "getConfigDir (sample_world\<lparr>nodes := f\<rparr>) = [''home'', ''user'', ''.openskill'']"
  "getLockPath sample_world = sample_lock"
  "getManifestPath sample_world = sample_manifest"
  "getConfigDir sample_world = [''home'', ''user'', ''.openskill'']"
  by (simp_all add: getLockPath_def getManifestPath_def getConfigDir_def sample_world_def
        sample_lock_def sample_manifest_def)

lemma sample_nodes:
  "nodes sample_world sample_lock = None" "nodes sample_world sample_manifest = None"
  "nodes sample_world [''home'', ''user'', ''.openskill''] = Some Dir"
  "now sample_world = 1700000000000" "process_pid sample_world = 4242"
  "\<not> win32 sample_world" "running sample_world = {4242}"
  by (simp_all add: sample_world_def sample_lock_def sample_manifest_def)

section \<open>The legacy format of the lock marker\<close>

text \<open>
  Claim C10 (the legacy marker). The claim reads a marker whose text is a bare positive
  decimal integer as a legacy lock with timestamp 0. The code does not: the text of an
  integer is JSON, so \<^verbatim>\<open>JSON.parse\<close> returns a number and does not throw, the
  \<^verbatim>\<open>catch\<close> block with the legacy format is never entered, and \<^verbatim>\<open>parseLockInfo\<close>
  returns \<^verbatim>\<open>null\<close>. A pass of \<^verbatim>\<open>acquireLock\<close> then removes the marker as invalid
  content, whatever pid it names, the caller's own included.
\<close>

theorem legacy_marker_parses_to_null:
  assumes "int_literal s = Some n"
    and "files w (getLockPath w) = Some (Raw s)"
  shows "parseLockInfo (Raw s) = None
         \<and> acquire_attempt w = Inr (spin (remove_node (getLockPath w) w))"
proof -
  have "parseLockInfo (Raw s) = None"
    using assms(1) by (simp add: parseLockInfo_def JSON_parse_int_literal)
  moreover have "nodes w (getLockPath w) \<noteq> None"
    using assms(2) by (simp add: files_iff)
  ultimately show ?thesis
    using assms(2)
    by (simp add: acquire_attempt_def wx_exists read_file unlink_file)
qed

theorem legacy_marker_parses_to_null_witness:
  "parseLockInfo (Raw ''1234'') = None
   \<and> acquire_attempt (put_file sample_lock (Raw ''1234'') sample_world)
       = Inr (sample_world\<lparr>now := 1700000000001\<rparr>)"
proof -
  let ?w = "put_file sample_lock (Raw ''1234'') sample_world"
  have "files ?w (getLockPath ?w) = Some (Raw ''1234'')"
    by simp
  from legacy_marker_parses_to_null [OF int_literal_1234 this]
  have "parseLockInfo (Raw ''1234'') = None \<and> acquire_attempt ?w = Inr (spin sample_world)"
    by (simp add: remove_put_file [OF sample_nodes(1)])
  moreover have "spin sample_world = sample_world\<lparr>now := 1700000000001\<rparr>"
    by (simp add: spin_def sample_nodes)
  ultimately show ?thesis by simp
qed

section \<open>The retry loop of the lock\<close>

declare acquire_loop.simps [simp del]

lemma acquire_loop_timeout:
  "\<not> now w - s < LOCK_TIMEOUT_MS \<Longrightarrow> acquire_loop s w = (Inr False, w)"
  by (simp add: acquire_loop.simps [of s w])

lemma acquire_loop_done:
  "now w - s < LOCK_TIMEOUT_MS \<Longrightarrow> acquire_attempt w = Inl r \<Longrightarrow> acquire_loop s w = r"
  by (simp add: acquire_loop.simps [of s w])

lemma acquire_loop_retry:
  "now w - s < LOCK_TIMEOUT_MS \<Longrightarrow> acquire_attempt w = Inr w' \<Longrightarrow>
   acquire_loop s w = acquire_loop s w'"
  by (simp add: acquire_loop.simps [of s w])

lemma same_machine_refl [simp]: "same_machine w w"
  by (simp add: same_machine_def)

lemma same_machine_trans: "same_machine w w' \<Longrightarrow> same_machine w' w'' \<Longrightarrow> same_machine w w''"
  by (auto simp add: same_machine_def)

lemma same_machine_paths:
  assumes "same_machine w w'"
  shows "getConfigDir w' = getConfigDir w" "getLockPath w' = getLockPath w"
    "getManifestPath w' = getManifestPath w"
  using assms by (simp_all add: same_machine_def getConfigDir_def getLockPath_def getManifestPath_def)

lemma ensureConfigDir_same: "same_machine w (snd (ensureConfigDir w))"
  using ensureConfigDir_dirs [of w] by (simp add: same_machine_def ensureConfigDir_fields)

lemma same_machine_put: "p \<notin> dirs w \<Longrightarrow> same_machine w (put_file p t w)"
  by (auto simp add: same_machine_def)

lemma same_machine_remove: "p \<notin> dirs w \<Longrightarrow> same_machine w (remove_node p w)"
  by (auto simp add: same_machine_def)

lemma same_machine_later: "same_machine w w' \<Longrightarrow> 0 \<le> d \<Longrightarrow> same_machine w (w'\<lparr>now := now w' + d\<rparr>)"
  by (auto simp add: same_machine_def)

lemma lock_frame_refl [simp]: "lock_frame w w"
  by (simp add: lock_frame_def)

lemma lock_frame_trans: "lock_frame w w' \<Longrightarrow> lock_frame w' w'' \<Longrightarrow> lock_frame w w''"
  unfolding lock_frame_def
  using same_machine_trans same_machine_paths(2) by metis

lemma lock_frame_put:
  "getLockPath w \<notin> dirs w \<Longrightarrow> lock_frame w (put_file (getLockPath w) t w)"
  by (simp add: lock_frame_def same_machine_put)

lemma lock_frame_remove:
  "getLockPath w \<notin> dirs w \<Longrightarrow> lock_frame w (remove_node (getLockPath w) w)"
  by (simp add: lock_frame_def same_machine_remove)

lemma lock_frame_later: "lock_frame w w' \<Longrightarrow> 0 \<le> d \<Longrightarrow> lock_frame w (w'\<lparr>now := now w' + d\<rparr>)"
  by (simp add: lock_frame_def same_machine_later)

lemma lock_frame_ensure: "lock_frame w (snd (ensureConfigDir w))"
  by (simp add: lock_frame_def ensureConfigDir_same)

lemma lock_frame_wx:
  assumes "writeFileSync_wx (getLockPath w) t w = Inr w'"
  shows "lock_frame w w'"
proof -
  from wx_result [OF assms] have "w' = put_file (getLockPath w) t w" "getLockPath w \<notin> dirs w"
    by (simp_all add: dirs_iff)
  then show ?thesis by (simp add: lock_frame_put)
qed

lemma lock_frame_unlink:
  assumes "unlinkSync (getLockPath w) w = Inr w'"
  shows "lock_frame w w'"
  using unlink_result [OF assms] by (simp add: lock_frame_remove)

lemma lock_frame_paths:
  assumes "lock_frame w w'"
  shows "getLockPath w' = getLockPath w"
  using assms by (simp add: lock_frame_def same_machine_paths)

lemma acquire_attempt_frame:
  assumes "acquire_attempt w = Inl (b, w') \<or> acquire_attempt w = Inr w'"
  shows "lock_frame w w'"
proof -
  have spin: "lock_frame w (spin v)" if "lock_frame w v" for v
    using lock_frame_later [OF that, of 1] by (simp add: spin_def)
  have sleep: "lock_frame w (sleepSync LOCK_RETRY_MS w)"
    using lock_frame_later [of w w LOCK_RETRY_MS] by (simp add: sleepSync_def LOCK_RETRY_MS_def)
  have two: "lock_frame w w2"
    if "unlinkSync (getLockPath w) w = Inr w1" "writeFileSync_wx (getLockPath w1) t w1 = Inr w2"
    for w1 w2 t
    using lock_frame_trans [OF lock_frame_unlink [OF that(1)] lock_frame_wx [OF that(2)]] .
  have ens: "lock_frame w w1" if "ensureConfigDir w = (r, w1)" for r w1
    using lock_frame_ensure [of w] that by simp
  show ?thesis
    using assms
    by (auto simp add: acquire_attempt_def
        split: sum.splits option.splits if_splits prod.splits
        intro: spin sleep two ens lock_frame_wx lock_frame_unlink)
qed

lemma acquire_loop_frame:
  "acquire_loop s w = (b, w') \<Longrightarrow> lock_frame w w'"
proof (induction s w arbitrary: b w' rule: acquire_loop.induct)
  case (1 s w)
  show ?case
  proof (cases "now w - s < LOCK_TIMEOUT_MS")
    case False
    with "1.prems" show ?thesis by (simp add: acquire_loop_timeout)
  next
    case True
    show ?thesis
    proof (cases "acquire_attempt w")
      case (Inl r)
      with True "1.prems" have "acquire_attempt w = Inl (b, w')"
        by (simp add: acquire_loop_done)
      then show ?thesis using acquire_attempt_frame by blast
    next
      case (Inr w1)
      with True "1.prems" have "acquire_loop s w1 = (b, w')"
        by (simp add: acquire_loop_retry)
      with "1.IH" [OF True Inr] have a: "lock_frame w1 w'" by auto
      from Inr acquire_attempt_frame [of w _ w1] have b: "lock_frame w w1" by auto
      from lock_frame_trans [OF b a] show ?thesis .
    qed
  qed
qed

lemma acquire_loop_false_late:
  "acquire_loop s w = (Inr False, w') \<Longrightarrow> LOCK_TIMEOUT_MS \<le> now w' - s"
proof (induction s w arbitrary: w' rule: acquire_loop.induct)
  case (1 s w)
  show ?case
  proof (cases "now w - s < LOCK_TIMEOUT_MS")
    case False
    with "1.prems" show ?thesis by (simp add: acquire_loop_timeout)
  next
    case True
    show ?thesis
    proof (cases "acquire_attempt w")
      case (Inl r)
      with True "1.prems" have "acquire_attempt w = Inl (Inr False, w')"
        by (simp add: acquire_loop_done)
      then show ?thesis
        by (auto simp add: acquire_attempt_def split: sum.splits option.splits if_splits prod.splits)
    next
      case (Inr w1)
      with True "1.prems" have "acquire_loop s w1 = (Inr False, w')"
        by (simp add: acquire_loop_retry)
      with "1.IH" [OF True Inr] show ?thesis by simp
    qed
  qed
qed

lemma isProcessRunning_same:
  "same_machine w w' \<Longrightarrow> isProcessRunning p w' = isProcessRunning p w"
  by (simp add: same_machine_def isProcessRunning_def)

lemma isProcessRunning_now [simp]:
  "isProcessRunning p (w\<lparr>now := t\<rparr>) = isProcessRunning p w"
  by (simp add: isProcessRunning_def)

text \<open>A marker of a live holder that stays fresh until the deadline: the loop sleeps until it gives up.\<close>

lemma acquire_loop_waits:
  assumes "files w (getLockPath w) = Some c" "parseLockInfo c = Some li"
    and "pid li \<noteq> process_pid w" "isProcessRunning (pid li) w"
    and "timestamp li \<noteq> 0" "s + LOCK_TIMEOUT_MS \<le> timestamp li + LOCK_STALE_MS"
  shows "\<exists>t. acquire_loop s w = (Inr False, w\<lparr>now := t\<rparr>) \<and> now w \<le> t"
  using assms
proof (induction s w rule: acquire_loop.induct)
  case (1 s w)
  show ?case
  proof (cases "now w - s < LOCK_TIMEOUT_MS")
    case False
    then have "acquire_loop s w = (Inr False, w\<lparr>now := now w\<rparr>)"
      by (simp add: acquire_loop_timeout)
    then show ?thesis by blast
  next
    case True
    with "1.prems" have fresh: "\<not> isLockStale li w"
      by (simp add: isLockStale_def)
    have "nodes w (getLockPath w) \<noteq> None"
      using "1.prems"(1) by (simp add: files_iff)
    with fresh "1.prems" have att: "acquire_attempt w = Inr (sleepSync LOCK_RETRY_MS w)"
      by (simp add: acquire_attempt_def wx_exists read_file)
    let ?w1 = "sleepSync LOCK_RETRY_MS w"
    have "\<exists>t. acquire_loop s ?w1 = (Inr False, ?w1\<lparr>now := t\<rparr>) \<and> now ?w1 \<le> t"
      using "1.prems" by (intro "1.IH" [OF True att])
        (simp_all add: sleepSync_def)
    then obtain t where t: "acquire_loop s ?w1 = (Inr False, ?w1\<lparr>now := t\<rparr>)" "now ?w1 \<le> t"
      by blast
    have "acquire_loop s w = (Inr False, w\<lparr>now := t\<rparr>)"
      using t(1) acquire_loop_retry [OF True att] by (simp add: sleepSync_def)
    moreover have "now w \<le> t" using t(2) by (simp add: sleepSync_def LOCK_RETRY_MS_def)
    ultimately show ?thesis by blast
  qed
qed

lemma acquire_stale:
  assumes "files w (getLockPath w) = Some c" "parseLockInfo c = Some li"
    and "pid li \<noteq> process_pid w" "getConfigDir w \<in> dirs w"
    and "\<not> isProcessRunning (pid li) w \<or> isLockStale li w"
  shows "acquireLock w = (Inr True, put_file (getLockPath w) (own_lock w) w)"
proof -
  let ?w1 = "remove_node (getLockPath w) w"
  have ex: "nodes w (getLockPath w) \<noteq> None"
    using assms(1) by (simp add: files_iff)
  have "getConfigDir w \<noteq> getLockPath w"
    by (simp add: getLockPath_def)
  then have "writeFileSync_wx (getLockPath ?w1) (own_lock ?w1) ?w1
      = Inr (put_file (getLockPath w) (own_lock w) w)"
    using assms(4) by (simp add: wx_free)
  then have "acquire_attempt w = Inl (Inr True, put_file (getLockPath w) (own_lock w) w)"
    using assms(1,2,3,5) ex
    by (auto simp add: acquire_attempt_def wx_exists read_file unlink_file)
  then show ?thesis
    by (simp add: acquireLock_def acquire_loop_done LOCK_TIMEOUT_MS_def)
qed

lemma manifest_path_not_lock [simp]:
  "getManifestPath w \<noteq> getLockPath w" "getLockPath w \<noteq> getManifestPath w"
  "tempPath (getManifestPath w) \<noteq> getLockPath w" "getLockPath w \<noteq> tempPath (getManifestPath w)"
  "tempPath (getManifestPath w) \<noteq> getManifestPath w" "getManifestPath w \<noteq> tempPath (getManifestPath w)"
  "butlast (tempPath (getManifestPath w)) = getConfigDir w"
  by (simp_all add: getManifestPath_def getLockPath_def tempPath_def butlast_append)

lemma parseLockInfo_json [simp]: "parseLockInfo (Json (LockInfo_json l)) = Some l"
  by (simp add: parseLockInfo_def JSON_parse_def LockInfo_json_def)

text \<open>
  Claim C4 (taking over a stale marker), as amended. A marker of another holder is removed
  and the lock acquired at once, without the holder's release, when the liveness check of
  the code fails for the recorded pid or the marker is stale. The liveness check is not
  whether the process runs: a pid that is not positive fails it; on Windows every pid
  from 1 to 4194303 passes it; elsewhere a pid passes it when signal 0 can be sent. The
  marker is stale when its timestamp is 0 or more than 30000 ms old. The marker's
  directory exists, as it must for the marker to be there.
\<close>

theorem stale_marker_is_taken_over:
  assumes "files w (getLockPath w) = Some c"
    and "parseLockInfo c = Some li"
    and "pid li \<noteq> process_pid w"
    and "getConfigDir w \<in> dirs w"
    and "pid li \<le> 0 \<or> (if win32 w then 4194304 \<le> pid li else pid li \<notin> running w)
         \<or> now w - timestamp li > LOCK_STALE_MS \<or> timestamp li = 0"
  shows "acquireLock w = (Inr True, put_file (getLockPath w) (own_lock w) w)"
proof -
  have "\<not> isProcessRunning (pid li) w \<or> isLockStale li w"
    using assms(5) by (auto simp add: isLockStale_def isProcessRunning_def split: if_splits)
  from acquire_stale [OF assms(1-4) this] show ?thesis .
qed

theorem stale_marker_is_taken_over_witness:
  "acquireLock posix_world =
     (Inr True,
      put_file sample_lock (Json (LockInfo_json \<lparr>pid = 4242, timestamp = 1700000000000\<rparr>))
        sample_world)"
proof -
  let ?li = "\<lparr>pid = 999, timestamp = 1700000000000\<rparr>"
  have l: "getLockPath posix_world = sample_lock"
    "getConfigDir posix_world = [''home'', ''user'', ''.openskill'']"
    by (simp_all add: posix_world_def)
  have f: "files posix_world (getLockPath posix_world) = Some (Json (LockInfo_json ?li))"
    by (simp add: l) (simp add: posix_world_def)
  have p: "pid ?li \<noteq> process_pid posix_world"
    by (simp add: posix_world_def sample_nodes)
  have d: "getConfigDir posix_world \<in> dirs posix_world"
    by (simp add: l) (simp add: posix_world_def dirs_iff sample_nodes sample_lock_def)
  have r: "pid ?li \<le> 0
      \<or> (if win32 posix_world then 4194304 \<le> pid ?li else pid ?li \<notin> running posix_world)
      \<or> now posix_world - timestamp ?li > LOCK_STALE_MS \<or> timestamp ?li = 0"
    by (simp add: posix_world_def sample_nodes)
  have "acquireLock posix_world =
      (Inr True, put_file (getLockPath posix_world) (own_lock posix_world) posix_world)"
    using stale_marker_is_taken_over [OF f parseLockInfo_json p d r] .
  moreover have "own_lock posix_world
      = Json (LockInfo_json \<lparr>pid = 4242, timestamp = 1700000000000\<rparr>)"
    by (simp add: posix_world_def own_lock_def JSON_stringify_def sample_nodes)
  ultimately show ?thesis
    by (simp add: l) (simp add: posix_world_def)
qed

text \<open>
  The claim as stated fails on Windows: process 999 is not running and its marker is
  fresh, yet the liveness check passes, the caller sleeps until its timeout, gets
  \<^verbatim>\<open>false\<close>, and the marker is still there.
\<close>

theorem dead_holder_on_windows_counterexample:
  "files windows_world sample_lock
     = Some (Json (LockInfo_json \<lparr>pid = 999, timestamp = 1700000000000\<rparr>))
   \<and> 999 \<noteq> process_pid windows_world
   \<and> 999 \<notin> running windows_world
   \<and> fst (acquireLock windows_world) = Inr False
   \<and> files (snd (acquireLock windows_world)) sample_lock = files windows_world sample_lock"
proof -
  let ?li = "\<lparr>pid = 999, timestamp = 1700000000000\<rparr>"
  have "\<exists>t. acquire_loop (now windows_world) windows_world = (Inr False, windows_world\<lparr>now := t\<rparr>)
        \<and> now windows_world \<le> t"
    by (rule acquire_loop_waits [of windows_world "Json (LockInfo_json ?li)" ?li])
      (simp_all add: windows_world_def isProcessRunning_def sample_world_def sample_lock_def
        getLockPath_def getConfigDir_def LOCK_TIMEOUT_MS_def LOCK_STALE_MS_def)
  then obtain t where "acquireLock windows_world = (Inr False, windows_world\<lparr>now := t\<rparr>)"
    by (auto simp add: acquireLock_def)
  then show ?thesis
    by (simp add: windows_world_def) (simp add: sample_world_def)
qed

text \<open>
  Claim C5 (no lock, no write). When \<^verbatim>\<open>acquireLock\<close> returns \<^verbatim>\<open>false\<close>, which it
  does only once 5000 ms have gone by, \<^verbatim>\<open>addSkillRecord\<close> and \<^verbatim>\<open>removeSkillRecord\<close>
  throw the lock error straight away: the world they leave is the one \<^verbatim>\<open>acquireLock\<close>
  left, in which the manifest file and its temporary file are what they were.
\<close>

theorem lock_timeout_aborts:
  assumes "fst (acquireLock w) = Inr False"
  shows "addSkillRecord r w = (Inl LockError, snd (acquireLock w))
         \<and> removeSkillRecord n a sc w = (Inl LockError, snd (acquireLock w))
         \<and> files (snd (acquireLock w)) (getManifestPath w) = files w (getManifestPath w)
         \<and> files (snd (acquireLock w)) (tempPath (getManifestPath w))
             = files w (tempPath (getManifestPath w))
         \<and> LOCK_TIMEOUT_MS \<le> now (snd (acquireLock w)) - now w"
proof -
  obtain w1 where w1: "acquireLock w = (Inr False, w1)"
    using assms by (cases "acquireLock w") auto
  then have loop: "acquire_loop (now w) w = (Inr False, w1)"
    by (simp add: acquireLock_def)
  have "addSkillRecord r w = (Inl LockError, w1)"
    using w1 by (simp add: addSkillRecord_def withLock_def)
  moreover have "removeSkillRecord n a sc w = (Inl LockError, w1)"
    using w1 by (simp add: removeSkillRecord_def withLock_def)
  moreover have "files w1 (getManifestPath w) = files w (getManifestPath w)"
    "files w1 (tempPath (getManifestPath w)) = files w (tempPath (getManifestPath w))"
    using acquire_loop_frame [OF loop] by (simp_all add: lock_frame_def)
  moreover have "LOCK_TIMEOUT_MS \<le> now w1 - now w"
    using acquire_loop_false_late [OF loop] .
  ultimately show ?thesis using w1 by simp
qed

lemma busy_world_waits: "fst (acquireLock busy_world) = Inr False"
proof -
  let ?li = "\<lparr>pid = 77, timestamp = 1700000000000\<rparr>"
  have "\<exists>t. acquire_loop (now busy_world) busy_world = (Inr False, busy_world\<lparr>now := t\<rparr>)
        \<and> now busy_world \<le> t"
    by (rule acquire_loop_waits [of busy_world "Json (LockInfo_json ?li)" ?li])
      (simp_all add: busy_world_def isProcessRunning_def sample_world_def sample_lock_def
        getLockPath_def getConfigDir_def LOCK_TIMEOUT_MS_def LOCK_STALE_MS_def)
  then show ?thesis by (auto simp add: acquireLock_def)
qed

theorem lock_timeout_aborts_witness:
  "fst (acquireLock busy_world) = Inr False
   \<and> fst (addSkillRecord sample_record busy_world) = Inl LockError
   \<and> fst (removeSkillRecord ''pdf'' ''claude'' None busy_world) = Inl LockError
   \<and> files (snd (addSkillRecord sample_record busy_world)) sample_manifest = None
   \<and> 5000 \<le> now (snd (acquireLock busy_world)) - now busy_world"
proof -
  have m: "getManifestPath busy_world = sample_manifest"
    by (simp add: busy_world_def getManifestPath_def getConfigDir_def sample_world_def
        sample_manifest_def)
  have f: "files busy_world sample_manifest = None"
    by (simp add: busy_world_def files_None_iff sample_world_def sample_manifest_def
        sample_lock_def)
  show ?thesis
    using lock_timeout_aborts [OF busy_world_waits, of sample_record "''pdf''" "''claude''" None]
      busy_world_waits
    by (simp add: m f LOCK_TIMEOUT_MS_def)
qed

section \<open>Loading and saving the manifest\<close>

lemma parse_manifest_json [simp]: "parse_manifest (Json (Manifest_json m)) = Some m"
  by (simp add: parse_manifest_def JSON_parse_def Manifest_json_def)

lemma loadManifest_alt:
  "loadManifest w =
     (case manifest_doc w of
        None \<Rightarrow> (empty_manifest, w)
      | Some m \<Rightarrow>
          if version m < MANIFEST_VERSION then
            (case saveManifest (migrateManifest m) w of
               (Inr u, w') \<Rightarrow> (migrateManifest m, w')
             | (Inl e, w') \<Rightarrow> (empty_manifest, w'))
          else (m, w))"
proof (cases "files w (getManifestPath w)")
  case None
  then have "nodes w (getManifestPath w) = None \<or> nodes w (getManifestPath w) = Some Dir"
    by (simp add: files_None_iff)
  then show ?thesis
    using None
    by (auto simp add: loadManifest_def manifest_doc_def existsSync_def readFileSync_def)
next
  case (Some c)
  then have "nodes w (getManifestPath w) = Some (File c)"
    by (simp add: files_iff)
  then show ?thesis
    using Some
    by (auto simp add: loadManifest_def manifest_doc_def parse_manifest_def existsSync_def
        readFileSync_def Let_def split: option.splits sum.splits)
qed

text \<open>Making the directories of the configuration.\<close>

lemma ancestors_snoc: "ancestors (p @ [x]) = p # ancestors p"
  by (simp add: ancestors_def)

lemma ancestors_shorter: "q \<in> set (ancestors p) \<Longrightarrow> length q < length p"
  by (auto simp add: ancestors_def)

lemma mkdirSync_child:
  assumes "nodes w p = Some Dir" "nodes w (p @ [x]) = None"
  shows "\<exists>w'. mkdirSync (p @ [x]) w = Inr w'"
  using assms by (simp add: mkdirSync_def ancestors_snoc)

lemma ensureDir_child:
  assumes "nodes w p = Some Dir"
  shows "\<exists>w'. ensureDir (p @ [x]) w = Inr w'"
  using mkdirSync_child [OF assms, of x] by (simp add: ensureDir_def existsSync_def)

lemma mkdirSync_other:
  assumes "mkdirSync p w = Inr w'" "length p \<le> length q" "q \<noteq> p"
  shows "nodes w' q = nodes w q"
proof -
  have "w' = make_dirs p w"
    using assms(1) by (auto simp add: mkdirSync_def split: if_splits list.splits)
  moreover have "q \<notin> set (ancestors p)"
    using ancestors_shorter [of q p] assms(2) by auto
  ultimately show ?thesis using assms(3) by (simp add: make_dirs_def)
qed

lemma ensureDir_other:
  assumes "ensureDir p w = Inr w'" "length p \<le> length q" "q \<noteq> p"
  shows "nodes w' q = nodes w q"
  using assms mkdirSync_other [of p w w' q] by (auto simp add: ensureDir_def split: if_splits)

lemma ensureDir_paths:
  assumes "ensureDir p w = Inr w'"
  shows "getConfigDir w' = getConfigDir w" "getSkillsCacheDir w' = getSkillsCacheDir w"
    "getReposCacheDir w' = getReposCacheDir w"
  using ensureDir_fields(1) [OF assms]
  by (simp_all add: getConfigDir_def getSkillsCacheDir_def getReposCacheDir_def)

lemma ensureConfigDir_other:
  assumes "length (getConfigDir w) < length q" "q \<noteq> getSkillsCacheDir w" "q \<noteq> getReposCacheDir w"
  shows "nodes (snd (ensureConfigDir w)) q = nodes w q"
proof -
  have c: "length (getSkillsCacheDir w) \<le> length q" "length (getReposCacheDir w) \<le> length q"
    "length (getConfigDir w) \<le> length q" "q \<noteq> getConfigDir w"
    using assms(1) by (auto simp add: getSkillsCacheDir_def getReposCacheDir_def)
  show ?thesis
  proof (cases "ensureDir (getConfigDir w) w")
    case Inl
    then show ?thesis by (simp add: ensureConfigDir_def)
  next
    case (Inr w1)
    note p1 = ensureDir_paths [OF Inr]
    have n1: "nodes w1 q = nodes w q"
      using ensureDir_other [OF Inr c(3,4)] .
    show ?thesis
    proof (cases "ensureDir (getSkillsCacheDir w) w1")
      case Inl
      with Inr n1 p1 show ?thesis by (simp add: ensureConfigDir_def)
    next
      case w2: (Inr w2)
      have n2: "nodes w2 q = nodes w q"
        using ensureDir_other [OF w2 c(1) assms(2)] n1 by simp
      have p2: "getReposCacheDir w2 = getReposCacheDir w"
        using ensureDir_paths(3) [OF w2] p1 by simp
      show ?thesis
      proof (cases "ensureDir (getReposCacheDir w) w2")
        case Inl
        with Inr w2 n2 p1 p2 show ?thesis by (simp add: ensureConfigDir_def)
      next
        case w3: (Inr w3)
        have "nodes w3 q = nodes w q"
          using ensureDir_other [OF w3 c(2) assms(3)] n2 by simp
        with Inr w2 w3 p1 p2 show ?thesis by (simp add: ensureConfigDir_def)
      qed
    qed
  qed
qed

lemma ensureConfigDir_ok:
  assumes "getConfigDir w \<in> dirs w"
  shows "fst (ensureConfigDir w) = Inr ()"
proof -
  have d: "nodes w (getConfigDir w) = Some Dir"
    using assms by (simp add: dirs_iff)
  then have e1: "ensureDir (getConfigDir w) w = Inr w"
    by (simp add: ensureDir_def existsSync_def)
  obtain w2 where e2: "ensureDir (getSkillsCacheDir w) w = Inr w2"
    using ensureDir_child [OF d, of "''skills''"] by (auto simp add: getSkillsCacheDir_def)
  have "nodes w2 (getConfigDir w) = Some Dir"
    using ensureDir_fields(6) [OF e2, of "getConfigDir w"] d by simp
  moreover have p2: "getConfigDir w2 = getConfigDir w" "getReposCacheDir w2 = getReposCacheDir w"
    using ensureDir_paths [OF e2] by simp_all
  ultimately obtain w3 where e3: "ensureDir (getReposCacheDir w2) w2 = Inr w3"
    using ensureDir_child [of w2 "getConfigDir w2" "''repos''"]
    by (auto simp add: getReposCacheDir_def)
  show ?thesis
    using e1 e2 e3 by (simp add: ensureConfigDir_def)
qed

lemma ensureConfigDir_dir:
  "getConfigDir w \<in> dirs w \<Longrightarrow> getConfigDir w \<in> dirs (snd (ensureConfigDir w))"
  using ensureConfigDir_dirs [of w] by auto

lemma config_paths_nodes [simp]:
  "nodes (snd (ensureConfigDir w)) (getLockPath w) = nodes w (getLockPath w)"
  "nodes (snd (ensureConfigDir w)) (getManifestPath w) = nodes w (getManifestPath w)"
  "nodes (snd (ensureConfigDir w)) (tempPath (getManifestPath w))
     = nodes w (tempPath (getManifestPath w))"
  by (rule ensureConfigDir_other;
      simp add: getLockPath_def getManifestPath_def tempPath_def getSkillsCacheDir_def
        getReposCacheDir_def butlast_append)+

text \<open>Writing and renaming a file.\<close>

lemma write_result:
  "writeFileSync p t w = Inr w' \<Longrightarrow> w' = put_file p t w \<and> p \<notin> dirs w \<and> butlast p \<in> dirs w"
  by (auto simp add: writeFileSync_def parent_error_def dirs_iff
      split: if_splits option.splits node.splits)

lemma write_ok:
  "p \<notin> dirs w \<Longrightarrow> butlast p \<in> dirs w \<Longrightarrow> writeFileSync p t w = Inr (put_file p t w)"
  by (simp add: writeFileSync_def parent_error_def dirs_iff)

lemma write_dir: "p \<in> dirs w \<Longrightarrow> writeFileSync p t w = Inl EISDIR"
  by (simp add: writeFileSync_def dirs_iff)

lemma rename_result:
  assumes "renameSync a b w = Inr w'" "files w a = Some t"
  shows "w' = put_file b t (remove_node a w) \<and> b \<notin> dirs w \<and> butlast b \<in> dirs w"
proof -
  have "nodes w a = Some (File t)" using assms(2) by (simp add: files_iff)
  then show ?thesis
    using assms(1)
    by (auto simp add: renameSync_def parent_error_def dirs_iff put_file_def remove_node_def
        split: if_splits option.splits node.splits)
qed

lemma rename_ok:
  assumes "files w a = Some t" "b \<notin> dirs w" "butlast b \<in> dirs w"
  shows "renameSync a b w = Inr (put_file b t (remove_node a w))"
proof -
  have "nodes w a = Some (File t)" using assms(1) by (simp add: files_iff)
  then show ?thesis
    using assms(2,3)
    by (simp add: renameSync_def parent_error_def dirs_iff put_file_def remove_node_def)
qed

lemma rename_dir:
  assumes "files w a = Some t" "b \<in> dirs w"
  shows "\<exists>e. renameSync a b w = Inl e"
proof -
  have "nodes w a = Some (File t)" using assms(1) by (simp add: files_iff)
  then show ?thesis
    using assms(2)
    by (simp add: renameSync_def parent_error_def dirs_iff split: option.splits node.splits)
qed

lemma remove_put_same [simp]: "remove_node p (put_file p t w) = remove_node p w"
  by (simp add: put_file_def remove_node_def)

text \<open>
  The world that a save leaves when it succeeds, and when it does: the configuration
  directory is there, and no directory is in the way.
\<close>

text \<open>\<^verbatim>\<open>saveManifest\<close>, step by step.\<close>

lemma saveManifest_alt:
  "saveManifest m w =
     (case fst (ensureConfigDir w) of
        Inl e \<Rightarrow> (Inl e, snd (ensureConfigDir w))
      | Inr u \<Rightarrow>
          (case writeFileSync (tempPath (getManifestPath w)) (Json (Manifest_json m))
                  (snd (ensureConfigDir w)) of
             Inl e \<Rightarrow> (Inl e, snd (ensureConfigDir w))
           | Inr w2 \<Rightarrow>
               (case renameSync (tempPath (getManifestPath w)) (getManifestPath w) w2 of
                  Inl e \<Rightarrow> (Inl e, w2)
                | Inr w3 \<Rightarrow> (Inr (), w3))))"
proof (cases "ensureConfigDir w")
  case (Pair r w1)
  then have "getManifestPath w1 = getManifestPath w"
    using ensureConfigDir_paths(3) [of w] by simp
  with Pair show ?thesis
    by (simp add: saveManifest_def Let_def JSON_stringify_def split: sum.splits)
qed

lemma saveManifest_ok:
  assumes "getConfigDir w \<in> dirs w" "\<not> blocked w"
  shows "saveManifest m w =
     (Inr (), put_file (getManifestPath w) (Json (Manifest_json m))
                (remove_node (tempPath (getManifestPath w)) (snd (ensureConfigDir w))))"
proof -
  let ?w1 = "snd (ensureConfigDir w)"
  let ?t = "Json (Manifest_json m)"
  have e: "fst (ensureConfigDir w) = Inr ()"
    using assms(1) by (rule ensureConfigDir_ok)
  have d1: "getConfigDir w \<in> dirs ?w1"
    using assms(1) by (rule ensureConfigDir_dir)
  have b1: "tempPath (getManifestPath w) \<notin> dirs ?w1" "getManifestPath w \<notin> dirs ?w1"
    using assms(2) by (simp_all add: blocked_def dirs_iff)
  let ?w2 = "put_file (tempPath (getManifestPath w)) ?t ?w1"
  have wr: "writeFileSync (tempPath (getManifestPath w)) ?t ?w1 = Inr ?w2"
    using b1(1) d1 by (simp add: write_ok)
  have "getManifestPath w \<notin> dirs ?w2" "butlast (getManifestPath w) \<in> dirs ?w2"
    using b1(2) d1 by (simp_all add: getManifestPath_def tempPath_def)
  then have "renameSync (tempPath (getManifestPath w)) (getManifestPath w) ?w2
      = Inr (put_file (getManifestPath w) ?t (remove_node (tempPath (getManifestPath w)) ?w2))"
    by (intro rename_ok) simp_all
  with wr show ?thesis
    by (simp add: saveManifest_alt e)
qed

text \<open>A directory in the way makes every save fail, and stays in the way.\<close>

lemma saveManifest_blocked:
  assumes "blocked w"
  shows "(\<exists>e. fst (saveManifest m w) = Inl e) \<and> blocked (snd (saveManifest m w))"
proof -
  let ?w1 = "snd (ensureConfigDir w)"
  let ?t = "Json (Manifest_json m)"
  have b1: "blocked ?w1"
    using assms by (simp add: blocked_def dirs_iff)
  show ?thesis
  proof (cases "fst (ensureConfigDir w)")
    case (Inl e)
    then have "saveManifest m w = (Inl e, ?w1)"
      by (simp add: saveManifest_alt)
    with b1 show ?thesis by simp
  next
    case (Inr u)
    note e = Inr
    show ?thesis
    proof (cases "writeFileSync (tempPath (getManifestPath w)) ?t ?w1")
      case (Inl e')
      with e have "saveManifest m w = (Inl e', ?w1)"
        by (simp add: saveManifest_alt)
      with b1 show ?thesis by simp
    next
      case w2: (Inr w2)
      from write_result [OF w2] have
        eq: "w2 = put_file (tempPath (getManifestPath w)) ?t ?w1"
        and nd: "tempPath (getManifestPath w) \<notin> dirs ?w1" by simp_all
      with b1 have md: "getManifestPath w \<in> dirs w2"
        by (simp add: blocked_def)
      have "files w2 (tempPath (getManifestPath w)) = Some ?t"
        by (simp add: eq)
      from rename_dir [OF this md] obtain e' where
        "renameSync (tempPath (getManifestPath w)) (getManifestPath w) w2 = Inl e'" ..
      with e w2 have "saveManifest m w = (Inl e', w2)"
        by (simp add: saveManifest_alt)
      moreover have "blocked w2"
        using md by (simp add: blocked_def eq)
      ultimately show ?thesis by simp
    qed
  qed
qed

lemma saveManifest_frame:
  assumes "saveManifest m w = (r, w')"
  shows "same_machine w w'
     \<and> (\<forall>p. p \<noteq> getManifestPath w \<and> p \<noteq> tempPath (getManifestPath w) \<longrightarrow> files w' p = files w p)
     \<and> (if r = Inr () then files w' (getManifestPath w) = Some (Json (Manifest_json m))
         else files w' (getManifestPath w) = files w (getManifestPath w))"
proof -
  let ?w1 = "snd (ensureConfigDir w)"
  let ?t = "Json (Manifest_json m)"
  have sm1: "same_machine w ?w1" by (rule ensureConfigDir_same)
  show ?thesis
  proof (cases "fst (ensureConfigDir w)")
    case (Inl e)
    then have "saveManifest m w = (Inl e, ?w1)"
      by (simp add: saveManifest_alt)
    with assms have "r = Inl e" "w' = ?w1" by simp_all
    then show ?thesis using sm1 by simp
  next
    case (Inr u)
    note e = Inr
    show ?thesis
    proof (cases "writeFileSync (tempPath (getManifestPath w)) ?t ?w1")
      case (Inl e')
      with e have "saveManifest m w = (Inl e', ?w1)"
        by (simp add: saveManifest_alt)
      with assms have "r = Inl e'" "w' = ?w1" by simp_all
      then show ?thesis using sm1 by simp
    next
      case w2: (Inr w2)
      from write_result [OF w2] have
        eq: "w2 = put_file (tempPath (getManifestPath w)) ?t ?w1"
        and nd: "tempPath (getManifestPath w) \<notin> dirs ?w1" by simp_all
      have sm2: "same_machine w w2"
        using same_machine_trans [OF sm1 same_machine_put [OF nd]] eq by simp
      have f2: "files w2 (tempPath (getManifestPath w)) = Some ?t"
        by (simp add: eq)
      show ?thesis
      proof (cases "renameSync (tempPath (getManifestPath w)) (getManifestPath w) w2")
        case (Inl e')
        with e w2 have "saveManifest m w = (Inl e', w2)"
          by (simp add: saveManifest_alt)
        with assms have "r = Inl e'" "w' = w2" by simp_all
        then show ?thesis using sm2 by (simp add: eq)
      next
        case w3: (Inr w3)
        from rename_result [OF w3 f2] have
          eq3: "w3 = put_file (getManifestPath w) ?t (remove_node (tempPath (getManifestPath w)) w2)"
          and nd3: "getManifestPath w \<notin> dirs w2" by simp_all
        from e w2 w3 have "saveManifest m w = (Inr (), w3)"
          by (simp add: saveManifest_alt)
        with assms have r: "r = Inr ()" "w' = w3" by simp_all
        have "same_machine w2 (remove_node (tempPath (getManifestPath w)) w2)"
          by (rule same_machine_remove) (simp add: eq)
        moreover have "same_machine (remove_node (tempPath (getManifestPath w)) w2) w3"
          unfolding eq3 using nd3 by (intro same_machine_put) simp
        ultimately have "same_machine w w3"
          using sm2 same_machine_trans by blast
        then show ?thesis using r by (simp add: eq3 eq)
      qed
    qed
  qed
qed

lemma manifest_doc_frame:
  assumes "same_machine w w'" "files w' (getManifestPath w) = files w (getManifestPath w)"
  shows "manifest_doc w' = manifest_doc w"
  using assms same_machine_paths(3) [OF assms(1)] by (simp add: manifest_doc_def)

lemma kept_doc_refl [simp]: "kept_doc w w"
  by (simp add: kept_doc_def)

lemma kept_doc_eq: "manifest_doc w' = manifest_doc w \<Longrightarrow> kept_doc w w'"
  by (simp add: kept_doc_def)

lemma loadManifest_frame:
  assumes "loadManifest w = (m, w')"
  shows "same_machine w w'
     \<and> (\<forall>p. p \<noteq> getManifestPath w \<and> p \<noteq> tempPath (getManifestPath w) \<longrightarrow> files w' p = files w p)
     \<and> MANIFEST_VERSION \<le> version m
     \<and> kept_doc w w'
     \<and> (m = empty_manifest \<or> manifest_doc w' = Some m)"
proof (cases "manifest_doc w")
  case None
  with assms have "m = empty_manifest" "w' = w" by (simp_all add: loadManifest_alt)
  then show ?thesis by (simp add: empty_manifest_def)
next
  case (Some m0)
  show ?thesis
  proof (cases "version m0 < MANIFEST_VERSION")
    case False
    with Some assms show ?thesis by (simp add: loadManifest_alt)
  next
    case True
    obtain r w1 where s: "saveManifest (migrateManifest m0) w = (r, w1)"
      by (cases "saveManifest (migrateManifest m0) w") auto
    note fr = saveManifest_frame [OF s]
    then have sm: "same_machine w w1" by simp
    show ?thesis
    proof (cases r)
      case (Inr u)
      with s Some True assms have eq: "m = migrateManifest m0" "w' = w1"
        by (simp_all add: loadManifest_alt)
      from Inr fr have "files w1 (getManifestPath w) = Some (Json (Manifest_json (migrateManifest m0)))"
        by simp
      then have "manifest_doc w1 = Some (migrateManifest m0)"
        using same_machine_paths(3) [OF sm] by (simp add: manifest_doc_def)
      with eq fr Some True show ?thesis
        by (simp add: kept_doc_def migrateManifest_def)
    next
      case (Inl e)
      with s Some True assms have eq: "m = empty_manifest" "w' = w1"
        by (simp_all add: loadManifest_alt)
      from Inl fr have "files w1 (getManifestPath w) = files w (getManifestPath w)" by simp
      then have "manifest_doc w1 = manifest_doc w" by (rule manifest_doc_frame [OF sm])
      with eq fr show ?thesis by (simp add: kept_doc_def empty_manifest_def)
    qed
  qed
qed

lemma loadManifest_blocked:
  assumes "blocked w"
  shows "blocked (snd (loadManifest w))"
proof (cases "manifest_doc w")
  case None
  with assms show ?thesis by (simp add: loadManifest_alt)
next
  case (Some m0)
  show ?thesis
    using assms Some saveManifest_blocked [OF assms, of "migrateManifest m0"]
    by (cases "saveManifest (migrateManifest m0) w")
      (auto simp add: loadManifest_alt split: sum.splits)
qed

lemma releaseLock_frame:
  "same_machine w (releaseLock w) \<and> now (releaseLock w) = now w \<and> dirs (releaseLock w) = dirs w
   \<and> (\<forall>p. p \<noteq> getLockPath w \<longrightarrow> files (releaseLock w) p = files w p)
   \<and> files (releaseLock w) (getLockPath w) = None"
proof (cases "unlinkSync (getLockPath w) w")
  case (Inl e)
  then have "releaseLock w = w" "files w (getLockPath w) = None"
    by (auto simp add: releaseLock_def unlinkSync_def files_None_iff
        split: option.splits node.splits)
  then show ?thesis by simp
next
  case (Inr w')
  with unlink_result [OF Inr] have "releaseLock w = remove_node (getLockPath w) w"
    "getLockPath w \<notin> dirs w"
    by (simp_all add: releaseLock_def)
  then show ?thesis by (simp add: same_machine_remove)
qed

lemma releaseLock_file:
  "files w (getLockPath w) = Some t \<Longrightarrow> releaseLock w = remove_node (getLockPath w) w"
  by (simp add: releaseLock_def unlink_file)

lemma releaseLock_doc [simp]: "manifest_doc (releaseLock w) = manifest_doc w"
  using releaseLock_frame [of w] by (intro manifest_doc_frame) simp_all

lemma acquireLock_doc:
  assumes "acquireLock w = (b, w1)"
  shows "manifest_doc w1 = manifest_doc w" "same_machine w w1"
proof -
  from assms have "acquire_loop (now w) w = (b, w1)" by (simp add: acquireLock_def)
  from acquire_loop_frame [OF this] show "manifest_doc w1 = manifest_doc w" "same_machine w w1"
    by (simp_all add: manifest_doc_frame lock_frame_def)
qed

lemma addSkillRecord_alt: "addSkillRecord r w = withLock (update_manifest (upsert_skills r)) w"
  unfolding addSkillRecord_def
  by (rule arg_cong [where f = "\<lambda>f. withLock f w"])
    (simp add: fun_eq_iff update_manifest_def upsert_skills_def Let_def
      split: prod.splits sum.splits)

lemma removeSkillRecord_alt:
  "removeSkillRecord n a sc w = withLock (update_manifest (remove_skills n a sc)) w"
  unfolding removeSkillRecord_def
  by (rule arg_cong [where f = "\<lambda>f. withLock f w"])
    (simp add: fun_eq_iff update_manifest_def remove_skills_def Let_def
      split: prod.splits sum.splits)

lemma update_manifest_outcome:
  assumes "update_manifest g w = (res, w')"
  shows "same_machine w w' \<and> files w' (getLockPath w) = files w (getLockPath w)
     \<and> (if res = Inr ()
         then \<exists>m xs. loaded w m \<and> g (skills m) = Inr xs \<and> manifest_doc w' = Some (m\<lparr>skills := xs\<rparr>)
         else kept_doc w w')"
proof -
  obtain m w1 where l: "loadManifest w = (m, w1)" by (cases "loadManifest w") auto
  note lf = loadManifest_frame [OF l]
  then have sm1: "same_machine w w1" by simp
  have lm: "loaded w m" using lf by (auto simp add: loaded_def kept_doc_def)
  show ?thesis
  proof (cases "g (skills m)")
    case (Inl e)
    with l assms have "res = Inl e" "w' = w1" by (simp_all add: update_manifest_def)
    with lf show ?thesis by simp
  next
    case (Inr xs)
    with l assms have s: "saveManifest (m\<lparr>skills := xs\<rparr>) w1 = (res, w')"
      by (simp add: update_manifest_def)
    note sf = saveManifest_frame [OF s]
    then have sm2: "same_machine w1 w'" by simp
    have p: "getManifestPath w1 = getManifestPath w" "getLockPath w1 = getLockPath w"
      using same_machine_paths [OF sm1] by simp_all
    have sm: "same_machine w w'" using sm1 sm2 by (rule same_machine_trans)
    have lk: "files w' (getLockPath w) = files w (getLockPath w)"
      using sf lf p by simp
    show ?thesis
    proof (cases "res = Inr ()")
      case True
      with sf p have "files w' (getManifestPath w) = Some (Json (Manifest_json (m\<lparr>skills := xs\<rparr>)))"
        by simp
      then have "manifest_doc w' = Some (m\<lparr>skills := xs\<rparr>)"
        using same_machine_paths(3) [OF sm] by (simp add: manifest_doc_def)
      with True lm Inr sm lk show ?thesis by auto
    next
      case False
      with sf p have "files w' (getManifestPath w1) = files w1 (getManifestPath w1)" by simp
      then have "manifest_doc w' = manifest_doc w1" by (rule manifest_doc_frame [OF sm2])
      with lf have "kept_doc w w'" by (simp add: kept_doc_def)
      with False sm lk show ?thesis by simp
    qed
  qed
qed

text \<open>What \<^verbatim>\<open>withLock\<close> does with each outcome of \<^verbatim>\<open>acquireLock\<close>.\<close>

lemma withLock_cases:
  assumes "withLock fn w = (res, w')"
  obtains (no_lock) e where "res = Inl e" "w' = snd (acquireLock w)"
      "fst (acquireLock w) \<noteq> Inr True"
    | (locked) w2 where "fst (acquireLock w) = Inr True"
      "fn (snd (acquireLock w)) = (res, w2)" "w' = releaseLock w2"
proof (cases "acquireLock w")
  case (Pair a w1)
  show ?thesis
  proof (cases a)
    case (Inl e)
    with Pair assms have "res = Inl e" "w' = snd (acquireLock w)"
      by (simp_all add: withLock_def)
    with Inl Pair show ?thesis by (intro no_lock [of e]) simp_all
  next
    case (Inr b)
    show ?thesis
    proof (cases b)
      case False
      with Inr Pair assms have "res = Inl LockError" "w' = snd (acquireLock w)"
        by (simp_all add: withLock_def)
      with False Inr Pair show ?thesis by (intro no_lock [of LockError]) simp_all
    next
      case True
      obtain r2 w2 where f: "fn w1 = (r2, w2)" by (cases "fn w1") auto
      with True Inr Pair assms have "res = r2" "w' = releaseLock w2"
        by (simp_all add: withLock_def)
      with True Inr Pair f show ?thesis by (intro locked [of w2]) simp_all
    qed
  qed
qed

lemma withLock_update_outcome:
  assumes "withLock (update_manifest g) w = (res, w')"
  shows "same_machine w w'
     \<and> (if res = Inr ()
         then \<exists>m xs. loaded w m \<and> g (skills m) = Inr xs \<and> manifest_doc w' = Some (m\<lparr>skills := xs\<rparr>)
         else kept_doc w w')"
proof -
  obtain b w1 where a: "acquireLock w = (b, w1)" by (cases "acquireLock w") auto
  note af = acquireLock_doc [OF a]
  from assms show ?thesis
  proof (cases rule: withLock_cases)
    case (no_lock e)
    with a af show ?thesis by (simp add: kept_doc_eq)
  next
    case (locked w2)
    with a have u: "update_manifest g w1 = (res, w2)" by simp
    note uf = update_manifest_outcome [OF u]
    have sm: "same_machine w w'"
      using af(2) uf releaseLock_frame [of w2] locked(3) same_machine_trans by blast
    have ld: "loaded w1 m \<Longrightarrow> loaded w m" for m using af(1) by (simp add: loaded_def)
    have kd: "kept_doc w1 w2 \<Longrightarrow> kept_doc w w'" using af(1) locked(3) by (simp add: kept_doc_def)
    show ?thesis
    proof (cases "res = Inr ()")
      case True
      with uf obtain m xs where "loaded w1 m" "g (skills m) = Inr xs"
        "manifest_doc w2 = Some (m\<lparr>skills := xs\<rparr>)" by auto
      with True sm ld locked(3) show ?thesis by auto
    next
      case False
      with uf kd sm show ?thesis by simp
    qed
  qed
qed

lemma acquire_free:
  assumes "nodes w (getLockPath w) = None" "getConfigDir w \<in> dirs w"
  shows "acquireLock w = (Inr True, put_file (getLockPath w) (own_lock w) w)"
proof -
  have "acquire_attempt w = Inl (Inr True, put_file (getLockPath w) (own_lock w) w)"
    using assms by (simp add: acquire_attempt_def wx_free)
  then show ?thesis
    by (simp add: acquireLock_def acquire_loop_done LOCK_TIMEOUT_MS_def)
qed

lemma manifest_doc_upd [simp]:
  "p \<noteq> getManifestPath w \<Longrightarrow> manifest_doc (put_file p t w) = manifest_doc w"
  "p \<noteq> getManifestPath w \<Longrightarrow> manifest_doc (remove_node p w) = manifest_doc w"
  "manifest_doc (put_file (getManifestPath w) (Json (Manifest_json m)) w) = Some m"
  "manifest_doc (snd (ensureConfigDir w)) = manifest_doc w"
  by (simp_all add: manifest_doc_def)

lemma blocked_upd [simp]:
  "p \<noteq> getManifestPath w \<Longrightarrow> p \<noteq> tempPath (getManifestPath w) \<Longrightarrow>
   blocked (put_file p t w) = blocked w"
  "p \<noteq> getManifestPath w \<Longrightarrow> p \<noteq> tempPath (getManifestPath w) \<Longrightarrow>
   blocked (remove_node p w) = blocked w"
  "blocked (snd (ensureConfigDir w)) = blocked w"
  by (auto simp add: blocked_def dirs_iff)

text \<open>Where nothing is in the way of a save, a load returns the document, migrated if need be.\<close>

lemma loadManifest_ok:
  assumes "getConfigDir w \<in> dirs w" "\<not> blocked w"
  shows "\<exists>w'. loadManifest w = (current_doc w, w') \<and> same_machine w w' \<and> now w' = now w
     \<and> nodes w' (getLockPath w) = nodes w (getLockPath w) \<and> getConfigDir w \<in> dirs w'
     \<and> \<not> blocked w'
     \<and> manifest_doc w' = (if manifest_doc w = None then None else Some (current_doc w))"
proof (cases "manifest_doc w")
  case None
  then show ?thesis using assms by (simp add: loadManifest_alt current_doc_def)
next
  case (Some m0)
  show ?thesis
  proof (cases "version m0 < MANIFEST_VERSION")
    case False
    with Some assms show ?thesis by (simp add: loadManifest_alt current_doc_def)
  next
    case True
    let ?w1 = "snd (ensureConfigDir w)"
    let ?w' = "put_file (getManifestPath w) (Json (Manifest_json (migrateManifest m0)))
                 (remove_node (tempPath (getManifestPath w)) ?w1)"
    have l: "loadManifest w = (migrateManifest m0, ?w')"
      using Some True by (simp add: loadManifest_alt saveManifest_ok [OF assms])
    have s: "saveManifest (migrateManifest m0) w = (Inr (), ?w')"
      by (rule saveManifest_ok [OF assms])
    have sm: "same_machine w ?w'" using saveManifest_frame [OF s] by simp
    have p: "getManifestPath ?w1 = getManifestPath w"
      by simp
    have d: "manifest_doc ?w' = Some (migrateManifest m0)"
      using manifest_doc_upd(3) [of "remove_node (tempPath (getManifestPath w)) ?w1" "migrateManifest m0"]
      by (simp add: p)
    have n: "now ?w' = now w" by (simp add: ensureConfigDir_fields)
    have k: "nodes ?w' (getLockPath w) = nodes w (getLockPath w)" by simp
    have c: "getConfigDir w \<in> dirs ?w'"
      using ensureConfigDir_dir [OF assms(1)]
      by (simp add: getManifestPath_def tempPath_def)
    have b: "\<not> blocked ?w'"
      by (simp add: blocked_def p)
    from l sm d n k c b Some True show ?thesis
      by (simp add: current_doc_def)
  qed
qed

lemma withLock_update_ok:
  assumes "nodes w (getLockPath w) = None" "getConfigDir w \<in> dirs w" "\<not> blocked w"
    and "g (skills (current_doc w)) = Inr xs"
  shows "\<exists>w'. withLock (update_manifest g) w = (Inr (), w')
     \<and> manifest_doc w' = Some ((current_doc w)\<lparr>skills := xs\<rparr>)
     \<and> nodes w' (getLockPath w') = None \<and> getConfigDir w' \<in> dirs w' \<and> \<not> blocked w'
     \<and> same_machine w w' \<and> now w' = now w"
proof -
  let ?w1 = "put_file (getLockPath w) (own_lock w) w"
  have a: "acquireLock w = (Inr True, ?w1)" by (rule acquire_free [OF assms(1,2)])
  have nd: "getLockPath w \<notin> dirs w" using assms(1) by (simp add: dirs_iff)
  have sm1: "same_machine w ?w1" using nd by (rule same_machine_put)
  have d1: "manifest_doc ?w1 = manifest_doc w" by simp
  then have c1: "current_doc ?w1 = current_doc w" by (simp add: current_doc_def)
  have cd1: "getConfigDir ?w1 \<in> dirs ?w1" using assms(2) by (simp add: getLockPath_def)
  have b1: "\<not> blocked ?w1" using assms(3) by simp
  from loadManifest_ok [OF cd1 b1] c1 obtain w2 where
    l: "loadManifest ?w1 = (current_doc w, w2)" and sm2: "same_machine ?w1 w2"
    and n2: "now w2 = now w" and d2: "getConfigDir w \<in> dirs w2" and b2: "\<not> blocked w2"
    and k2: "nodes w2 (getLockPath w) = Some (File (own_lock w))"
    by auto
  have p2: "getConfigDir w2 = getConfigDir w" "getLockPath w2 = getLockPath w"
    "getManifestPath w2 = getManifestPath w"
    using same_machine_paths [OF sm2] by simp_all
  let ?m = "(current_doc w)\<lparr>skills := xs\<rparr>"
  let ?w3 = "put_file (getManifestPath w2) (Json (Manifest_json ?m))
               (remove_node (tempPath (getManifestPath w2)) (snd (ensureConfigDir w2)))"
  have s: "saveManifest ?m w2 = (Inr (), ?w3)"
    using d2 p2 b2 by (intro saveManifest_ok) simp_all
  have u: "update_manifest g ?w1 = (Inr (), ?w3)"
    using l s assms(4) by (simp add: update_manifest_def)
  have r: "withLock (update_manifest g) w = (Inr (), releaseLock ?w3)"
    using a u by (simp add: withLock_def)
  have sm3: "same_machine w2 ?w3" using saveManifest_frame [OF s] by simp
  have sm: "same_machine w (releaseLock ?w3)"
    using sm1 sm2 sm3 releaseLock_frame [of ?w3] same_machine_trans by blast
  have p3: "getLockPath ?w3 = getLockPath w" "getManifestPath ?w3 = getManifestPath w"
    "getConfigDir ?w3 = getConfigDir w"
    using same_machine_paths [OF sm3] p2 by simp_all
  have "manifest_doc ?w3 = Some ?m"
    using manifest_doc_upd(3)
      [of "remove_node (tempPath (getManifestPath w2)) (snd (ensureConfigDir w2))" ?m]
    by simp
  then have doc: "manifest_doc (releaseLock ?w3) = Some ?m"
    by simp
  have k3: "nodes ?w3 (getLockPath w) = Some (File (own_lock w))"
    using k2 config_paths_nodes(1) [of w2] by (simp add: p2)
  then have "files ?w3 (getLockPath ?w3) = Some (own_lock w)"
    by (simp only: p3 files_iff)
  then have "releaseLock ?w3 = remove_node (getLockPath ?w3) ?w3"
    by (rule releaseLock_file)
  then have rel: "releaseLock ?w3 = remove_node (getLockPath w) ?w3"
    by (simp only: p3)
  have pr: "getLockPath (releaseLock ?w3) = getLockPath w"
    "getConfigDir (releaseLock ?w3) = getConfigDir w"
    using same_machine_paths [OF sm] by simp_all
  have lk: "nodes (releaseLock ?w3) (getLockPath (releaseLock ?w3)) = None"
    unfolding pr by (simp add: rel)
  have "getConfigDir w \<in> dirs ?w3"
    using ensureConfigDir_dir [of w2] d2 p2 by (simp add: getManifestPath_def tempPath_def)
  then have dr: "getConfigDir (releaseLock ?w3) \<in> dirs (releaseLock ?w3)"
    unfolding pr by (simp add: rel getLockPath_def)
  have "\<not> blocked ?w3"
    using b2 by (simp add: blocked_def p2)
  then have br: "\<not> blocked (releaseLock ?w3)"
    by (simp add: rel p3 [symmetric])
  have nw: "now (releaseLock ?w3) = now w"
    using releaseLock_frame [of ?w3] n2 by (simp add: ensureConfigDir_fields)
  from r sm doc lk dr br nw show ?thesis by blast
qed

lemma update_manifest_blocked:
  assumes "update_manifest g w = (res, w')" "blocked w"
  shows "res \<noteq> Inr ()"
proof -
  obtain m w1 where l: "loadManifest w = (m, w1)" by (cases "loadManifest w") auto
  have b1: "blocked w1" using loadManifest_blocked [OF assms(2)] l by simp
  show ?thesis
  proof (cases "g (skills m)")
    case (Inl e)
    with l assms(1) show ?thesis by (auto simp add: update_manifest_def)
  next
    case (Inr xs)
    with l assms(1) have "saveManifest (m\<lparr>skills := xs\<rparr>) w1 = (res, w')"
      by (simp add: update_manifest_def)
    with saveManifest_blocked [OF b1, of "m\<lparr>skills := xs\<rparr>"] show ?thesis by auto
  qed
qed

lemma update_manifest_dir:
  assumes "update_manifest g w = (res, w')" "getConfigDir w \<in> dirs w"
  shows "if res = Inr ()
         then \<exists>xs. g (skills (current_doc w)) = Inr xs
                \<and> manifest_doc w' = Some ((current_doc w)\<lparr>skills := xs\<rparr>)
         else kept_doc w w'"
proof (cases "blocked w")
  case True
  from update_manifest_blocked [OF assms(1) True] update_manifest_outcome [OF assms(1)]
  show ?thesis by simp
next
  case False
  from loadManifest_ok [OF assms(2) False] obtain w1 where
    l: "loadManifest w = (current_doc w, w1)" and sm1: "same_machine w w1"
    and d1: "getConfigDir w \<in> dirs w1" and b1: "\<not> blocked w1" by blast
  have k1: "kept_doc w w1" using loadManifest_frame [OF l] by simp
  have p1: "getConfigDir w1 = getConfigDir w" "getManifestPath w1 = getManifestPath w"
    using same_machine_paths [OF sm1] by simp_all
  show ?thesis
  proof (cases "g (skills (current_doc w))")
    case (Inl e)
    with l assms(1) have "res = Inl e" "w' = w1" by (simp_all add: update_manifest_def)
    with k1 show ?thesis by simp
  next
    case (Inr xs)
    let ?m = "(current_doc w)\<lparr>skills := xs\<rparr>"
    let ?w2 = "put_file (getManifestPath w1) (Json (Manifest_json ?m))
                 (remove_node (tempPath (getManifestPath w1)) (snd (ensureConfigDir w1)))"
    have "saveManifest ?m w1 = (Inr (), ?w2)" using d1 p1 b1 by (intro saveManifest_ok) simp_all
    with l Inr assms(1) have eq: "res = Inr ()" "w' = ?w2" by (simp_all add: update_manifest_def)
    have "manifest_doc ?w2 = Some ?m"
      using manifest_doc_upd(3)
        [of "remove_node (tempPath (getManifestPath w1)) (snd (ensureConfigDir w1))" ?m]
      by simp
    with eq Inr show ?thesis by simp
  qed
qed

lemma withLock_update_dir:
  assumes "withLock (update_manifest g) w = (res, w')" "getConfigDir w \<in> dirs w"
  shows "if res = Inr ()
         then \<exists>xs. g (skills (current_doc w)) = Inr xs
                \<and> manifest_doc w' = Some ((current_doc w)\<lparr>skills := xs\<rparr>)
         else kept_doc w w'"
proof -
  obtain b w1 where a: "acquireLock w = (b, w1)" by (cases "acquireLock w") auto
  note af = acquireLock_doc [OF a]
  from assms(1) show ?thesis
  proof (cases rule: withLock_cases)
    case (no_lock e)
    with a af show ?thesis by (simp add: kept_doc_eq)
  next
    case (locked w2)
    with a have u: "update_manifest g w1 = (res, w2)" by simp
    have "getConfigDir w1 \<in> dirs w1"
      using af(2) assms(2) same_machine_paths(1) [OF af(2)] by (auto simp add: same_machine_def)
    note uf = update_manifest_dir [OF u this]
    have c: "current_doc w1 = current_doc w" using af(1) by (simp add: current_doc_def)
    have kd: "kept_doc w1 w2 \<Longrightarrow> kept_doc w w'" using af(1) locked(3) by (simp add: kept_doc_def)
    show ?thesis using uf locked(3) c kd by (auto split: if_splits)
  qed
qed

section \<open>One record for each key\<close>

lemma record_fields [simp]:
  "field (InstalledSkillRecord_json r) ''name'' = Some (JStr (name r))"
  "field (InstalledSkillRecord_json r) ''agent'' = Some (JStr (agent r))"
  "field (InstalledSkillRecord_json r) ''scope'' = map_option (\<lambda>x. JStr (scope_str x)) (scope r)"
  "InstalledSkillRecord_json r \<noteq> JNull"
  by (cases "repoPath r"; cases "scope r"; simp add: InstalledSkillRecord_json_def)+

lemma sameKey_record:
  "sameKey n a sc (InstalledSkillRecord_json r) =
     (n = name r \<and> a = agent r
      \<and> sc = (case scope r of None \<Rightarrow> ''project'' | Some x \<Rightarrow> scope_str x))"
  by (cases "scope r") (auto simp add: sameKey_def scope_or_project_def)

lemma unique_keys_Nil [simp]: "unique_keys []"
  by (simp add: unique_keys_def)

lemma unique_keys_filter:
  assumes "unique_keys xs"
  shows "unique_keys (filter P xs)"
proof -
  have "length (filter Q (filter P xs)) \<le> length (filter Q xs)" for Q
  proof -
    have "filter Q (filter P xs) = filter P (filter Q xs)" by (auto intro: filter_cong)
    then have "length (filter Q (filter P xs)) = length (filter P (filter Q xs))" by (rule arg_cong)
    also have "\<dots> \<le> length (filter Q xs)" by (rule length_filter_le)
    finally show ?thesis .
  qed
  then show ?thesis using assms unfolding unique_keys_def by (meson order_trans)
qed

lemma unique_keys_upsert:
  assumes "unique_keys xs"
  shows "unique_keys (filter (\<lambda>s. \<not> sameKey (name r) (agent r)
            (case scope r of None \<Rightarrow> ''project'' | Some x \<Rightarrow> scope_str x) s) xs
          @ [InstalledSkillRecord_json r])"
  unfolding unique_keys_def
proof (intro allI)
  fix n a sc
  let ?k = "case scope r of None \<Rightarrow> ''project'' | Some x \<Rightarrow> scope_str x"
  let ?kept = "filter (\<lambda>s. \<not> sameKey (name r) (agent r) ?k s) xs"
  show "length (filter (sameKey n a sc) (?kept @ [InstalledSkillRecord_json r])) \<le> 1"
  proof (cases "sameKey n a sc (InstalledSkillRecord_json r)")
    case True
    then have "n = name r" "a = agent r" "sc = ?k" by (simp_all add: sameKey_record)
    then have "filter (sameKey n a sc) ?kept = []" by simp
    with True show ?thesis by simp
  next
    case False
    have "unique_keys ?kept" using assms by (rule unique_keys_filter)
    then have "length (filter (sameKey n a sc) ?kept) \<le> 1" by (simp add: unique_keys_def)
    with False show ?thesis by simp
  qed
qed

lemma loaded_unique:
  assumes "store_unique w" "loaded w m"
  shows "unique_keys (skills m)"
  using assms
  by (auto simp add: store_unique_def loaded_def empty_manifest_def migrateManifest_def)

lemma kept_doc_unique:
  assumes "store_unique w" "kept_doc w w'"
  shows "store_unique w'"
  using assms by (auto simp add: store_unique_def kept_doc_def migrateManifest_def)

lemma update_unique:
  assumes "store_unique w"
    and "\<And>xs ys. unique_keys xs \<Longrightarrow> g xs = Inr ys \<Longrightarrow> unique_keys ys"
  shows "store_unique (snd (withLock (update_manifest g) w))"
proof -
  obtain res w' where r: "withLock (update_manifest g) w = (res, w')"
    by (cases "withLock (update_manifest g) w") auto
  note o = withLock_update_outcome [OF r]
  show ?thesis
  proof (cases "res = Inr ()")
    case True
    with o obtain m xs where "loaded w m" "g (skills m) = Inr xs"
      "manifest_doc w' = Some (m\<lparr>skills := xs\<rparr>)" by auto
    moreover from this have "unique_keys xs"
      using assms(2) loaded_unique [OF assms(1)] by blast
    ultimately show ?thesis using r by (simp add: store_unique_def)
  next
    case False
    with o r kept_doc_unique [OF assms(1)] show ?thesis by simp
  qed
qed

lemma apply_op_unique:
  assumes "store_unique w"
  shows "store_unique (apply_op x w)"
proof (cases x)
  case (Upsert r)
  have "store_unique (snd (withLock (update_manifest (upsert_skills r)) w))"
    using assms
    by (rule update_unique)
      (auto simp add: upsert_skills_def filter_skills_def unique_keys_upsert split: if_splits)
  with Upsert show ?thesis by (simp add: addSkillRecord_alt)
next
  case (Remove n a sc)
  have "store_unique (snd (withLock (update_manifest (remove_skills n a sc)) w))"
    using assms
    by (rule update_unique)
      (auto simp add: remove_skills_def filter_skills_def unique_keys_filter split: if_splits)
  with Remove show ?thesis by (simp add: removeSkillRecord_alt)
qed

lemma run_ops_unique: "store_unique w \<Longrightarrow> store_unique (run_ops ops w)"
  unfolding run_ops_def
  by (induction ops arbitrary: w) (simp_all add: apply_op_unique)

lemma upsert_stores_record:
  assumes "addSkillRecord r w = (Inr (), w')"
  shows "\<exists>m. manifest_doc w' = Some m
           \<and> filter (sameKey (name r) (agent r)
                 (case scope r of None \<Rightarrow> ''project'' | Some x \<Rightarrow> scope_str x)) (skills m)
               = [InstalledSkillRecord_json r]"
proof -
  from assms have "withLock (update_manifest (upsert_skills r)) w = (Inr (), w')"
    by (simp add: addSkillRecord_alt)
  from withLock_update_outcome [OF this] obtain m xs where
    g: "upsert_skills r (skills m) = Inr xs" and d: "manifest_doc w' = Some (m\<lparr>skills := xs\<rparr>)"
    by auto
  let ?k = "case scope r of None \<Rightarrow> ''project'' | Some x \<Rightarrow> scope_str x"
  from g have "xs = filter (\<lambda>s. \<not> sameKey (name r) (agent r) ?k s) (skills m)
                 @ [InstalledSkillRecord_json r]"
    by (auto simp add: upsert_skills_def filter_skills_def split: if_splits)
  then have "filter (sameKey (name r) (agent r) ?k) xs = [InstalledSkillRecord_json r]"
    by (simp add: sameKey_record)
  with d show ?thesis by simp
qed

lemma tempPath_sample:
  "tempPath sample_manifest = [''home'', ''user'', ''.openskill'', ''manifest.json.tmp'']"
  by (simp add: tempPath_def sample_manifest_def)

lemma sample_world_doc [simp]:
  "manifest_doc sample_world = None" "current_doc sample_world = empty_manifest"
  "files sample_world sample_lock = None"
  "[''home'', ''user'', ''.openskill''] \<in> dirs sample_world"
  "\<not> blocked sample_world"
  by (simp_all add: manifest_doc_def current_doc_def sample_world_def files_def dirs_iff
      sample_manifest_def sample_lock_def blocked_def tempPath_def getManifestPath_def
      getConfigDir_def)

text \<open>The sample machine with a manifest file that holds a given document.\<close>

lemma manifest_world:
  fixes m :: Manifest
  defines "w \<equiv> put_file sample_manifest (Json (Manifest_json m)) sample_world"
  shows "getLockPath w = sample_lock" "getManifestPath w = sample_manifest"
    "getConfigDir w = [''home'', ''user'', ''.openskill'']"
    "nodes w (getLockPath w) = None" "getConfigDir w \<in> dirs w" "\<not> blocked w"
    "manifest_doc w = Some m" "files w sample_manifest = Some (Json (Manifest_json m))"
    "files w (tempPath sample_manifest) = None" "now w = 1700000000000"
proof -
  show p: "getLockPath w = sample_lock" "getManifestPath w = sample_manifest"
    "getConfigDir w = [''home'', ''user'', ''.openskill'']"
    by (simp_all add: w_def)
  show "nodes w (getLockPath w) = None"
    unfolding p by (simp add: w_def sample_world_def sample_lock_def sample_manifest_def)
  show "getConfigDir w \<in> dirs w"
    unfolding p by (simp add: w_def dirs_iff sample_nodes sample_manifest_def)
  show "\<not> blocked w"
    unfolding blocked_def p
    by (simp add: w_def dirs_iff tempPath_sample) (simp add: sample_world_def sample_manifest_def)
  show "manifest_doc w = Some m"
    unfolding manifest_doc_def p by (simp add: w_def)
  show "files w sample_manifest = Some (Json (Manifest_json m))"
    by (simp add: w_def)
  show "files w (tempPath sample_manifest) = None"
    by (simp add: w_def tempPath_sample files_None_iff)
      (simp add: sample_world_def sample_manifest_def)
  show "now w = 1700000000000"
    by (simp add: w_def sample_nodes)
qed

lemma record_not_null [simp]: "JNull \<noteq> InstalledSkillRecord_json r"
  by (metis record_fields(4))

lemma sample_record_fields [simp]:
  "name sample_record = ''pdf''" "agent sample_record = ''claude''" "scope sample_record = None"
  by (simp_all add: sample_record_def)

lemma sample_add_ok:
  "\<exists>w'. addSkillRecord sample_record sample_world = (Inr (), w')"
proof -
  have "upsert_skills sample_record (skills (current_doc sample_world))
          = Inr [InstalledSkillRecord_json sample_record]"
    by (simp add: upsert_skills_def filter_skills_def empty_manifest_def)
  moreover have "nodes sample_world (getLockPath sample_world) = None"
    "getConfigDir sample_world \<in> dirs sample_world" "\<not> blocked sample_world"
    by (simp_all add: sample_nodes)
  ultimately show ?thesis
    using withLock_update_ok [of sample_world "upsert_skills sample_record"]
    by (auto simp add: addSkillRecord_alt)
qed

lemma sameKey_unique:
  "sameKey n a sc s \<Longrightarrow> sameKey n' a' sc' s \<Longrightarrow> n = n' \<and> a = a' \<and> sc = sc'"
  by (simp add: sameKey_def)

lemma current_doc_version: "MANIFEST_VERSION \<le> version (current_doc w)"
  by (auto simp add: current_doc_def empty_manifest_def migrateManifest_def split: option.splits)

lemma current_doc_of_doc:
  "manifest_doc w = Some m \<Longrightarrow> MANIFEST_VERSION \<le> version m \<Longrightarrow> current_doc w = m"
  by (simp add: current_doc_def)

lemma kept_doc_current: "kept_doc w w' \<Longrightarrow> current_doc w' = current_doc w"
  by (auto simp add: kept_doc_def current_doc_def migrateManifest_def)

lemma filter_other_key:
  assumes "(n, a, sc) \<noteq> (n', a', sc')"
  shows "filter (sameKey n a sc) (filter (\<lambda>s. \<not> sameKey n' a' sc' s) xs) = filter (sameKey n a sc) xs"
proof -
  have "sameKey n a sc s \<Longrightarrow> \<not> sameKey n' a' sc' s" for s
    using assms sameKey_unique by blast
  then show ?thesis by (induction xs) auto
qed

lemma update_other_key:
  assumes "getConfigDir w \<in> dirs w"
    and "\<And>xs ys. g xs = Inr ys \<Longrightarrow> filter (sameKey n a sc) ys = filter (sameKey n a sc) xs"
  shows "under_key (n, a, sc) (snd (withLock (update_manifest g) w)) = under_key (n, a, sc) w"
proof -
  obtain res w' where r: "withLock (update_manifest g) w = (res, w')"
    by (cases "withLock (update_manifest g) w") auto
  note o = withLock_update_dir [OF r assms(1)]
  show ?thesis
  proof (cases "res = Inr ()")
    case True
    with o obtain xs where xs: "g (skills (current_doc w)) = Inr xs"
      "manifest_doc w' = Some ((current_doc w)\<lparr>skills := xs\<rparr>)" by auto
    have "current_doc w' = (current_doc w)\<lparr>skills := xs\<rparr>"
      using xs(2) current_doc_version [of w] by (intro current_doc_of_doc) simp_all
    with assms(2) [OF xs(1)] r show ?thesis by (simp add: under_key_def)
  next
    case False
    with o have "current_doc w' = current_doc w" by (simp add: kept_doc_current)
    with r show ?thesis by (simp add: under_key_def)
  qed
qed

lemma apply_op_other_key:
  assumes "getConfigDir w \<in> dirs w" "op_key x \<noteq> k"
  shows "under_key k (apply_op x w) = under_key k w"
proof -
  obtain n a sc where k: "k = (n, a, sc)" by (cases k) auto
  show ?thesis
  proof (cases x)
    case (Upsert r)
    let ?k' = "case scope r of None \<Rightarrow> ''project'' | Some x \<Rightarrow> scope_str x"
    have ne: "(n, a, sc) \<noteq> (name r, agent r, ?k')" using assms(2) Upsert k by auto
    have "under_key (n, a, sc) (snd (withLock (update_manifest (upsert_skills r)) w))
            = under_key (n, a, sc) w"
    proof (rule update_other_key [OF assms(1)])
      fix xs ys assume "upsert_skills r xs = Inr ys"
      then have "ys = filter (\<lambda>s. \<not> sameKey (name r) (agent r) ?k' s) xs @ [InstalledSkillRecord_json r]"
        by (auto simp add: upsert_skills_def filter_skills_def split: if_splits)
      moreover have "\<not> sameKey n a sc (InstalledSkillRecord_json r)"
        using ne by (auto simp add: sameKey_record)
      ultimately show "filter (sameKey n a sc) ys = filter (sameKey n a sc) xs"
        using filter_other_key [OF ne] by simp
    qed
    with Upsert k show ?thesis by (simp add: addSkillRecord_alt)
  next
    case (Remove n' a' sc')
    let ?k' = "case sc' of None \<Rightarrow> ''project'' | Some x \<Rightarrow> scope_str x"
    have ne: "(n, a, sc) \<noteq> (n', a', ?k')" using assms(2) Remove k by auto
    have "under_key (n, a, sc) (snd (withLock (update_manifest (remove_skills n' a' sc')) w))
            = under_key (n, a, sc) w"
    proof (rule update_other_key [OF assms(1)])
      fix xs ys assume "remove_skills n' a' sc' xs = Inr ys"
      then have "ys = filter (\<lambda>s. \<not> sameKey n' a' ?k' s) xs"
        by (auto simp add: remove_skills_def filter_skills_def split: if_splits)
      then show "filter (sameKey n a sc) ys = filter (sameKey n a sc) xs"
        using filter_other_key [OF ne] by simp
    qed
    with Remove k show ?thesis by (simp add: removeSkillRecord_alt)
  qed
qed

lemma apply_op_dir:
  assumes "getConfigDir w \<in> dirs w"
  shows "getConfigDir (apply_op x w) \<in> dirs (apply_op x w)"
proof -
  have "same_machine w (apply_op x w)"
  proof (cases x)
    case (Upsert r)
    obtain res w' where "withLock (update_manifest (upsert_skills r)) w = (res, w')"
      by (cases "withLock (update_manifest (upsert_skills r)) w") auto
    from withLock_update_outcome [OF this] this Upsert show ?thesis
      by (simp add: addSkillRecord_alt)
  next
    case (Remove n a sc)
    obtain res w' where "withLock (update_manifest (remove_skills n a sc)) w = (res, w')"
      by (cases "withLock (update_manifest (remove_skills n a sc)) w") auto
    from withLock_update_outcome [OF this] this Remove show ?thesis
      by (simp add: removeSkillRecord_alt)
  qed
  then show ?thesis
    using assms same_machine_paths(1) [of w "apply_op x w"] by (auto simp add: same_machine_def)
qed

lemma run_ops_other_keys:
  assumes "getConfigDir w \<in> dirs w" "\<forall>x\<in>set ops. op_key x \<noteq> k"
  shows "under_key k (run_ops ops w) = under_key k w"
  using assms unfolding run_ops_def
proof (induction ops arbitrary: w)
  case Nil
  then show ?case by simp
next
  case (Cons x ops)
  have "under_key k (fold apply_op ops (apply_op x w)) = under_key k (apply_op x w)"
    using Cons.prems by (intro Cons.IH apply_op_dir) simp_all
  also have "\<dots> = under_key k w" using Cons.prems by (intro apply_op_other_key) simp_all
  finally show ?case by simp
qed

lemma upsert_under_key:
  assumes "addSkillRecord r u = (Inr (), u')"
  shows "under_key (op_key (Upsert r)) u' = [InstalledSkillRecord_json r]"
    "same_machine u u'"
proof -
  from assms have w: "withLock (update_manifest (upsert_skills r)) u = (Inr (), u')"
    by (simp add: addSkillRecord_alt)
  from withLock_update_outcome [OF w] obtain m xs where
    l: "loaded u m" and g: "upsert_skills r (skills m) = Inr xs"
    and d: "manifest_doc u' = Some (m\<lparr>skills := xs\<rparr>)" and sm: "same_machine u u'"
    by auto
  show "same_machine u u'" by (rule sm)
  let ?k = "case scope r of None \<Rightarrow> ''project'' | Some x \<Rightarrow> scope_str x"
  from g have "xs = filter (\<lambda>s. \<not> sameKey (name r) (agent r) ?k s) (skills m)
                 @ [InstalledSkillRecord_json r]"
    by (auto simp add: upsert_skills_def filter_skills_def split: if_splits)
  then have f: "filter (sameKey (name r) (agent r) ?k) xs = [InstalledSkillRecord_json r]"
    by (simp add: sameKey_record)
  have "current_doc u' = m\<lparr>skills := xs\<rparr>"
    using d l by (intro current_doc_of_doc) (simp_all add: loaded_def)
  with f show "under_key (op_key (Upsert r)) u' = [InstalledSkillRecord_json r]"
    by (simp add: under_key_def)
qed

text \<open>
  Claim C2 (one record for each key), as amended. When the document in the manifest file
  has at most one element for each key of name, agent and scope (in particular when
  there is no file yet), it still has after any run of \<^verbatim>\<open>addSkillRecord\<close> and
  \<^verbatim>\<open>removeSkillRecord\<close> calls, whether they succeed or throw. After an
  \<^verbatim>\<open>addSkillRecord\<close> that returns, in any world, the elements of the stored document
  under the record's key are that record alone; and they still are after any run of
  later commands on other keys (in an existing configuration directory): the last
  record written under a key is the one that is found there.
\<close>

theorem upsert_remove_keep_one_record_per_key:
  "(store_unique w \<longrightarrow> store_unique (run_ops ops w))
   \<and> (addSkillRecord r u = (Inr (), u') \<longrightarrow>
        (\<exists>m. manifest_doc u' = Some m
           \<and> filter (sameKey (name r) (agent r)
                 (case scope r of None \<Rightarrow> ''project'' | Some x \<Rightarrow> scope_str x)) (skills m)
               = [InstalledSkillRecord_json r])
        \<and> (getConfigDir u \<in> dirs u \<and> (\<forall>x\<in>set later. op_key x \<noteq> op_key (Upsert r)) \<longrightarrow>
             under_key (op_key (Upsert r)) (run_ops later u') = [InstalledSkillRecord_json r]))"
proof (intro conjI impI)
  assume "store_unique w"
  then show "store_unique (run_ops ops w)" by (rule run_ops_unique)
next
  assume "addSkillRecord r u = (Inr (), u')"
  then show "\<exists>m. manifest_doc u' = Some m
           \<and> filter (sameKey (name r) (agent r)
                 (case scope r of None \<Rightarrow> ''project'' | Some x \<Rightarrow> scope_str x)) (skills m)
               = [InstalledSkillRecord_json r]"
    by (rule upsert_stores_record)
next
  assume a: "addSkillRecord r u = (Inr (), u')"
    and b: "getConfigDir u \<in> dirs u \<and> (\<forall>x\<in>set later. op_key x \<noteq> op_key (Upsert r))"
  have "getConfigDir u' \<in> dirs u'"
    using b upsert_under_key(2) [OF a] same_machine_paths(1) [of u u']
    by (auto simp add: same_machine_def)
  with b have "under_key (op_key (Upsert r)) (run_ops later u') = under_key (op_key (Upsert r)) u'"
    by (intro run_ops_other_keys) simp_all
  with upsert_under_key(1) [OF a]
  show "under_key (op_key (Upsert r)) (run_ops later u') = [InstalledSkillRecord_json r]"
    by simp
qed

theorem upsert_remove_keep_one_record_per_key_witness:
  "store_unique sample_world
   \<and> fst (addSkillRecord sample_record sample_world) = Inr ()
   \<and> store_unique (run_ops [Upsert sample_record, Upsert (sample_record\<lparr>commitHash := ''def456''\<rparr>),
                              Remove ''xlsx'' ''claude'' None] sample_world)
   \<and> (\<exists>m. manifest_doc (snd (addSkillRecord sample_record sample_world)) = Some m
         \<and> filter (sameKey ''pdf'' ''claude'' ''project'') (skills m)
             = [InstalledSkillRecord_json sample_record])
   \<and> under_key (''pdf'', ''claude'', ''project'')
        (run_ops [Upsert (sample_record\<lparr>name := ''xlsx''\<rparr>), Remove ''pdf'' ''cursor'' None,
                  Remove ''pdf'' ''claude'' (Some Global)]
           (snd (addSkillRecord sample_record sample_world)))
       = [InstalledSkillRecord_json sample_record]"
proof -
  obtain w' where a: "addSkillRecord sample_record sample_world = (Inr (), w')"
    using sample_add_ok by blast
  have u: "store_unique sample_world" by (simp add: store_unique_def)
  have d: "getConfigDir sample_world \<in> dirs sample_world" by simp
  have o: "\<forall>x\<in>set [Upsert (sample_record\<lparr>name := ''xlsx''\<rparr>), Remove ''pdf'' ''cursor'' None,
                     Remove ''pdf'' ''claude'' (Some Global)]. op_key x \<noteq> op_key (Upsert sample_record)"
    by simp
  show ?thesis
    using upsert_remove_keep_one_record_per_key
      [of sample_world "[Upsert sample_record, Upsert (sample_record\<lparr>commitHash := ''def456''\<rparr>),
                              Remove ''xlsx'' ''claude'' None]" sample_record sample_world w'
          "[Upsert (sample_record\<lparr>name := ''xlsx''\<rparr>), Remove ''pdf'' ''cursor'' None,
                  Remove ''pdf'' ''claude'' (Some Global)]"] a u d o
    by simp
qed

text \<open>
  The claim as stated, for a run that starts from any manifest, fails: a file that
  holds a record twice still holds it twice after a record with another key is added.
\<close>

theorem duplicate_rows_survive_counterexample:
  "manifest_doc dup_world
     = Some \<lparr>version = 1, skills = [InstalledSkillRecord_json sample_record,
                                     InstalledSkillRecord_json sample_record]\<rparr>
   \<and> manifest_doc (run_ops [Upsert (sample_record\<lparr>name := ''xlsx''\<rparr>)] dup_world)
     = Some \<lparr>version = 1, skills = [InstalledSkillRecord_json sample_record,
                                     InstalledSkillRecord_json sample_record,
                                     InstalledSkillRecord_json (sample_record\<lparr>name := ''xlsx''\<rparr>)]\<rparr>
   \<and> \<not> store_unique (run_ops [Upsert (sample_record\<lparr>name := ''xlsx''\<rparr>)] dup_world)"
proof -
  let ?J = "InstalledSkillRecord_json sample_record"
  let ?r = "sample_record\<lparr>name := ''xlsx''\<rparr>"
  let ?m = "\<lparr>version = 1, skills = [?J, ?J]\<rparr>"
  note mw = manifest_world [of ?m, folded dup_world_def]
  have d: "manifest_doc dup_world = Some ?m"
    by (rule mw)
  then have c: "current_doc dup_world = ?m"
    by (simp add: current_doc_def MANIFEST_VERSION_def)
  have g: "upsert_skills ?r (skills (current_doc dup_world)) = Inr [?J, ?J, InstalledSkillRecord_json ?r]"
    by (simp add: c upsert_skills_def filter_skills_def sameKey_record)
  from withLock_update_ok [where g = "upsert_skills ?r", OF mw(4,5,6) g] obtain w' where
    w': "addSkillRecord ?r dup_world = (Inr (), w')"
      "manifest_doc w' = Some (?m\<lparr>skills := [?J, ?J, InstalledSkillRecord_json ?r]\<rparr>)"
    by (auto simp add: addSkillRecord_alt c)
  have "\<not> unique_keys [?J, ?J, InstalledSkillRecord_json ?r]"
  proof
    assume "unique_keys [?J, ?J, InstalledSkillRecord_json ?r]"
    then have "length (filter (sameKey ''pdf'' ''claude'' ''project'')
                 [?J, ?J, InstalledSkillRecord_json ?r]) \<le> 1"
      unfolding unique_keys_def by blast
    then show False by (simp add: sameKey_record)
  qed
  with w' d show ?thesis by (simp add: run_ops_def store_unique_def)
qed

section \<open>Claims about the manifest\<close>

lemma old_world_facts:
  "getLockPath old_world = sample_lock" "getManifestPath old_world = sample_manifest"
  "getConfigDir old_world = [''home'', ''user'', ''.openskill'']"
  "nodes old_world (getLockPath old_world) = None"
  "getConfigDir old_world \<in> dirs old_world"
  "\<not> blocked old_world"
  "manifest_doc old_world = Some \<lparr>version = 0, skills = [InstalledSkillRecord_json sample_record]\<rparr>"
  "files old_world sample_manifest
     = Some (Json (Manifest_json \<lparr>version = 0, skills = [InstalledSkillRecord_json sample_record]\<rparr>))"
  by (rule manifest_world(1-8)
        [of "\<lparr>version = 0, skills = [InstalledSkillRecord_json sample_record]\<rparr>",
         folded old_world_def])+

lemma old_world_current:
  "current_doc old_world = \<lparr>version = 1, skills = [InstalledSkillRecord_json sample_record]\<rparr>"
  by (simp add: current_doc_def old_world_facts(7) MANIFEST_VERSION_def migrateManifest_def)

text \<open>The machine with a directory at the path of the temporary file: no save succeeds.\<close>

lemma stuck_world_facts:
  "getManifestPath stuck_world = sample_manifest"
  "files stuck_world (getManifestPath stuck_world)
     = Some (Json (Manifest_json \<lparr>version = 0, skills = [InstalledSkillRecord_json sample_record]\<rparr>))"
  "manifest_doc stuck_world
     = Some \<lparr>version = 0, skills = [InstalledSkillRecord_json sample_record]\<rparr>"
  "getConfigDir stuck_world \<in> dirs stuck_world"
  "blocked stuck_world"
proof -
  show p: "getManifestPath stuck_world = sample_manifest"
    by (simp add: stuck_world_def getManifestPath_def getConfigDir_def sample_manifest_def
        old_world_def sample_world_def)
  have c: "getConfigDir stuck_world = [''home'', ''user'', ''.openskill'']"
    by (simp add: stuck_world_def getConfigDir_def old_world_def sample_world_def)
  have n: "nodes stuck_world = (nodes old_world)(tempPath sample_manifest \<mapsto> Dir)"
    by (simp add: stuck_world_def tempPath_sample)
  have "files stuck_world sample_manifest = files old_world sample_manifest"
    by (simp add: files_def n tempPath_sample) (simp add: sample_manifest_def)
  then show f: "files stuck_world (getManifestPath stuck_world)
     = Some (Json (Manifest_json \<lparr>version = 0, skills = [InstalledSkillRecord_json sample_record]\<rparr>))"
    by (simp add: p old_world_facts(8))
  then show "manifest_doc stuck_world
     = Some \<lparr>version = 0, skills = [InstalledSkillRecord_json sample_record]\<rparr>"
    by (simp add: manifest_doc_def)
  show "getConfigDir stuck_world \<in> dirs stuck_world"
    using old_world_facts(5)
    by (simp add: c old_world_facts(3) dirs_iff n tempPath_sample)
  show "blocked stuck_world"
    by (simp add: blocked_def p dirs_iff n)
qed

text \<open>What a save that succeeds leaves: nothing is in the way of the next save.\<close>

lemma saveManifest_success:
  assumes "saveManifest m w = (Inr (), w')"
  shows "getConfigDir w' \<in> dirs w'" "\<not> blocked w'" "manifest_doc w' = Some m"
    "getManifestPath w' = getManifestPath w"
proof -
  let ?w1 = "snd (ensureConfigDir w)"
  let ?t = "Json (Manifest_json m)"
  let ?tp = "tempPath (getManifestPath w)"
  from assms obtain w2 where wr: "writeFileSync ?tp ?t ?w1 = Inr w2"
    and rn: "renameSync ?tp (getManifestPath w) w2 = Inr w'"
    by (auto simp add: saveManifest_alt split: sum.splits)
  from write_result [OF wr] have w2: "w2 = put_file ?tp ?t ?w1"
    and d1: "getConfigDir w \<in> dirs ?w1" by simp_all
  have "files w2 ?tp = Some ?t" by (simp add: w2)
  from rename_result [OF rn this] have
    w': "w' = put_file (getManifestPath w) ?t (remove_node ?tp ?w1)"
    by (simp add: w2)
  show p: "getManifestPath w' = getManifestPath w"
    by (simp add: w')
  have c: "getConfigDir w' = getConfigDir w"
    by (simp add: w')
  show "getConfigDir w' \<in> dirs w'"
    unfolding c using d1 by (simp add: w' getManifestPath_def tempPath_def)
  show "\<not> blocked w'"
    unfolding blocked_def p by (simp add: w' dirs_iff)
  show "manifest_doc w' = Some m"
    using manifest_doc_upd(3) [of "remove_node ?tp ?w1" m] by (simp add: w')
qed

text \<open>
  Claim C6 (migration), as amended. A manifest file whose version is below the current
  one: \<^verbatim>\<open>loadManifest\<close> migrates the document and saves it. When that save succeeds,
  \<^verbatim>\<open>loadManifest\<close> returns the document with the version set to the current one and
  the skills as they were, and the file holds that document when it returns; loading
  again returns the same document and leaves the world alone; so does loading after
  saving it once more, which succeeds too; and migrating a migrated document changes
  nothing. When the save fails, \<^verbatim>\<open>loadManifest\<close> returns the empty manifest, and the
  file is what it was.
\<close>

theorem migration_is_persisted_and_stable:
  assumes "files w (getManifestPath w) = Some c"
    and "parse_manifest c = Some m"
    and "version m < MANIFEST_VERSION"
    and "saveManifest (migrateManifest m) w = (r, w')"
  shows "(r = Inr () \<longrightarrow>
            loadManifest w = (migrateManifest m, w')
          \<and> version (migrateManifest m) = MANIFEST_VERSION
          \<and> skills (migrateManifest m) = skills m
          \<and> files w' (getManifestPath w') = Some (JSON_stringify (Manifest_json (migrateManifest m)))
          \<and> loadManifest w' = (migrateManifest m, w')
          \<and> fst (saveManifest (migrateManifest m) w') = Inr ()
          \<and> fst (loadManifest (snd (saveManifest (migrateManifest m) w'))) = migrateManifest m
          \<and> migrateManifest (migrateManifest m) = migrateManifest m)
     \<and> (r \<noteq> Inr () \<longrightarrow>
            loadManifest w = (empty_manifest, w')
          \<and> files w' (getManifestPath w') = Some c)"
proof (intro conjI impI)
  let ?mm = "migrateManifest m"
  have doc: "manifest_doc w = Some m" using assms(1,2) by (simp add: manifest_doc_def)
  have v: "\<not> version ?mm < MANIFEST_VERSION" by (simp add: migrateManifest_def)
  note fr = saveManifest_frame [OF assms(4)]
  have p: "getManifestPath w' = getManifestPath w"
    using fr same_machine_paths(3) by blast
  {
    assume "r \<noteq> Inr ()"
    then obtain e where e: "r = Inl e" by (cases r) auto
    show "loadManifest w = (empty_manifest, w')"
      using doc assms(3,4) e by (simp add: loadManifest_alt)
    show "files w' (getManifestPath w') = Some c"
      using fr e assms(1) by (simp add: p)
  }
  assume r: "r = Inr ()"
  with assms(4) have s: "saveManifest ?mm w = (Inr (), w')" by simp
  note ok = saveManifest_success [OF s]
  show "loadManifest w = (?mm, w')"
    using doc assms(3) s by (simp add: loadManifest_alt)
  show "version ?mm = MANIFEST_VERSION" "skills ?mm = skills m" "migrateManifest ?mm = ?mm"
    by (simp_all add: migrateManifest_def)
  show "files w' (getManifestPath w') = Some (JSON_stringify (Manifest_json ?mm))"
    using fr r by (simp add: p JSON_stringify_def)
  show "loadManifest w' = (?mm, w')"
    using ok(3) v by (simp add: loadManifest_alt)
  let ?w'' = "put_file (getManifestPath w') (Json (Manifest_json ?mm))
                (remove_node (tempPath (getManifestPath w')) (snd (ensureConfigDir w')))"
  have s2: "saveManifest ?mm w' = (Inr (), ?w'')"
    by (rule saveManifest_ok [OF ok(1,2)])
  then show "fst (saveManifest ?mm w') = Inr ()" by simp
  have "manifest_doc ?w'' = Some ?mm"
    using saveManifest_success(3) [OF s2] .
  then have "loadManifest ?w'' = (?mm, ?w'')"
    using v by (simp add: loadManifest_alt)
  then show "fst (loadManifest (snd (saveManifest ?mm w'))) = ?mm"
    by (simp add: s2)
qed

theorem migration_is_persisted_and_stable_witness:
  "fst (saveManifest \<lparr>version = 1, skills = [InstalledSkillRecord_json sample_record]\<rparr> old_world)
     = Inr ()
   \<and> fst (loadManifest old_world) = \<lparr>version = 1, skills = [InstalledSkillRecord_json sample_record]\<rparr>
   \<and> files (snd (loadManifest old_world)) sample_manifest
       = Some (Json (Manifest_json \<lparr>version = 1, skills = [InstalledSkillRecord_json sample_record]\<rparr>))
   \<and> loadManifest (snd (loadManifest old_world))
       = (\<lparr>version = 1, skills = [InstalledSkillRecord_json sample_record]\<rparr>, snd (loadManifest old_world))
   \<and> fst (saveManifest \<lparr>version = 1, skills = [InstalledSkillRecord_json sample_record]\<rparr> stuck_world)
       \<noteq> Inr ()
   \<and> fst (loadManifest stuck_world) = empty_manifest
   \<and> files (snd (loadManifest stuck_world)) sample_manifest
       = Some (Json (Manifest_json \<lparr>version = 0, skills = [InstalledSkillRecord_json sample_record]\<rparr>))"
proof -
  let ?m = "\<lparr>version = 0, skills = [InstalledSkillRecord_json sample_record]\<rparr>"
  let ?mm = "\<lparr>version = 1, skills = [InstalledSkillRecord_json sample_record]\<rparr>"
  have mm: "migrateManifest ?m = ?mm"
    by (simp add: migrateManifest_def MANIFEST_VERSION_def)
  obtain w' where s: "saveManifest (migrateManifest ?m) old_world = (Inr (), w')"
    using saveManifest_ok [OF old_world_facts(5,6)] by blast
  have f: "files old_world (getManifestPath old_world) = Some (Json (Manifest_json ?m))"
    using old_world_facts(8) by (simp add: old_world_facts(2))
  have p: "getManifestPath w' = sample_manifest"
    using saveManifest_success(4) [OF s] by (simp add: old_world_facts(2))
  from migration_is_persisted_and_stable [OF f parse_manifest_json _ s]
  have a: "loadManifest old_world = (?mm, w')"
    "files w' sample_manifest = Some (Json (Manifest_json ?mm))"
    "loadManifest w' = (?mm, w')"
    by (simp_all add: mm p MANIFEST_VERSION_def JSON_stringify_def)
  obtain r u where t: "saveManifest (migrateManifest ?m) stuck_world = (r, u)"
    by (cases "saveManifest (migrateManifest ?m) stuck_world") auto
  with saveManifest_blocked [OF stuck_world_facts(5), of "migrateManifest ?m"]
  have r: "r \<noteq> Inr ()" by auto
  have q: "getManifestPath u = sample_manifest"
    using saveManifest_frame [OF t] same_machine_paths(3) [of stuck_world u]
    by (simp add: stuck_world_facts(1))
  from migration_is_persisted_and_stable [OF stuck_world_facts(2) parse_manifest_json _ t] r
  have b: "loadManifest stuck_world = (empty_manifest, u)"
    "files u sample_manifest = Some (Json (Manifest_json ?m))"
    by (simp_all add: q MANIFEST_VERSION_def)
  from a b s t r show ?thesis by (simp add: mm)
qed

text \<open>
  The claim as stated fails where the save fails. Here a directory is at the path of
  the temporary file: \<^verbatim>\<open>writeFileSync\<close> throws, the \<^verbatim>\<open>catch\<close> block of
  \<^verbatim>\<open>loadManifest\<close> returns the empty manifest, and the file still holds the document of
  version 0.
\<close>

theorem migration_not_persisted_counterexample:
  "manifest_doc stuck_world
     = Some \<lparr>version = 0, skills = [InstalledSkillRecord_json sample_record]\<rparr>
   \<and> getConfigDir stuck_world \<in> dirs stuck_world
   \<and> fst (loadManifest stuck_world) = \<lparr>version = 1, skills = []\<rparr>
   \<and> manifest_doc (snd (loadManifest stuck_world))
     = Some \<lparr>version = 0, skills = [InstalledSkillRecord_json sample_record]\<rparr>"
proof -
  let ?m = "\<lparr>version = 0, skills = [InstalledSkillRecord_json sample_record]\<rparr>"
  note d = stuck_world_facts(3)
  obtain r w' where s: "saveManifest (migrateManifest ?m) stuck_world = (r, w')"
    by (cases "saveManifest (migrateManifest ?m) stuck_world") auto
  from saveManifest_blocked [OF stuck_world_facts(5), of "migrateManifest ?m"] s
  obtain e where e: "r = Inl e"
    by auto
  have l: "loadManifest stuck_world = (empty_manifest, w')"
    using d s e by (simp add: loadManifest_alt MANIFEST_VERSION_def)
  from saveManifest_frame [OF s] e have
    "files w' (getManifestPath stuck_world) = files stuck_world (getManifestPath stuck_world)"
    "same_machine stuck_world w'" by simp_all
  then have "manifest_doc w' = manifest_doc stuck_world"
    by (intro manifest_doc_frame)
  with d l stuck_world_facts(4) show ?thesis
    by (simp add: empty_manifest_def MANIFEST_VERSION_def)
qed

lemma current_world_facts:
  "getLockPath current_world = sample_lock" "getManifestPath current_world = sample_manifest"
  "getConfigDir current_world = [''home'', ''user'', ''.openskill'']"
  "nodes current_world (getLockPath current_world) = None"
  "getConfigDir current_world \<in> dirs current_world"
  "\<not> blocked current_world"
  "manifest_doc current_world
     = Some \<lparr>version = 1, skills = [InstalledSkillRecord_json sample_record]\<rparr>"
  by (rule manifest_world(1-7)
        [of "\<lparr>version = 1, skills = [InstalledSkillRecord_json sample_record]\<rparr>",
         folded current_world_def])+

lemma current_world_current:
  "current_doc current_world = \<lparr>version = 1, skills = [InstalledSkillRecord_json sample_record]\<rparr>"
  by (simp add: current_doc_def current_world_facts(7) MANIFEST_VERSION_def)

lemma filter_none: "\<forall>s\<in>set xs. \<not> P s \<Longrightarrow> filter (\<lambda>s. \<not> P s) xs = xs"
  by (induction xs) simp_all

text \<open>
  Claim C8 (removing a key that is not there), as amended. The manifest file holds a
  document, in an existing configuration directory, and no element of it matches the key.
  After \<^verbatim>\<open>removeSkillRecord\<close>, whether it returned or threw, the file holds the same
  document, or, when the document had an older version, possibly that document migrated:
  the same skills under the current version.
\<close>

theorem remove_missing_key_keeps_records:
  assumes "manifest_doc w = Some m"
    and "\<forall>s\<in>set (skills m).
           \<not> sameKey n a (case sc of None \<Rightarrow> ''project'' | Some x \<Rightarrow> scope_str x) s"
    and "getConfigDir w \<in> dirs w"
  shows "(manifest_doc (snd (removeSkillRecord n a sc w)) = Some m
          \<or> (version m < MANIFEST_VERSION
              \<and> manifest_doc (snd (removeSkillRecord n a sc w)) = Some (migrateManifest m)))
     \<and> skills (migrateManifest m) = skills m
     \<and> version (migrateManifest m) = MANIFEST_VERSION"
proof -
  obtain res w' where r: "withLock (update_manifest (remove_skills n a sc)) w = (res, w')"
    by (cases "withLock (update_manifest (remove_skills n a sc)) w") auto
  note o = withLock_update_dir [OF r assms(3)]
  have cur: "current_doc w = m \<or> (version m < MANIFEST_VERSION \<and> current_doc w = migrateManifest m)"
    using assms(1) by (simp add: current_doc_def)
  have sk: "skills (current_doc w) = skills m"
    using cur by (auto simp add: migrateManifest_def)
  have "manifest_doc w' = Some m
        \<or> (version m < MANIFEST_VERSION \<and> manifest_doc w' = Some (migrateManifest m))"
  proof (cases "res = Inr ()")
    case True
    with o obtain xs where xs: "remove_skills n a sc (skills (current_doc w)) = Inr xs"
      "manifest_doc w' = Some ((current_doc w)\<lparr>skills := xs\<rparr>)" by auto
    from xs(1) have "xs = skills (current_doc w)"
      using assms(2) sk
      by (auto simp add: remove_skills_def filter_skills_def filter_none split: if_splits)
    with xs(2) cur show ?thesis by auto
  next
    case False
    with o have "kept_doc w w'" by simp
    with assms(1) show ?thesis by (auto simp add: kept_doc_def)
  qed
  with r show ?thesis by (simp add: removeSkillRecord_alt migrateManifest_def)
qed

theorem remove_missing_key_keeps_records_witness:
  "manifest_doc current_world = Some \<lparr>version = 1, skills = [InstalledSkillRecord_json sample_record]\<rparr>
   \<and> manifest_doc (snd (removeSkillRecord ''xlsx'' ''claude'' None current_world))
       = Some \<lparr>version = 1, skills = [InstalledSkillRecord_json sample_record]\<rparr>"
proof -
  let ?m = "\<lparr>version = 1, skills = [InstalledSkillRecord_json sample_record]\<rparr>"
  have d: "manifest_doc current_world = Some ?m"
    "getConfigDir current_world \<in> dirs current_world"
    by (rule current_world_facts(7) current_world_facts(5))+
  have "\<forall>s\<in>set (skills ?m). \<not> sameKey ''xlsx'' ''claude''
          (case None of None \<Rightarrow> ''project'' | Some x \<Rightarrow> scope_str x) s"
    by (simp add: sameKey_record)
  from remove_missing_key_keeps_records [OF d(1) this d(2)] d(1) show ?thesis
    by (simp add: MANIFEST_VERSION_def)
qed

text \<open>
  The claim as stated fails for a document of an older version: removing a key that is
  not there writes the document back with the version moved from 0 to 1.
\<close>

theorem remove_missing_key_migrates_counterexample:
  "manifest_doc old_world = Some \<lparr>version = 0, skills = [InstalledSkillRecord_json sample_record]\<rparr>
   \<and> \<not> sameKey ''xlsx'' ''claude'' ''project'' (InstalledSkillRecord_json sample_record)
   \<and> fst (removeSkillRecord ''xlsx'' ''claude'' None old_world) = Inr ()
   \<and> manifest_doc (snd (removeSkillRecord ''xlsx'' ''claude'' None old_world))
       = Some \<lparr>version = 1, skills = [InstalledSkillRecord_json sample_record]\<rparr>"
proof -
  have g: "remove_skills ''xlsx'' ''claude'' None (skills (current_doc old_world))
            = Inr [InstalledSkillRecord_json sample_record]"
    by (simp add: old_world_current remove_skills_def filter_skills_def sameKey_record)
  from withLock_update_ok
    [where g = "remove_skills ''xlsx'' ''claude'' None", OF old_world_facts(4,5,6) g]
  obtain w' where "removeSkillRecord ''xlsx'' ''claude'' None old_world = (Inr (), w')"
    "manifest_doc w' = Some \<lparr>version = 1, skills = [InstalledSkillRecord_json sample_record]\<rparr>"
    by (auto simp add: removeSkillRecord_alt old_world_current)
  then show ?thesis by (simp add: sameKey_record old_world_facts(7))
qed

lemma find_skill_some:
  assumes "JNull \<notin> set xs" "s0 \<in> set xs" "P s0"
  shows "\<exists>s. find_skill P xs = Inr (Some s) \<and> s \<in> set xs \<and> P s"
  using assms by (induction xs) auto

lemma find_skill_holds: "find_skill P xs = Inr (Some s) \<Longrightarrow> P s"
  by (induction xs) (auto split: if_splits)

text \<open>
  Claim C9 (an absent scope is the project scope). A record whose scope is absent or
  \<^verbatim>\<open>"project"\<close> matches exactly the keys of its name, its agent and the scope
  \<^verbatim>\<open>"project"\<close>. So, with such a record \<open>r\<close> in the manifest (a document of the
  current version with no \<^verbatim>\<open>null\<close> among the skills, in an existing configuration
  directory where no lock marker exists and no directory is at the path of the
  temporary file): adding a record \<open>r'\<close> of the same name and agent whose scope is
  absent or \<^verbatim>\<open>"project"\<close>, either way round, leaves \<open>r'\<close> as the only element under the
  key; removing with the scope \<^verbatim>\<open>"project"\<close>, given or by default, leaves none; and
  \<^verbatim>\<open>getSkillRecord\<close> with the scope \<^verbatim>\<open>"project"\<close> finds an element of the key. The
  scope \<^verbatim>\<open>"global"\<close> is another key: adding the record \<open>r'\<close> with that scope, or removing
  with that scope, leaves \<open>r\<close> in the manifest and the elements under the project key
  as they were, and \<^verbatim>\<open>getSkillRecord\<close> with that scope does not find \<open>r\<close>.
\<close>

theorem absent_scope_is_project:
  assumes "scope r = None \<or> scope r = Some Project"
    and "scope r' = None \<or> scope r' = Some Project"
    and "name r' = name r" "agent r' = agent r"
    and "sc = None \<or> sc = Some Project"
    and "manifest_doc w = Some m" "MANIFEST_VERSION \<le> version m"
    and "InstalledSkillRecord_json r \<in> set (skills m)" "JNull \<notin> set (skills m)"
    and "\<not> existsSync (getLockPath w) w" "getConfigDir w \<in> dirs w"
    and "tempPath (getManifestPath w) \<notin> dirs w"
  shows "(\<forall>n a k. sameKey n a k (InstalledSkillRecord_json r)
            = (n = name r \<and> a = agent r \<and> k = ''project''))
     \<and> (\<exists>m'. manifest_doc (snd (addSkillRecord r' w)) = Some m'
            \<and> filter (sameKey (name r) (agent r) ''project'') (skills m')
                = [InstalledSkillRecord_json r'])
     \<and> (\<exists>m'. manifest_doc (snd (removeSkillRecord (name r) (agent r) sc w)) = Some m'
            \<and> filter (sameKey (name r) (agent r) ''project'') (skills m') = []
            \<and> InstalledSkillRecord_json r \<notin> set (skills m'))
     \<and> (\<exists>s. fst (getSkillRecord (name r) (agent r) (Some Project) w) = Inr (Some s)
            \<and> s \<in> set (skills m) \<and> sameKey (name r) (agent r) ''project'' s)
     \<and> (\<exists>m'. manifest_doc (snd (addSkillRecord (r'\<lparr>scope := Some Global\<rparr>) w)) = Some m'
            \<and> InstalledSkillRecord_json r \<in> set (skills m')
            \<and> filter (sameKey (name r) (agent r) ''project'') (skills m')
                = filter (sameKey (name r) (agent r) ''project'') (skills m))
     \<and> (\<exists>m'. manifest_doc (snd (removeSkillRecord (name r) (agent r) (Some Global) w)) = Some m'
            \<and> InstalledSkillRecord_json r \<in> set (skills m')
            \<and> filter (sameKey (name r) (agent r) ''project'') (skills m')
                = filter (sameKey (name r) (agent r) ''project'') (skills m))
     \<and> fst (getSkillRecord (name r) (agent r) (Some Global) w)
         \<noteq> Inr (Some (InstalledSkillRecord_json r))"
proof -
  let ?P = "sameKey (name r) (agent r) ''project''"
  let ?G = "sameKey (name r) (agent r) ''global''"
  have lock: "nodes w (getLockPath w) = None"
    using assms(10) by (simp add: existsSync_def)
  have nb: "\<not> blocked w"
    using assms(6,12) by (auto simp add: blocked_def manifest_doc_def dirs_iff files_def)
  note ok = withLock_update_ok [OF lock assms(11) nb]
  have key: "sameKey n a k (InstalledSkillRecord_json r)
      = (n = name r \<and> a = agent r \<and> k = ''project'')" for n a k
    using assms(1) by (auto simp add: sameKey_record)
  have key': "(case scope r' of None \<Rightarrow> ''project'' | Some x \<Rightarrow> scope_str x) = ''project''"
    using assms(2) by auto
  have ksc: "(case sc of None \<Rightarrow> ''project'' | Some x \<Rightarrow> scope_str x) = ''project''"
    using assms(5) by auto
  have cur: "current_doc w = m" using assms(6,7) by (simp add: current_doc_def)
  have "upsert_skills r' (skills (current_doc w))
          = Inr (filter (\<lambda>s. \<not> ?P s) (skills m) @ [InstalledSkillRecord_json r'])"
    using assms(3,4,9) key' cur by (simp add: upsert_skills_def filter_skills_def)
  from ok [where g = "upsert_skills r'", OF this]
  obtain w1 where "addSkillRecord r' w = (Inr (), w1)"
    "manifest_doc w1 = Some (m\<lparr>skills := filter (\<lambda>s. \<not> ?P s) (skills m) @ [InstalledSkillRecord_json r']\<rparr>)"
    using cur by (auto simp add: addSkillRecord_alt)
  moreover have "?P (InstalledSkillRecord_json r')"
    using assms(3,4) key' by (simp add: sameKey_record)
  ultimately have add: "\<exists>m'. manifest_doc (snd (addSkillRecord r' w)) = Some m'
            \<and> filter ?P (skills m') = [InstalledSkillRecord_json r']"
    by simp
  have "remove_skills (name r) (agent r) sc (skills (current_doc w))
          = Inr (filter (\<lambda>s. \<not> ?P s) (skills m))"
    using assms(9) ksc cur by (simp add: remove_skills_def filter_skills_def)
  from ok [where g = "remove_skills (name r) (agent r) sc", OF this]
  obtain w2 where "removeSkillRecord (name r) (agent r) sc w = (Inr (), w2)"
    "manifest_doc w2 = Some (m\<lparr>skills := filter (\<lambda>s. \<not> ?P s) (skills m)\<rparr>)"
    using cur by (auto simp add: removeSkillRecord_alt)
  then have rm: "\<exists>m'. manifest_doc (snd (removeSkillRecord (name r) (agent r) sc w)) = Some m'
            \<and> filter ?P (skills m') = [] \<and> InstalledSkillRecord_json r \<notin> set (skills m')"
    using key by simp
  have l: "loadManifest w = (m, w)" using assms(6,7) by (simp add: loadManifest_alt)
  have "?P (InstalledSkillRecord_json r)" using key by simp
  from find_skill_some [OF assms(9,8), of ?P, OF this] l
  have get: "\<exists>s. fst (getSkillRecord (name r) (agent r) (Some Project) w) = Inr (Some s)
            \<and> s \<in> set (skills m) \<and> ?P s"
    by (simp add: getSkillRecord_def)
  have other: "filter ?P (filter (\<lambda>s. \<not> ?G s) (skills m)) = filter ?P (skills m)"
    by (rule filter_other_key) simp
  have kept: "InstalledSkillRecord_json r \<in> set (filter (\<lambda>s. \<not> ?G s) (skills m))"
    using assms(8) key by simp
  let ?g = "r'\<lparr>scope := Some Global\<rparr>"
  have "upsert_skills ?g (skills (current_doc w))
          = Inr (filter (\<lambda>s. \<not> ?G s) (skills m) @ [InstalledSkillRecord_json ?g])"
    using assms(3,4,9) cur by (simp add: upsert_skills_def filter_skills_def)
  from ok [where g = "upsert_skills ?g", OF this]
  obtain w3 where "addSkillRecord ?g w = (Inr (), w3)"
    "manifest_doc w3 = Some (m\<lparr>skills := filter (\<lambda>s. \<not> ?G s) (skills m) @ [InstalledSkillRecord_json ?g]\<rparr>)"
    using cur by (auto simp add: addSkillRecord_alt)
  moreover have "\<not> ?P (InstalledSkillRecord_json ?g)"
    by (simp add: sameKey_record)
  ultimately have addg: "\<exists>m'. manifest_doc (snd (addSkillRecord ?g w)) = Some m'
            \<and> InstalledSkillRecord_json r \<in> set (skills m')
            \<and> filter ?P (skills m') = filter ?P (skills m)"
    using kept other by simp
  have "remove_skills (name r) (agent r) (Some Global) (skills (current_doc w))
          = Inr (filter (\<lambda>s. \<not> ?G s) (skills m))"
    using assms(9) cur by (simp add: remove_skills_def filter_skills_def)
  from ok [where g = "remove_skills (name r) (agent r) (Some Global)", OF this]
  obtain w4 where "removeSkillRecord (name r) (agent r) (Some Global) w = (Inr (), w4)"
    "manifest_doc w4 = Some (m\<lparr>skills := filter (\<lambda>s. \<not> ?G s) (skills m)\<rparr>)"
    using cur by (auto simp add: removeSkillRecord_alt)
  then have rmg: "\<exists>m'. manifest_doc (snd (removeSkillRecord (name r) (agent r) (Some Global) w)) = Some m'
            \<and> InstalledSkillRecord_json r \<in> set (skills m')
            \<and> filter ?P (skills m') = filter ?P (skills m)"
    using kept other by simp
  have getg: "fst (getSkillRecord (name r) (agent r) (Some Global) w)
      \<noteq> Inr (Some (InstalledSkillRecord_json r))"
  proof
    assume "fst (getSkillRecord (name r) (agent r) (Some Global) w)
      = Inr (Some (InstalledSkillRecord_json r))"
    with l have "find_skill ?G (skills m) = Inr (Some (InstalledSkillRecord_json r))"
      by (simp add: getSkillRecord_def)
    from find_skill_holds [OF this] key show False by simp
  qed
  from key add rm get addg rmg getg show ?thesis by blast
qed

theorem absent_scope_is_project_witness:
  "(\<exists>m'. manifest_doc (snd (addSkillRecord (sample_record\<lparr>scope := Some Project\<rparr>) current_world))
            = Some m'
        \<and> filter (sameKey ''pdf'' ''claude'' ''project'') (skills m')
            = [InstalledSkillRecord_json (sample_record\<lparr>scope := Some Project\<rparr>)])
   \<and> (\<exists>m'. manifest_doc (snd (removeSkillRecord ''pdf'' ''claude'' (Some Project) current_world))
            = Some m'
        \<and> InstalledSkillRecord_json sample_record \<notin> set (skills m'))
   \<and> fst (getSkillRecord ''pdf'' ''claude'' (Some Project) current_world)
       = Inr (Some (InstalledSkillRecord_json sample_record))
   \<and> (\<exists>m'. manifest_doc (snd (removeSkillRecord ''pdf'' ''claude'' (Some Global) current_world))
            = Some m'
        \<and> InstalledSkillRecord_json sample_record \<in> set (skills m'))
   \<and> fst (getSkillRecord ''pdf'' ''claude'' (Some Global) current_world)
       \<noteq> Inr (Some (InstalledSkillRecord_json sample_record))"
proof -
  let ?m = "\<lparr>version = 1, skills = [InstalledSkillRecord_json sample_record]\<rparr>"
  have h: "scope sample_record = None \<or> scope sample_record = Some Project"
    "scope (sample_record\<lparr>scope := Some Project\<rparr>) = None
       \<or> scope (sample_record\<lparr>scope := Some Project\<rparr>) = Some Project"
    "name (sample_record\<lparr>scope := Some Project\<rparr>) = name sample_record"
    "agent (sample_record\<lparr>scope := Some Project\<rparr>) = agent sample_record"
    "Some Project = None \<or> Some Project = Some Project"
    "manifest_doc current_world = Some ?m" "MANIFEST_VERSION \<le> version ?m"
    "InstalledSkillRecord_json sample_record \<in> set (skills ?m)" "JNull \<notin> set (skills ?m)"
    by (simp_all add: current_world_facts(7) MANIFEST_VERSION_def)
  have e: "\<not> existsSync (getLockPath current_world) current_world"
    using current_world_facts(4) by (simp add: existsSync_def)
  have t: "tempPath (getManifestPath current_world) \<notin> dirs current_world"
    using current_world_facts(6) by (simp add: blocked_def)
  from absent_scope_is_project [OF h e current_world_facts(5) t] show ?thesis by auto
qed

section \<open>Saving the manifest\<close>

lemma write_any:
  "writeFileSync p t w = Inl e \<Longrightarrow> writeFileSync p t' w = Inl e"
  "writeFileSync p t w = Inr x \<Longrightarrow> writeFileSync p t' w = Inr (put_file p t' w)"
  by (auto simp add: writeFileSync_def split: if_splits option.splits)

text \<open>The worlds of a save, by the step that ends it.\<close>

lemma save_states_cases:
  fixes m w
  defines "w1 \<equiv> snd (ensureConfigDir w)"
  defines "tp \<equiv> tempPath (getManifestPath w)"
  defines "t \<equiv> Json (Manifest_json m)"
  obtains (stopped) e where "save_states m w = [w, w1]" "saveManifest m w = (Inl e, w1)"
  | (renamed) e where "save_states m w = [w, w1, put_file tp (Raw []) w1, put_file tp t w1]"
      "saveManifest m w = (Inl e, put_file tp t w1)"
  | (saved)
      "save_states m w = [w, w1, put_file tp (Raw []) w1, put_file tp t w1,
         put_file (getManifestPath w) t (remove_node tp w1)]"
      "saveManifest m w = (Inr (), put_file (getManifestPath w) t (remove_node tp w1))"
proof -
  have alt: "save_states m w =
     (case fst (ensureConfigDir w) of
        Inl e \<Rightarrow> [w, w1]
      | Inr u \<Rightarrow>
          [w, w1] @
          (case writeFileSync tp (Raw []) w1 of
             Inl e \<Rightarrow> []
           | Inr wt \<Rightarrow>
               [wt] @
               (case writeFileSync tp t w1 of
                  Inl e \<Rightarrow> []
                | Inr w2 \<Rightarrow>
                    [w2] @
                    (case renameSync tp (getManifestPath w) w2 of
                       Inl e \<Rightarrow> []
                     | Inr w3 \<Rightarrow> [w3]))))"
    unfolding w1_def tp_def t_def
    by (cases "ensureConfigDir w")
      (simp add: save_states_def Let_def JSON_stringify_def
        ensureConfigDir_paths(3) [of w, symmetric] split: sum.splits)
  note sv = saveManifest_alt [of m w, folded w1_def tp_def t_def]
  show ?thesis
  proof (cases "fst (ensureConfigDir w)")
    case (Inl e)
    then show ?thesis by (intro stopped [of e]) (simp_all add: alt sv)
  next
    case (Inr u)
    show ?thesis
    proof (cases "writeFileSync tp t w1")
      case (Inl e)
      with write_any(1) [OF Inl, of "Raw []"] Inr show ?thesis
        by (intro stopped [of e]) (simp_all add: alt sv)
    next
      case w2: (Inr w2)
      from write_any(2) [OF w2] have wr: "writeFileSync tp t w1 = Inr (put_file tp t w1)"
        "writeFileSync tp (Raw []) w1 = Inr (put_file tp (Raw []) w1)" by simp_all
      have f2: "files (put_file tp t w1) tp = Some t" by simp
      show ?thesis
      proof (cases "renameSync tp (getManifestPath w) (put_file tp t w1)")
        case (Inl e)
        with wr Inr show ?thesis by (intro renamed [of e]) (simp_all add: alt sv)
      next
        case w3: (Inr w3)
        from rename_result [OF w3 f2]
        have "w3 = put_file (getManifestPath w) t (remove_node tp w1)" by simp
        with w3 wr Inr show ?thesis by (intro saved) (simp_all add: alt sv)
      qed
    qed
  qed
qed

lemma save_states_last: "last (save_states m w) = snd (saveManifest m w)"
  by (cases m w rule: save_states_cases) simp_all

text \<open>
  Claim C3 (atomic save). The temporary file is a sibling of the manifest file. In every
  world that \<^verbatim>\<open>saveManifest\<close> goes through, the manifest file is as it was before the
  call, except in the last one of a save that succeeds, which the rename produces: there
  the manifest file is the whole serialised document. So a save that fails, or that a
  crash stops before the rename, leaves the manifest file as it was; and the manifest
  file is never truncated or half written.
\<close>

theorem save_is_atomic:
  "butlast (tempPath (getManifestPath w)) = butlast (getManifestPath w)
   \<and> tempPath (getManifestPath w) \<noteq> getManifestPath w
   \<and> (\<forall>w' \<in> set (save_states manifest w).
         files w' (getManifestPath w) = files w (getManifestPath w)
         \<or> (w' = snd (saveManifest manifest w) \<and> fst (saveManifest manifest w) = Inr ()))
   \<and> (fst (saveManifest manifest w) = Inr () \<longrightarrow>
         files (snd (saveManifest manifest w)) (getManifestPath w)
           = Some (JSON_stringify (Manifest_json manifest))
         \<and> files (snd (saveManifest manifest w)) (tempPath (getManifestPath w)) = None)
   \<and> (fst (saveManifest manifest w) \<noteq> Inr () \<longrightarrow>
         files (snd (saveManifest manifest w)) (getManifestPath w) = files w (getManifestPath w))"
proof -
  have "tempPath (getManifestPath w) \<noteq> getManifestPath w"
    "butlast (tempPath (getManifestPath w)) = butlast (getManifestPath w)"
    by simp_all
  then show ?thesis
    by (cases manifest w rule: save_states_cases) (simp_all add: JSON_stringify_def)
qed

lemma current_world_save_states:
  "\<exists>w1 wt w2 w3. save_states empty_manifest current_world = [current_world, w1, wt, w2, w3]
     \<and> files wt (tempPath sample_manifest) = Some (Raw [])
     \<and> files w2 (tempPath sample_manifest) = Some (Json (Manifest_json empty_manifest))
     \<and> files w3 sample_manifest = Some (Json (Manifest_json empty_manifest))
     \<and> files w3 (tempPath sample_manifest) = None"
proof -
  have "fst (saveManifest empty_manifest current_world) = Inr ()"
    by (simp add: saveManifest_ok [OF current_world_facts(5,6)])
  moreover have "tempPath sample_manifest \<noteq> sample_manifest"
    unfolding tempPath_sample by (simp add: sample_manifest_def)
  ultimately show ?thesis
    by (cases empty_manifest current_world rule: save_states_cases)
      (simp_all add: current_world_facts(2))
qed

theorem save_is_atomic_witness:
  "length (save_states empty_manifest current_world) = 5
   \<and> files (save_states empty_manifest current_world ! 2) (tempPath sample_manifest) = Some (Raw [])
   \<and> files (save_states empty_manifest current_world ! 2) sample_manifest
       = files current_world sample_manifest
   \<and> files (save_states empty_manifest current_world ! 3) (tempPath sample_manifest)
       = Some (Json (Manifest_json empty_manifest))
   \<and> files (save_states empty_manifest current_world ! 3) sample_manifest
       = files current_world sample_manifest
   \<and> files (save_states empty_manifest current_world ! 4) sample_manifest
       = Some (Json (Manifest_json empty_manifest))"
proof -
  obtain w1 wt w2 w3 where
    s: "save_states empty_manifest current_world = [current_world, w1, wt, w2, w3]"
    and f: "files wt (tempPath sample_manifest) = Some (Raw [])"
      "files w2 (tempPath sample_manifest) = Some (Json (Manifest_json empty_manifest))"
      "files w3 sample_manifest = Some (Json (Manifest_json empty_manifest))"
      "files w3 (tempPath sample_manifest) = None"
    using current_world_save_states by blast
  have l: "snd (saveManifest empty_manifest current_world) = w3"
    using save_states_last [of empty_manifest current_world] s by simp
  have a: "\<forall>w' \<in> set [current_world, w1, wt, w2, w3].
         files w' sample_manifest = files current_world sample_manifest \<or> w' = w3"
    using save_is_atomic [of current_world empty_manifest] s l
    by (auto simp add: current_world_facts(2))
  have "wt \<noteq> w3" "w2 \<noteq> w3"
    using f by auto
  with a f s show ?thesis by simp
qed

section \<open>Claims about the repository cache\<close>

lemma getCachePath_valid:
  "isValidConfigRepoName n \<Longrightarrow> getCachePath n w = Inr (getReposCacheDir w @ [n @ ''.json''])"
  by (simp add: getCachePath_def isPathWithin_def)

text \<open>
  Claim C7 (loading the cache), as amended. For a source name that is a valid
  configuration name, \<^verbatim>\<open>loadRepoCache\<close> does not throw: it returns the array under
  \<^verbatim>\<open>skills\<close> when the cache file parses to a value that has one, and the empty list in
  every other case (no file, text that is not JSON, \<^verbatim>\<open>null\<close>, no \<^verbatim>\<open>skills\<close>, or
  \<^verbatim>\<open>skills\<close> that is not an array). For any other name it throws the error of an
  invalid repository name.
\<close>

theorem cache_load_of_valid_name:
  "(isValidConfigRepoName n \<longrightarrow>
      loadRepoCache n w =
        Inr (case files w (getReposCacheDir w @ [n @ ''.json'']) of
               None \<Rightarrow> []
             | Some c \<Rightarrow>
                 (case JSON_parse c of
                    None \<Rightarrow> []
                  | Some cache \<Rightarrow>
                      (case field cache ''skills'' of Some (JArr xs) \<Rightarrow> xs | _ \<Rightarrow> []))))
   \<and> (\<not> isValidConfigRepoName n \<longrightarrow> loadRepoCache n w = Inl InvalidRepoName)"
proof (intro conjI impI)
  assume "\<not> isValidConfigRepoName n"
  then show "loadRepoCache n w = Inl InvalidRepoName"
    by (simp add: loadRepoCache_def getCachePath_def)
next
  assume v: "isValidConfigRepoName n"
  let ?p = "getReposCacheDir w @ [n @ ''.json'']"
  have a: "falsy v \<or> \<not> isArray v \<longleftrightarrow> (\<forall>xs. v \<noteq> Some (JArr xs))" for v
    by (cases v rule: falsy.cases) simp_all
  show "loadRepoCache n w =
        Inr (case files w ?p of
               None \<Rightarrow> []
             | Some c \<Rightarrow>
                 (case JSON_parse c of
                    None \<Rightarrow> []
                  | Some cache \<Rightarrow>
                      (case field cache ''skills'' of Some (JArr xs) \<Rightarrow> xs | _ \<Rightarrow> [])))"
  proof (cases "files w ?p")
    case None
    then have "nodes w ?p = None \<or> nodes w ?p = Some Dir"
      by (simp add: files_None_iff)
    then show ?thesis
      using None v
      by (auto simp add: loadRepoCache_def getCachePath_valid existsSync_def readFileSync_def)
  next
    case (Some c)
    then have "nodes w ?p = Some (File c)"
      by (simp add: files_iff)
    then show ?thesis
      using Some v a
      by (auto simp add: loadRepoCache_def getCachePath_valid existsSync_def readFileSync_def
          split: option.splits json.splits)
  qed
qed

theorem cache_load_of_valid_name_witness:
  "loadRepoCache ''anthropic-official'' cached_world = Inr [JObj [(''name'', JStr ''pdf'')]]
   \<and> loadRepoCache ''openai-official'' cached_world = Inr []
   \<and> loadRepoCache ''../manifest'' cached_world = Inl InvalidRepoName"
proof -
  have v: "isValidConfigRepoName ''anthropic-official''" "isValidConfigRepoName ''openai-official''"
    by (simp_all add: isValidConfigRepoName_def is_name_char_def)
  have d: "getReposCacheDir cached_world = [''home'', ''user'', ''.openskill'', ''repos'']"
    by (simp add: getReposCacheDir_def getConfigDir_def cached_world_def put_file_def
        sample_world_def)
  have f: "files cached_world [''home'', ''user'', ''.openskill'', ''repos'', ''anthropic-official.json'']
      = Some (Json (JObj [(''lastUpdated'', JStr ''2024-01-01T00:00:00Z''),
                          (''skills'', JArr [JObj [(''name'', JStr ''pdf'')]])]))"
    "files cached_world [''home'', ''user'', ''.openskill'', ''repos'', ''openai-official.json''] = None"
    by (simp_all add: cached_world_def files_None_iff) (simp add: sample_world_def)
  have i: "\<not> isValidConfigRepoName ''../manifest''"
    by (simp add: isValidConfigRepoName_def is_name_char_def)
  show ?thesis
    using cache_load_of_valid_name [of "''anthropic-official''" cached_world]
      cache_load_of_valid_name [of "''openai-official''" cached_world]
      cache_load_of_valid_name [of "''../manifest''" cached_world]
    by (simp add: v i d f JSON_parse_def)
qed

text \<open>
  The claim as stated, for every source name, fails: the path of the cache file is
  computed before the \<^verbatim>\<open>try\<close> block, and a name that is not a valid configuration
  name makes \<^verbatim>\<open>getCachePath\<close> throw.
\<close>

theorem cache_load_throws_counterexample:
  "loadRepoCache ''../manifest'' sample_world = Inl InvalidRepoName
   \<and> loadRepoCache [] sample_world = Inl InvalidRepoName"
  by (simp add: loadRepoCache_def getCachePath_def isValidConfigRepoName_def is_name_char_def)

section \<open>Claims about installing a request\<close>

lemma rollback_world [simp]: "world (rollback xs m) = world m"
  by (induction xs m rule: rollback.induct)
    (auto simp add: uninstallSkill_def split: option.splits agent_value.splits)

lemma getAgent_samples [simp]:
  "getAgent ''claude'' = Some (Agent ''claude'')" "getAgent ''cursor'' = Some (Agent ''cursor'')"
  "getAgent ''codex'' = Some (Agent ''codex'')"
  by (simp_all add: getAgent_def toLowerCase_def)

text \<open>A name that the object of the agents inherits gives a value that is no agent.\<close>

lemma getAgent_inherited:
  "getAgent ''constructor'' = Some Prototype" "getAgent ''__proto__'' = Some Prototype"
  "getAgent ''vim'' = None"
  by (simp_all add: getAgent_def toLowerCase_def)

lemma getAgent_upper_case: "getAgent ''Claude'' = Some (Agent ''claude'')"
  by code_simp

text \<open>
  Claim C1 (rollback of a failed request). The claim has the rollback remove the record
  of every completed pair from the manifest. The code does not: the \<^verbatim>\<open>catch\<close> block
  of \<^verbatim>\<open>installFromGitHub\<close> calls the agent's \<^verbatim>\<open>uninstallSkill\<close> for each tracked pair
  and never \<^verbatim>\<open>removeSkillRecord\<close>. In the scenario of the specification (one skill,
  three agents, the copy for the second agent fails) the request ends with the error of
  the copy and with no skill directory left, and the manifest still holds the record of
  the first agent.
\<close>

theorem rollback_leaves_record_in_manifest:
  "fst (install_request sample_request [Some pdf_skill] [''claude'', ''cursor'', ''codex'']
          \<lparr>world = sample_world, content = {}\<rparr>) = Inl (InstallError ''pdf'')
   \<and> content (snd (install_request sample_request [Some pdf_skill] [''claude'', ''cursor'', ''codex'']
          \<lparr>world = sample_world, content = {}\<rparr>)) = {}
   \<and> manifest_doc (world (snd (install_request sample_request [Some pdf_skill]
          [''claude'', ''cursor'', ''codex''] \<lparr>world = sample_world, content = {}\<rparr>)))
       = Some \<lparr>version = 1, skills = [InstalledSkillRecord_json pdf_claude_record]\<rparr>"
proof -
  have "upsert_skills pdf_claude_record (skills (current_doc sample_world))
          = Inr [InstalledSkillRecord_json pdf_claude_record]"
    by (simp add: upsert_skills_def filter_skills_def empty_manifest_def)
  moreover have "nodes sample_world (getLockPath sample_world) = None"
    "getConfigDir sample_world \<in> dirs sample_world" "\<not> blocked sample_world"
    by (simp_all add: sample_nodes)
  ultimately obtain w1 where
    a: "addSkillRecord pdf_claude_record sample_world = (Inr (), w1)"
    and d: "manifest_doc w1 = Some \<lparr>version = 1, skills = [InstalledSkillRecord_json pdf_claude_record]\<rparr>"
    using withLock_update_ok [of sample_world "upsert_skills pdf_claude_record"]
    by (auto simp add: addSkillRecord_alt empty_manifest_def MANIFEST_VERSION_def)
  have r: "\<lparr>name = ''pdf'', agent = ''claude'',
            repoOwner = owner sample_request, repoName = repo sample_request,
            repoPath = skillPath sample_request, commitHash = commit sample_request,
            installedAt = toISOString sample_request (now sample_world),
            scope = Some (req_scope sample_request)\<rparr> = pdf_claude_record"
    by (simp add: pdf_claude_record_def pdf_skill_def sample_request_def)
  have i1: "installSkill sample_request ''claude'' pdf_skill \<lparr>world = sample_world, content = {}\<rparr>
      = Inr \<lparr>world = sample_world, content = {(''claude'', ''pdf'')}\<rparr>"
    by (simp add: installSkill_def sample_request_def pdf_skill_def)
  have i2: "installSkill sample_request ''cursor'' pdf_skill m = Inl (InstallError ''pdf'')" for m
    by (simp add: installSkill_def sample_request_def pdf_skill_def)
  have v: "valid pdf_skill" "frontmatter_name pdf_skill = ''pdf''" by (simp_all add: pdf_skill_def)
  have "install_agents sample_request pdf_skill [''claude'', ''cursor'', ''codex'']
          (\<lparr>world = sample_world, content = {}\<rparr>, [])
        = (Some (InstallError ''pdf''), \<lparr>world = w1, content = {(''claude'', ''pdf'')}\<rparr>,
           [(''pdf'', ''claude'')])"
    by (simp add: i1 i2 v r a Let_def)
  then have "install_request sample_request [Some pdf_skill] [''claude'', ''cursor'', ''codex'']
          \<lparr>world = sample_world, content = {}\<rparr>
        = (Inl (InstallError ''pdf''), \<lparr>world = w1, content = {}\<rparr>)"
    by (simp add: install_request_def uninstallSkill_def)
  with d show ?thesis by simp
qed

end
